(* ===== verification/Prelude.thy ===== *)
theory Prelude
  imports Complex_Main "HOL-Library.Multiset" "HOL-Library.Sublist"
begin

text \<open>
  Shared vocabulary of the development: the JavaScript behaviours the component theories
  rely on (reading an array out of range yields \<open>undefined\<close>, \<open>String.prototype.includes\<close>,
  the thrown \<open>TypeError\<close>), the source of randomness, and the generic list lemmas the
  component proofs share.  The collection \<open>js_simps\<close> gathers the evaluation rules of these
  helpers so that component proofs can say \<open>simp add: js_simps\<close>.
\<close>

named_theorems js_simps "evaluation rules of the JavaScript helper functions"

subsection \<open>Errors and randomness\<close>

text \<open>
  The only exception the modelled code can raise is a \<open>TypeError\<close>: reading a property of
  \<open>undefined\<close> (an array read out of range, or a missing key of \<open>examConfig\<close>).
\<close>

datatype js_error = TypeError

text \<open>
  \<open>Math.random() - 0.5\<close> is used only through its sign, as the answer of a sort comparator.
  A stream of such answers is a list of booleans: \<open>True\<close> is a positive comparator result.
\<close>

type_synonym rnd = "bool list"

subsection \<open>Array reads\<close>

text \<open>\<open>xs[i]\<close> in JavaScript: the element, or \<open>undefined\<close> (here \<open>None\<close>) out of range.\<close>

definition js_nth :: "'a list \<Rightarrow> nat \<Rightarrow> 'a option" where
  "js_nth xs i = (if i < length xs then Some (xs ! i) else None)"

lemma js_nth_Some_iff [js_simps]: "js_nth xs i = Some x \<longleftrightarrow> i < length xs \<and> xs ! i = x"
  by (auto simp: js_nth_def)

lemma js_nth_None_iff [js_simps]: "js_nth xs i = None \<longleftrightarrow> length xs \<le> i"
  by (auto simp: js_nth_def)

lemma js_nth_Cons_0 [simp]: "js_nth (x # xs) 0 = Some x"
  by (simp add: js_nth_def)

lemma js_nth_Cons_Suc [simp]: "js_nth (x # xs) (Suc i) = js_nth xs i"
  by (simp add: js_nth_def)

lemma js_nth_Nil [simp]: "js_nth [] i = None"
  by (simp add: js_nth_def)

lemma js_nth_update [js_simps]:
  "js_nth (xs[i := v]) j = (if i = j \<and> i < length xs then Some v else js_nth xs j)"
  by (auto simp: js_nth_def)

subsection \<open>Evaluation that may throw\<close>

text \<open>
  Reading a property of a value that may be \<open>undefined\<close> throws a \<open>TypeError\<close>
  (\<open>js_get\<close>); \<open>js_bind\<close> runs the evaluation steps of an expression in order and stops
  at the first that throws.
\<close>

definition js_get :: "'a option \<Rightarrow> js_error + 'a" where
  "js_get x = (case x of None \<Rightarrow> Inl TypeError | Some a \<Rightarrow> Inr a)"

definition js_bind :: "js_error + 'a \<Rightarrow> ('a \<Rightarrow> js_error + 'b) \<Rightarrow> js_error + 'b" where
  "js_bind m f = (case m of Inl e \<Rightarrow> Inl e | Inr a \<Rightarrow> f a)"

lemma js_get_simps [simp, js_simps]: "js_get None = Inl TypeError" "js_get (Some a) = Inr a"
  by (simp_all add: js_get_def)

lemma js_bind_simps [simp, js_simps]: "js_bind (Inl e) f = Inl e" "js_bind (Inr a) f = f a"
  by (simp_all add: js_bind_def)

lemma js_bind_Inr_iff [js_simps]: "js_bind m f = Inr b \<longleftrightarrow> (\<exists>a. m = Inr a \<and> f a = Inr b)"
  by (cases m) simp_all

subsection \<open>String.prototype.includes\<close>

text \<open>
  \<open>p.includes(s)\<close>: \<open>s\<close> occurs in \<open>p\<close> at some position.  The search tries each start
  position from the left, as the specification of the built-in does.
\<close>

fun js_includes :: "string \<Rightarrow> string \<Rightarrow> bool" where
  "js_includes [] s = (s = [])"
| "js_includes (c # cs) s = (prefix s (c # cs) \<or> js_includes cs s)"

text \<open>The search agrees with the library's contiguous-sublist relation.\<close>

lemma js_includes_sublist: "js_includes p s \<longleftrightarrow> sublist s p"
proof (induction p)
  case Nil
  then show ?case by simp
next
  case (Cons c cs)
  then show ?case by (auto simp: sublist_Cons_right)
qed

subsection \<open>Lists\<close>

lemma length_filter_True_le [simp]: "length (filter (\<lambda>x. x) xs) \<le> length xs"
  by (rule length_filter_le)

text \<open>Two lists with the same multiset of elements (one a permutation of the other).\<close>
lemma perm_length_filter: "mset xs = mset ys \<Longrightarrow> length (filter P xs) = length (filter P ys)"
  by (metis mset_filter size_mset)

lemma perm_find_unique_key:
  assumes "mset xs = mset ys" "distinct (map f xs)"
  shows "find (\<lambda>a. f a = k) xs = find (\<lambda>a. f a = k) ys"
proof -
  have set: "set xs = set ys" using assms(1) by (rule mset_eq_setD)
  have inj: "inj_on f (set xs)" using assms(2) by (simp add: distinct_map)
  show ?thesis
  proof (cases "find (\<lambda>a. f a = k) xs")
    case None
    then have "find (\<lambda>a. f a = k) ys = None" using set by (simp add: find_None_iff)
    with None show ?thesis by simp
  next
    case (Some a)
    then have a: "a \<in> set xs" "f a = k" by (auto simp: find_Some_iff nth_mem)
    then have "find (\<lambda>a. f a = k) ys \<noteq> None" using set by (auto simp: find_None_iff)
    then obtain b where b: "find (\<lambda>a. f a = k) ys = Some b" by blast
    then have "b \<in> set xs" "f b = k" using set by (auto simp: find_Some_iff nth_mem)
    with a inj have "a = b" by (auto dest: inj_onD)
    with Some b show ?thesis by simp
  qed
qed

end
