(* ===== verification/Questions.thy ===== *)
theory Questions
  imports Prelude
begin

text \<open>
  The question data of \<open>src/src/App.tsx\<close>: the interfaces \<open>Question\<close>, \<open>Section\<close> and
  \<open>ShuffledQuestion\<close>, the flattening \<open>extract\<close> of the question-bank tree into questions
  annotated with their category path, and the answer shuffle \<open>shuffleAnswers\<close> built on
  \<open>shuffleArray\<close>, that is \<open>[...array].sort(() => Math.random() - 0.5)\<close>.

  The object spreads of the source (\<open>{...q, categoryPath: p}\<close>, \<open>{...q, answers}\<close>) keep
  every field of \<open>q\<close> and add one: they are record extensions here.  The comparator of the
  shuffle answers with the sign of a random number; the engine's sort is modelled as V8's
  TimSort on arrays of fewer than 64 elements (one run, then binary insertion), whose
  comparator answers come from a stream of random booleans.  Whatever the answers, the result is a permutation of the input, which is
  all that ECMAScript promises for an inconsistent comparator.
\<close>

subsection \<open>Data\<close>

record Question =
  number :: string
  qclass :: string
  question :: string
  answer_a :: string
  answer_b :: string
  answer_c :: string
  answer_d :: string
  picture_question :: "string option"
  picture_a :: "string option"
  picture_b :: "string option"
  picture_c :: "string option"
  picture_d :: "string option"

datatype Section = Section (title: string) (sec_questions: "Question list option")
  (sec_sections: "Section list option")

record CategorizedQuestion = Question +
  categoryPath :: "string list"

record Answer =
  answer_id :: string
  answer_text :: string
  isCorrect :: bool

record ShuffledQuestion = CategorizedQuestion +
  answers :: "Answer list"

subsection \<open>Flattening the question bank\<close>

text \<open>\<open>{...q, categoryPath: p}\<close>.\<close>

definition categorize :: "string list \<Rightarrow> Question \<Rightarrow> CategorizedQuestion" where
  "categorize p q = Question.extend q (CategorizedQuestion.fields p)"

text \<open>
  \<open>extract(secs, path)\<close>: for each section in order, its own questions (when the field is
  present) tagged with the path extended by its title, then the questions of its
  subsections, recursively.
\<close>

fun extract_sections :: "Section list \<Rightarrow> string list \<Rightarrow> CategorizedQuestion list" where
  "extract_sections [] path = []"
| "extract_sections (Section t qs ss # secs) path =
     (let p = path @ [t] in
      (case qs of None \<Rightarrow> [] | Some qs' \<Rightarrow> map (categorize p) qs') @
      (case ss of None \<Rightarrow> [] | Some ss' \<Rightarrow> extract_sections ss' p)) @ extract_sections secs path"

subsection \<open>The shuffle\<close>

text \<open>
  The engine's sort as V8 runs it (\<open>ArrayTimSort\<close>, \<open>third_party/v8/builtins/array-sort.tq\<close>).
  For fewer than 64 elements the minimum run length is the length itself, so TimSort makes
  one run: \<open>CountAndMakeRun\<close> takes the longest ascending or strictly descending prefix
  (reversing a descending one), and \<open>BinaryInsertionSort\<close> inserts every further element
  into the sorted prefix by binary search; there is nothing to merge.  The comparator
  \<open>() => Math.random() - 0.5\<close> ignores its arguments, so each call only consumes one answer
  of the random stream: \<open>True\<close> when it returns a negative number.  An exhausted stream
  answers non-negative.
\<close>

definition cmp :: "rnd \<Rightarrow> bool \<times> rnd" where
  "cmp bs = (case bs of [] \<Rightarrow> (False, []) | b # bs' \<Rightarrow> (b, bs'))"

text \<open>
  The loop of \<open>CountAndMakeRun\<close> after its first comparison: the run goes on while the
  comparator keeps the direction (negative for a descending run, non-negative for an
  ascending one); the result is the number of further elements in the run.
\<close>

fun run_ext :: "bool \<Rightarrow> rnd \<Rightarrow> 'a list \<Rightarrow> nat \<times> rnd" where
  "run_ext desc bs [] = (0, bs)"
| "run_ext desc bs (x # xs) =
     (let (neg, bs') = cmp bs in
      if neg = desc then (let (k, bs'') = run_ext desc bs' xs in (Suc k, bs'')) else (0, bs'))"

text \<open>\<open>CountAndMakeRun(0, n)\<close> for \<open>n \<ge> 2\<close>: the run length and the array with the run
  in ascending order.\<close>

definition make_run :: "rnd \<Rightarrow> 'a list \<Rightarrow> nat \<times> 'a list \<times> rnd" where
  "make_run bs xs =
     (let (desc, bs1) = cmp bs; (k, bs2) = run_ext desc bs1 (drop 2 xs); r = k + 2 in
      (r, if desc then rev (take r xs) @ drop r xs else xs, bs2))"

text \<open>
  The binary search of \<open>BinaryInsertionSort\<close> for the pivot's slot in \<open>[left, right)\<close>:
  \<open>mid = left + ((right - left) >> 1)\<close>; a negative comparison moves \<open>right\<close> to
  \<open>mid\<close>, any other \<open>left\<close> to \<open>mid + 1\<close>.
\<close>

function bsearch :: "rnd \<Rightarrow> nat \<Rightarrow> nat \<Rightarrow> nat \<times> rnd" where
  "bsearch bs l r =
     (if l < r
      then (let m = l + (r - l) div 2; (neg, bs') = cmp bs in
            if neg then bsearch bs' l m else bsearch bs' (Suc m) r)
      else (l, bs))"
  by pat_completeness auto
termination
  by (relation "measure (\<lambda>(bs, l, r). r - l)") auto

declare bsearch.simps [simp del]

text \<open>\<open>BinaryInsertionSort\<close>: the sorted prefix and the elements still to insert.\<close>

fun bin_insert_sort :: "rnd \<Rightarrow> 'a list \<Rightarrow> 'a list \<Rightarrow> 'a list \<times> rnd" where
  "bin_insert_sort bs pre [] = (pre, bs)"
| "bin_insert_sort bs pre (x # xs) =
     (let (l, bs') = bsearch bs 0 (length pre) in bin_insert_sort bs' (take l pre @ x # drop l pre) xs)"

text \<open>\<open>ArrayTimSortImpl\<close> for one run: arrays of fewer than two elements are left alone.\<close>

definition timsort :: "rnd \<Rightarrow> 'a list \<Rightarrow> 'a list \<times> rnd" where
  "timsort bs xs =
     (if length xs < 2 then (xs, bs)
      else (let (r, ys, bs') = make_run bs xs in bin_insert_sort bs' (take r ys) (drop r ys)))"

text \<open>
  \<open>shuffleArray(array)\<close> (lines 75-77): \<open>[...array].sort(() => Math.random() - 0.5)\<close>,
  returning the shuffled copy and the unused random answers.  For 64 or more elements V8
  sorts runs of the minimum run length this way and then merges them; the merges are not
  modelled, and of the shuffle of a part's pool only the fact that it permutes is used.
\<close>

definition shuffleArray :: "rnd \<Rightarrow> 'a list \<Rightarrow> 'a list \<times> rnd" where
  "shuffleArray bs xs = timsort bs xs"

text \<open>The four answer options, answer \<open>a\<close> the correct one, in their original slots.\<close>

definition options :: "'a CategorizedQuestion_scheme \<Rightarrow> Answer list" where
  "options q =
     [\<lparr>answer_id = ''A'', answer_text = answer_a q, isCorrect = True\<rparr>,
      \<lparr>answer_id = ''B'', answer_text = answer_b q, isCorrect = False\<rparr>,
      \<lparr>answer_id = ''C'', answer_text = answer_c q, isCorrect = False\<rparr>,
      \<lparr>answer_id = ''D'', answer_text = answer_d q, isCorrect = False\<rparr>]"

text \<open>\<open>shuffleAnswers(q)\<close>: \<open>{...q, answers: shuffleArray(options)}\<close>.\<close>

definition shuffleAnswers :: "rnd \<Rightarrow> CategorizedQuestion \<Rightarrow> ShuffledQuestion \<times> rnd" where
  "shuffleAnswers bs q =
     (let (ans, bs') = shuffleArray bs (options q)
      in (CategorizedQuestion.extend q (ShuffledQuestion.fields ans), bs'))"

text \<open>\<open>extract(data.sections).map(shuffleAnswers)\<close>: one shuffle per question, in order,
  drawing on one stream of random answers.\<close>

fun shuffleAll :: "rnd \<Rightarrow> CategorizedQuestion list \<Rightarrow> ShuffledQuestion list \<times> rnd" where
  "shuffleAll bs [] = ([], bs)"
| "shuffleAll bs (q # qs) =
     (let (q', bs') = shuffleAnswers bs q; (qs', bs'') = shuffleAll bs' qs in (q' # qs', bs''))"

definition loadQuestions :: "rnd \<Rightarrow> Section list \<Rightarrow> ShuffledQuestion list" where
  "loadQuestions bs secs = fst (shuffleAll bs (extract_sections secs []))"

text \<open>
  The correctness test of \<open>handleResolve\<close> and of the practice mode:
  \<open>answers.find((a) => a.id === selected)?.isCorrect || false\<close>.
\<close>

definition answerCorrect :: "string \<Rightarrow> ShuffledQuestion \<Rightarrow> bool" where
  "answerCorrect sel q =
     (case find (\<lambda>a. answer_id a = sel) (answers q) of None \<Rightarrow> False | Some a \<Rightarrow> isCorrect a)"

subsection \<open>The shuffle permutes\<close>

lemma bsearch_less:
  "l < r \<Longrightarrow> bsearch bs l r =
     (if fst (cmp bs) then bsearch (snd (cmp bs)) l (l + (r - l) div 2)
      else bsearch (snd (cmp bs)) (Suc (l + (r - l) div 2)) r)"
  by (subst bsearch.simps) (simp add: Let_def split: prod.split)

lemma bsearch_ge: "\<not> l < r \<Longrightarrow> bsearch bs l r = (l, bs)"
  by (simp add: bsearch.simps)

lemma bsearch_bounds: "l \<le> r \<Longrightarrow> l \<le> fst (bsearch bs l r) \<and> fst (bsearch bs l r) \<le> r"
proof (induction bs l r rule: bsearch.induct)
  case (1 bs l r)
  show ?case
  proof (cases "l < r")
    case True
    obtain neg bs' where c: "cmp bs = (neg, bs')" by fastforce
    have m: "l \<le> l + (r - l) div 2" "l + (r - l) div 2 < r" using True by simp_all
    show ?thesis
      using "1.IH"[OF True refl c[symmetric]] m by (cases neg) (fastforce simp: bsearch_less c)+
  qed (use "1.prems" in \<open>simp add: bsearch_ge\<close>)
qed

lemma mset_insert_at: "l \<le> length xs \<Longrightarrow> mset (take l xs @ x # drop l xs) = add_mset x (mset xs)"
  by (metis append_take_drop_id mset_append add_mset_add_single union_mset_add_mset_right mset.simps(2))

lemma mset_bin_insert_sort: "mset (fst (bin_insert_sort bs pre xs)) = mset pre + mset xs"
proof (induction bs pre xs rule: bin_insert_sort.induct)
  case (1 bs pre)
  then show ?case by simp
next
  case (2 bs pre x xs)
  obtain l bs' where b: "bsearch bs 0 (length pre) = (l, bs')" by fastforce
  have "l \<le> length pre" using bsearch_bounds[of 0 "length pre" bs] b by simp
  then have "mset (take l pre @ x # drop l pre) = add_mset x (mset pre)" by (rule mset_insert_at)
  with "2.IH"[OF b[symmetric] refl] b show ?case by simp
qed

lemma make_run_eq:
  "\<exists>r ys bs'. make_run bs xs = (r, ys, bs') \<and> mset ys = mset xs"
  by (auto simp: make_run_def Let_def split: prod.splits)
    (metis append_take_drop_id mset_append mset_rev)

lemma mset_timsort: "mset (fst (timsort bs xs)) = mset xs"
proof (cases "length xs < 2")
  case False
  obtain r ys bs' where m: "make_run bs xs = (r, ys, bs')" and y: "mset ys = mset xs"
    using make_run_eq by blast
  have "mset (fst (bin_insert_sort bs' (take r ys) (drop r ys))) = mset ys"
    by (simp add: mset_bin_insert_sort flip: mset_append)
  with False m y show ?thesis by (simp add: timsort_def)
qed (simp add: timsort_def)

lemma mset_shuffleArray: "mset (fst (shuffleArray bs xs)) = mset xs"
  by (simp add: shuffleArray_def mset_timsort)

text \<open>Without comparator answers the sort leaves the array as it is.\<close>

lemma run_ext_no_answers: "run_ext False [] xs = (length xs, [])"
  by (induction xs) (simp_all add: cmp_def)

lemma shuffleArray_no_answers [simp]: "shuffleArray [] xs = (xs, [])"
  by (simp add: shuffleArray_def timsort_def make_run_def cmp_def run_ext_no_answers)

subsection \<open>Every order is reachable\<close>

lemma bsearch_any:
  assumes "l \<le> k" "k \<le> r"
  shows "\<exists>bits. \<forall>rest. bsearch (bits @ rest) l r = (k, rest)"
  using assms
proof (induction "r - l" arbitrary: l r rule: less_induct)
  case less
  show ?case
  proof (cases "l < r")
    case False
    with less.prems have "k = l" by simp
    with False show ?thesis by (intro exI[of _ "[]"]) (simp add: bsearch.simps)
  next
    case lr: True
    define m where "m = l + (r - l) div 2"
    have m: "l \<le> m" "m < r" using lr by (simp_all add: m_def)
    have step: "bsearch ((b # bits) @ rest) l r = (if b then bsearch (bits @ rest) l m else bsearch (bits @ rest) (Suc m) r)"
      for b bits rest
      using lr by (simp add: bsearch_less m_def cmp_def)
    show ?thesis
    proof (cases "k \<le> m")
      case True
      have "m - l < r - l" using m by simp
      with less.hyps[of m l] less.prems True obtain bits where "\<forall>rest. bsearch (bits @ rest) l m = (k, rest)"
        by blast
      then show ?thesis using step[of True bits] by (intro exI[of _ "True # bits"]) simp
    next
      case False
      have "r - Suc m < r - l" using m by simp
      with less.hyps[of r "Suc m"] less.prems False obtain bits where "\<forall>rest. bsearch (bits @ rest) (Suc m) r = (k, rest)"
        by fastforce
      then show ?thesis using step[of False bits] by (intro exI[of _ "False # bits"]) simp
    qed
  qed
qed

lemma bin_insert_sort_snoc:
  "bin_insert_sort bs pre (xs @ [x]) =
     (let (p, bs') = bin_insert_sort bs pre xs; (l, bs'') = bsearch bs' 0 (length p) in
      (take l p @ x # drop l p, bs''))"
  by (induction bs pre xs rule: bin_insert_sort.induct) (auto split: prod.splits)

lemma mset_split_at:
  assumes "mset zs = mset (xs @ [x])"
  obtains k zs' where "k \<le> length zs'" "zs = take k zs' @ x # drop k zs'" "mset zs' = mset xs"
proof -
  have "x \<in> set zs" using assms by (metis mset_eq_setD set_append Un_iff list.set_intros(1))
  then obtain k where k: "k < length zs" "zs ! k = x" by (auto simp: in_set_conv_nth)
  define zs' where "zs' = take k zs @ drop (Suc k) zs"
  have len: "k \<le> length zs'" using k by (simp add: zs'_def)
  have zs: "zs = take k zs' @ x # drop k zs'"
    using k by (simp add: zs'_def) (metis id_take_nth_drop)
  have "mset zs = add_mset x (mset zs')" using len by (subst zs) (rule mset_insert_at)
  with assms have "mset zs' = mset xs" by simp
  with len zs show ?thesis by (rule that)
qed

lemma mset_pair: "mset zs = mset [a, b] \<Longrightarrow> zs = [a, b] \<or> zs = [b, a]"
proof -
  assume z: "mset zs = mset [a, b]"
  then have "length zs = 2" by (metis length_Cons list.size(3) numeral_2_eq_2 size_mset)
  then obtain c d where zs: "zs = [c, d]" by (metis length_0_conv length_Suc_conv numeral_2_eq_2)
  with z show ?thesis by (auto simp: add_eq_conv_ex)
qed

lemma bin_insert_sort_reach:
  "mset zs = mset (a # b # xs) \<Longrightarrow>
   \<exists>pre bits. (pre = [a, b] \<or> pre = [b, a]) \<and> (\<forall>rest. bin_insert_sort (bits @ rest) pre xs = (zs, rest))"
proof (induction xs arbitrary: zs rule: rev_induct)
  case Nil
  then have "zs = [a, b] \<or> zs = [b, a]" by (intro mset_pair) simp
  then show ?case by (intro exI[of _ zs] exI[of _ "[]"]) auto
next
  case (snoc x xs)
  from snoc.prems have "mset zs = mset ((a # b # xs) @ [x])" by simp
  then obtain k zs' where k: "k \<le> length zs'" and zs: "zs = take k zs' @ x # drop k zs'"
    and m: "mset zs' = mset (a # b # xs)" by (rule mset_split_at)
  from snoc.IH[OF m] obtain pre bits1 where pre: "pre = [a, b] \<or> pre = [b, a]"
    and b1: "\<And>rest. bin_insert_sort (bits1 @ rest) pre xs = (zs', rest)" by blast
  from bsearch_any[of 0 k "length zs'"] k obtain bits2 where
    b2: "\<And>rest. bsearch (bits2 @ rest) 0 (length zs') = (k, rest)" by auto
  have "bin_insert_sort ((bits1 @ bits2) @ rest) pre (xs @ [x]) = (zs, rest)" for rest
    using b1[of "bits2 @ rest"] b2[of rest] zs by (simp add: bin_insert_sort_snoc)
  with pre show ?case by blast
qed

lemma make_run_two:
  "make_run ((d # (if xs = [] then [] else [\<not> d])) @ rest) (a # b # xs) =
     (2, (if d then [b, a] else [a, b]) @ xs, rest)"
  by (cases xs) (simp_all add: make_run_def cmp_def)

lemma timsort_reach:
  assumes m: "mset ys = mset xs"
  shows "\<exists>bs. fst (timsort bs xs) = ys"
proof (cases xs rule: remdups_adj.cases)
  case 1
  with m show ?thesis by (simp add: timsort_def)
next
  case (2 x)
  with m have "ys = [x]" by (cases ys rule: remdups_adj.cases) auto
  with 2 show ?thesis by (simp add: timsort_def)
next
  case (3 a b xs')
  from bin_insert_sort_reach[of ys a b xs'] m 3 obtain pre bits where
    pre: "pre = [a, b] \<or> pre = [b, a]" and bi: "\<And>rest. bin_insert_sort (bits @ rest) pre xs' = (ys, rest)"
    by auto
  define d where "d = (pre \<noteq> [a, b])"
  have pd: "(if d then [b, a] else [a, b]) = pre" and lp: "length pre = 2" using pre by (auto simp: d_def)
  have "timsort ((d # (if xs' = [] then [] else [\<not> d])) @ bits) xs = (ys, [])"
    using make_run_two[of d xs' bits a b] bi[of "[]"] pd lp 3 by (simp add: timsort_def)
  then show ?thesis by (metis fst_conv)
qed

text \<open>
  C15: every order of the array is a possible outcome of \<open>shuffleArray\<close>: for every
  permutation there is a stream of comparator answers that produces it.
\<close>

theorem shuffleArray_reaches_every_permutation:
  "mset ys = mset xs \<Longrightarrow> \<exists>bs. fst (shuffleArray bs xs) = ys"
  unfolding shuffleArray_def by (rule timsort_reach)

lemma answers_shuffleAnswers [simp]:
  "answers (fst (shuffleAnswers bs q)) = fst (shuffleArray bs (options q))"
  by (simp add: shuffleAnswers_def Let_def split_def CategorizedQuestion.defs ShuffledQuestion.defs)

lemma mset_answers_shuffleAnswers: "mset (answers (fst (shuffleAnswers bs q))) = mset (options q)"
  by (simp add: mset_shuffleArray)

text \<open>
  C8: after \<open>shuffleAnswers\<close> exactly one of the four answer options is marked correct.
\<close>

theorem shuffleAnswers_exactly_one_correct:
  "length (filter isCorrect (answers (fst (shuffleAnswers bs q)))) = 1"
  using perm_length_filter[OF mset_answers_shuffleAnswers] by (simp add: options_def)

lemma shuffleAnswers_keeps_question:
  "CategorizedQuestion.truncate (fst (shuffleAnswers bs q)) = q"
  by (simp add: shuffleAnswers_def Let_def split_def CategorizedQuestion.defs ShuffledQuestion.defs)

text \<open>
  C9: the verdict of \<open>handleResolve\<close> and of the practice mode on a shuffled question is
  "correct" exactly for the answer whose id is \<open>A\<close>, the original \<open>answer_a\<close>,
  wherever the shuffle has put it.
\<close>

theorem answerCorrect_shuffleAnswers:
  "answerCorrect sel (fst (shuffleAnswers bs q)) \<longleftrightarrow> sel = ''A''"
proof -
  have "find (\<lambda>a. answer_id a = sel) (options q) =
        find (\<lambda>a. answer_id a = sel) (answers (fst (shuffleAnswers bs q)))"
    by (rule perm_find_unique_key[OF mset_answers_shuffleAnswers[symmetric]]) (simp add: options_def)
  then have "answerCorrect sel (fst (shuffleAnswers bs q)) =
      (case find (\<lambda>a. answer_id a = sel) (options q) of None \<Rightarrow> False | Some a \<Rightarrow> isCorrect a)"
    by (simp add: answerCorrect_def)
  also have "\<dots> \<longleftrightarrow> sel = ''A''"
    by (auto simp: options_def)
  finally show ?thesis .
qed

lemma run_ext_map: "run_ext desc bs (map f xs) = run_ext desc bs xs"
  by (induction desc bs xs rule: run_ext.induct) (simp_all add: Let_def split: prod.splits)

lemma bin_insert_sort_map:
  "bin_insert_sort bs (map f pre) (map f xs) = apfst (map f) (bin_insert_sort bs pre xs)"
  by (induction bs pre xs rule: bin_insert_sort.induct) (simp_all add: Let_def split: prod.splits add: take_map drop_map)

lemma shuffleArray_map: "fst (shuffleArray bs (map f xs)) = map f (fst (shuffleArray bs xs))"
proof (cases "length xs < 2")
  case False
  then show ?thesis
    by (simp add: shuffleArray_def timsort_def make_run_def Let_def run_ext_map rev_map take_map drop_map
        bin_insert_sort_map flip: map_append split: prod.splits)
qed (simp add: shuffleArray_def timsort_def)

lemma answer_order_shuffleAnswers:
  "map answer_id (answers (fst (shuffleAnswers bs q))) = fst (shuffleArray bs [''A'', ''B'', ''C'', ''D''])"
  using shuffleArray_map[of bs answer_id "options q"] by (simp add: options_def)

text \<open>
  C16: the shuffle is not uniform.  Six comparator answers suffice for every run of the
  sort on four options (the answer appended to any six-answer stream is never read), so the
  \<open>2 ^ 6\<close> streams of six answers are equally likely outcomes; over them the original
  order \<open>A, B, C, D\<close> comes out 12 times, a probability of \<open>3/16\<close> instead of \<open>1/24\<close>,
  and the correct answer is shown first 23 times, \<open>23/64\<close> instead of \<open>1/4\<close>.
\<close>

theorem shuffleAnswers_biased:
  "list_all (\<lambda>bs. snd (shuffleArray (bs @ [True]) [''A'', ''B'', ''C'', ''D'']) \<noteq> [])
      (List.n_lists 6 [True, False]) \<and>
   count_list (map (\<lambda>bs. map answer_id (answers (fst (shuffleAnswers bs q)))) (List.n_lists 6 [True, False]))
      [''A'', ''B'', ''C'', ''D''] = 12 \<and>
   length (filter (\<lambda>bs. hd (map answer_id (answers (fst (shuffleAnswers bs q)))) = ''A'')
      (List.n_lists 6 [True, False])) = 23"
  unfolding answer_order_shuffleAnswers by code_simp

subsection \<open>Flattening keeps every question and tags it with its path\<close>

lemma categoryPath_categorize [simp]: "categoryPath (categorize p q) = p"
  by (simp add: categorize_def CategorizedQuestion.defs Question.defs)

lemma truncate_categorize [simp]: "Question.truncate (categorize p q) = q"
  by (simp add: categorize_def CategorizedQuestion.defs Question.defs)

text \<open>
  C19: every question the flattening returns carries the path it was called with, extended
  by at least the title of the section that holds it; from the root (\<open>path = []\<close>) every
  category path is non-empty.
\<close>

theorem extract_sections_path:
  "q \<in> set (extract_sections secs path) \<Longrightarrow> \<exists>t ts. categoryPath q = path @ t # ts"
proof (induction secs path rule: extract_sections.induct)
  case (1 path)
  then show ?case by simp
next
  case (2 t qs ss secs path)
  from "2.prems" consider
      (own) "q \<in> set (case qs of None \<Rightarrow> [] | Some qs' \<Rightarrow> map (categorize (path @ [t])) qs')"
    | (sub) ss' where "ss = Some ss'" "q \<in> set (extract_sections ss' (path @ [t]))"
    | (rest) "q \<in> set (extract_sections secs path)"
    by (auto simp: Let_def split: option.splits)
  then show ?case
  proof cases
    case own
    then show ?thesis by (auto split: option.splits)
  next
    case sub
    with "2.IH"(1) show ?thesis by fastforce
  next
    case rest
    with "2.IH"(2) show ?thesis by blast
  qed
qed

lemma truncate_shuffleAll: "map CategorizedQuestion.truncate (fst (shuffleAll bs qs)) = qs"
proof (induction bs qs rule: shuffleAll.induct)
  case (1 bs)
  then show ?case by simp
next
  case (2 bs q qs)
  obtain q' bs' where s: "shuffleAnswers bs q = (q', bs')" by fastforce
  have "CategorizedQuestion.truncate q' = q"
    using shuffleAnswers_keeps_question[of bs q] s by simp
  with "2.IH"[OF refl s[symmetric]] s show ?case by (simp add: Let_def split_def)
qed

end
