(* ===== verification/ExamConfig.thy ===== *)
theory ExamConfig
  imports Questions
begin

text \<open>
  The exam-scheme registry \<open>examConfig\<close> of \<open>src/src/App.tsx\<close>: for each of the six exam
  types, in the order of \<open>Object.keys\<close>, the ordered list of its parts.  A part
  (\<open>ExamPartConfig\<close>) has a label, a required question count, a question filter and a
  duration in minutes.  The source writes each part literal out again in every exam type
  that uses it; the five distinct literals are the definitions \<open>partV\<close> to \<open>partA\<close>,
  and the registry lists them.  \<open>examConfig[examType]\<close> is \<open>map_of\<close>, \<open>undefined\<close>
  (here \<open>None\<close>) for a key that is not in the registry.
\<close>

record PartConfig =
  label :: string
  count_p :: nat
  filter_p :: "ShuffledQuestion \<Rightarrow> bool"
  durationMin :: nat

text \<open>\<open>q.categoryPath.some((p) => p.includes(s))\<close>: a substring match on any path title.\<close>

definition inCategory :: "string \<Rightarrow> ShuffledQuestion \<Rightarrow> bool" where
  "inCategory s q = list_ex (\<lambda>p. js_includes p s) (categoryPath q)"

definition partV :: PartConfig where
  "partV = \<lparr>label = ''Vorschriften (V)'', count_p = 25,
     filter_p = (\<lambda>q. inCategory ''Vorschriften'' q), durationMin = 45\<rparr>"

definition partB :: PartConfig where
  "partB = \<lparr>label = ''Betriebliche Kenntnisse (B)'', count_p = 25,
     filter_p = (\<lambda>q. inCategory ''Betriebliche Kenntnisse'' q), durationMin = 45\<rparr>"

definition partN :: PartConfig where
  "partN = \<lparr>label = ''Technik N (N)'', count_p = 25,
     filter_p = (\<lambda>q. inCategory ''Technische Kenntnisse'' q \<and> qclass q = ''1''), durationMin = 45\<rparr>"

definition partE :: PartConfig where
  "partE = \<lparr>label = ''Technik E (E)'', count_p = 25,
     filter_p = (\<lambda>q. inCategory ''Technische Kenntnisse'' q \<and> qclass q = ''2''), durationMin = 45\<rparr>"

definition partA :: PartConfig where
  "partA = \<lparr>label = ''Technik A (A)'', count_p = 25,
     filter_p = (\<lambda>q. inCategory ''Technische Kenntnisse'' q \<and> qclass q = ''3''), durationMin = 60\<rparr>"

definition examConfig :: "(string \<times> PartConfig list) list" where
  "examConfig =
     [(''N'', [partV, partB, partN]),
      (''E'', [partV, partB, partN, partE]),
      (''A'', [partV, partB, partN, partE, partA]),
      (''N->E'', [partE]),
      (''N->A'', [partE, partA]),
      (''E->A'', [partA])]"

text \<open>\<open>examConfig[examType]\<close>.\<close>

definition examConfigOf :: "string \<Rightarrow> PartConfig list option" where
  "examConfigOf k = map_of examConfig k"

text \<open>\<open>Object.keys(examConfig)\<close>, the options of the exam-type selector.\<close>

definition examTypes :: "string list" where
  "examTypes = map fst examConfig"

lemmas part_defs = partV_def partB_def partN_def partE_def partA_def

lemma examConfigOf_simps [simp]:
  "examConfigOf ''N'' = Some [partV, partB, partN]"
  "examConfigOf ''E'' = Some [partV, partB, partN, partE]"
  "examConfigOf ''A'' = Some [partV, partB, partN, partE, partA]"
  "examConfigOf ''N->E'' = Some [partE]"
  "examConfigOf ''N->A'' = Some [partE, partA]"
  "examConfigOf ''E->A'' = Some [partA]"
  by (simp_all add: examConfigOf_def examConfig_def)

lemma examConfigOf_Some_iff: "(\<exists>ps. examConfigOf k = Some ps) \<longleftrightarrow> k \<in> set examTypes"
  by (auto simp: examConfigOf_def examTypes_def examConfig_def)

lemma examTypes_eq: "examTypes = [''N'', ''E'', ''A'', ''N->E'', ''N->A'', ''E->A'']"
  by (simp add: examTypes_def examConfig_def)

lemma examConfigOf_nonempty: "examConfigOf k = Some ps \<Longrightarrow> ps \<noteq> []"
  by (auto simp: examConfigOf_def examConfig_def split: if_splits)

lemma examConfigOf_parts:
  "examConfigOf k = Some ps \<Longrightarrow> set ps \<subseteq> {partV, partB, partN, partE, partA}"
  by (auto simp: examConfigOf_def examConfig_def split: if_splits)


end
