(* ===== verification/PartBuilder.thy ===== *)
theory PartBuilder
  imports ExamConfig
begin

text \<open>
  The part builder inside \<open>startSimulation\<close> of \<open>src/src/App.tsx\<close>: for each part of the
  selected scheme, filter the question pool with the part's predicate, shuffle the matches,
  take the first \<open>count\<close> of them, and pad by cyclic repetition
  (\<open>while (sel.length < part.count && pool.length) sel.push(pool[sel.length % pool.length])\<close>);
  each selected question is tagged with the part's label (\<open>ExamQuestion\<close>).  The loop is
  \<open>pad\<close>, whose termination measure is the number of missing questions.  The random answers
  of the comparator are drawn from one stream across all parts, in the order of the parts.
\<close>

record ExamQuestion =
  partLabel :: string
  question :: ShuffledQuestion

function pad :: "nat \<Rightarrow> 'a list \<Rightarrow> 'a list \<Rightarrow> 'a list" where
  "pad n pool sel =
     (if length sel < n \<and> length pool \<noteq> 0
      then pad n pool (sel @ [pool ! (length sel mod length pool)])
      else sel)"
  by pat_completeness auto
termination
  by (relation "measure (\<lambda>(n, pool, sel). n - length sel)") auto

declare pad.simps [simp del]

definition buildPart :: "ShuffledQuestion list \<Rightarrow> rnd \<Rightarrow> PartConfig \<Rightarrow> ExamQuestion list \<times> rnd" where
  "buildPart questions bs part =
     (let (pool, bs') = shuffleArray bs (filter (filter_p part) questions);
          sel = pad (count_p part) pool (take (count_p part) pool)
      in (map (\<lambda>q. \<lparr>partLabel = label part, question = q\<rparr>) sel, bs'))"

text \<open>\<open>parts.map(...)\<close>, drawing on the random stream part after part.\<close>

fun buildParts :: "ShuffledQuestion list \<Rightarrow> rnd \<Rightarrow> PartConfig list \<Rightarrow> ExamQuestion list list \<times> rnd" where
  "buildParts questions bs [] = ([], bs)"
| "buildParts questions bs (part # parts) =
     (let (sel, bs') = buildPart questions bs part;
          (sels, bs'') = buildParts questions bs' parts
      in (sel # sels, bs''))"

text \<open>The shuffled pool of a part and the questions selected from it.\<close>

definition partPool :: "ShuffledQuestion list \<Rightarrow> rnd \<Rightarrow> PartConfig \<Rightarrow> ShuffledQuestion list" where
  "partPool questions bs part = fst (shuffleArray bs (filter (filter_p part) questions))"

subsection \<open>The padding loop\<close>

lemma pad_empty_pool [simp]: "pad n [] sel = sel"
  by (simp add: pad.simps)

text \<open>
  The loop appends the cyclic continuation of the pool: the element at position \<open>i\<close> is
  \<open>pool ! (i mod length pool)\<close>.
\<close>

lemma pad_cyclic:
  "pool \<noteq> [] \<Longrightarrow>
   pad n pool sel = sel @ map (\<lambda>i. pool ! (i mod length pool)) [length sel..<n]"
proof (induction n pool sel rule: pad.induct)
  case (1 n pool sel)
  show ?case
  proof (cases "length sel < n")
    case True
    with "1.prems" have "pad n pool sel = pad n pool (sel @ [pool ! (length sel mod length pool)])"
      by (simp add: pad.simps [of n pool sel])
    also have "\<dots> = (sel @ [pool ! (length sel mod length pool)]) @
        map (\<lambda>i. pool ! (i mod length pool)) [Suc (length sel)..<n]"
      using "1.IH" True "1.prems" by simp
    also have "\<dots> = sel @ map (\<lambda>i. pool ! (i mod length pool)) [length sel..<n]"
      using True by (simp add: upt_conv_Cons)
    finally show ?thesis .
  next
    case False
    then show ?thesis by (simp add: pad.simps [of n pool sel])
  qed
qed

lemma take_as_cyclic:
  "take n pool = map (\<lambda>i. pool ! (i mod length pool)) [0..<min n (length pool)]"
  by (rule nth_equalityI) simp_all

text \<open>
  Selection of one part, in closed form: the first \<open>count\<close> elements of the infinite cyclic
  repetition of the shuffled pool, or nothing when the pool is empty.
\<close>

lemma pad_take_cyclic:
  "pad n pool (take n pool) =
     (if pool = [] then [] else map (\<lambda>i. pool ! (i mod length pool)) [0..<n])"
proof (cases "pool = []")
  case False
  have "[0..<n] = [0..<min n (length pool)] @ [min n (length pool)..<n]"
    using upt_add_eq_append[of 0 "min n (length pool)" "n - min n (length pool)"] by simp
  with False show ?thesis
    by (simp add: pad_cyclic take_as_cyclic)
qed simp

lemma buildPart_eq:
  "buildPart questions bs part =
     (map (\<lambda>q. \<lparr>partLabel = label part, question = q\<rparr>)
        (pad (count_p part) (partPool questions bs part)
           (take (count_p part) (partPool questions bs part))),
      snd (shuffleArray bs (filter (filter_p part) questions)))"
  by (simp add: buildPart_def partPool_def Let_def split_def)

lemma mset_partPool: "mset (partPool questions bs part) = mset (filter (filter_p part) questions)"
  by (simp add: partPool_def mset_shuffleArray)

lemma set_partPool: "set (partPool questions bs part) = {q \<in> set questions. filter_p part q}"
  using mset_partPool[of questions bs part] by (metis mset_eq_setD set_filter)

lemma partPool_empty_iff: "partPool questions bs part = [] \<longleftrightarrow> (\<forall>q\<in>set questions. \<not> filter_p part q)"
proof -
  have "partPool questions bs part = [] \<longleftrightarrow> set (partPool questions bs part) = {}"
    by simp
  then show ?thesis using set_partPool[of questions bs part] by auto
qed


subsection \<open>Selection of a part\<close>

lemma buildPart_cyclic:
  "fst (buildPart questions bs part) =
     (let pool = partPool questions bs part in
      map (\<lambda>q. \<lparr>partLabel = label part, question = q\<rparr>)
        (if pool = [] then [] else map (\<lambda>i. pool ! (i mod length pool)) [0..<count_p part]))"
  by (simp add: buildPart_eq pad_take_cyclic Let_def)

lemma buildPart_length_eq:
  "length (fst (buildPart questions bs part)) =
     (if \<exists>q\<in>set questions. filter_p part q then count_p part else 0)"
  by (simp add: buildPart_cyclic Let_def partPool_empty_iff)

lemma set_buildPart:
  "eq \<in> set (fst (buildPart questions bs part)) \<Longrightarrow>
   partLabel eq = label part \<and> question eq \<in> set questions \<and> filter_p part (question eq)"
proof -
  assume "eq \<in> set (fst (buildPart questions bs part))"
  then obtain i where "eq = \<lparr>partLabel = label part, question = partPool questions bs part ! (i mod length (partPool questions bs part))\<rparr>"
    and ne: "partPool questions bs part \<noteq> []"
    by (auto simp: buildPart_cyclic Let_def split: if_splits)
  moreover have "partPool questions bs part ! (i mod length (partPool questions bs part)) \<in> set (partPool questions bs part)"
    using ne by simp
  ultimately show ?thesis by (simp add: set_partPool)
qed

text \<open>
  C5: the selection of a part is the first \<open>count\<close> elements of the cyclic repetition of
  the shuffled filtered pool (\<open>pool[i mod pool.length]\<close> for \<open>i < count\<close>), and empty when
  the pool is empty: the loop of \<open>startSimulation\<close> implements padding by repetition.
\<close>

theorem buildPart_selection:
  "fst (buildPart questions bs part) =
     (let pool = partPool questions bs part in
      map (\<lambda>q. \<lparr>partLabel = label part, question = q\<rparr>)
        (if pool = [] then [] else map (\<lambda>i. pool ! (i mod length pool)) [0..<count_p part]))"
  by (rule buildPart_cyclic)

text \<open>
  C4: a built part has exactly \<open>count\<close> questions when some question of the bank satisfies
  its filter, however few, and none otherwise (the loop stops instead of dividing by zero).
\<close>

theorem buildPart_size:
  "length (fst (buildPart questions bs part)) =
     (if \<exists>q\<in>set questions. filter_p part q then count_p part else 0)"
  by (rule buildPart_length_eq)

text \<open>
  C6: every question of a built part carries the part's label, is a question of the pool,
  and satisfies the part's filter.
\<close>

theorem buildPart_sound:
  "\<forall>eq\<in>set (fst (buildPart questions bs part)).
     partLabel eq = label part \<and> question eq \<in> set questions \<and> filter_p part (question eq)"
  using set_buildPart by blast

text \<open>
  C17: when the bank holds at least \<open>count\<close> matching questions and no question twice, a
  part holds no question twice (it is drawn without replacement, no padding happens).
\<close>

theorem buildPart_distinct:
  assumes "distinct questions" "count_p part \<le> length (filter (filter_p part) questions)"
  shows "distinct (map question (fst (buildPart questions bs part)))"
proof -
  let ?pool = "partPool questions bs part"
  have len: "count_p part \<le> length ?pool"
    using assms(2) mset_partPool[of questions bs part] by (metis size_mset)
  have "distinct ?pool"
    using assms(1) mset_partPool[of questions bs part] by (metis distinct_filter mset_eq_imp_distinct_iff)
  then have "distinct (take (count_p part) ?pool)" by simp
  moreover have "pad (count_p part) ?pool (take (count_p part) ?pool) = take (count_p part) ?pool"
    using len by (simp add: pad.simps)
  ultimately show ?thesis by (simp add: buildPart_eq comp_def)
qed

lemma buildParts_Cons_eq:
  "buildParts questions bs (part # parts) =
     (fst (buildPart questions bs part) # fst (buildParts questions (snd (buildPart questions bs part)) parts),
      snd (buildParts questions (snd (buildPart questions bs part)) parts))"
  by (simp add: Let_def split_def)

declare buildParts.simps(2) [simp del]
declare buildParts_Cons_eq [simp]

lemma buildParts_length: "length (fst (buildParts questions bs parts)) = length parts"
  by (induction parts arbitrary: bs) simp_all

lemma buildParts_nth:
  "i < length parts \<Longrightarrow>
   \<exists>bs'. fst (buildParts questions bs parts) ! i = fst (buildPart questions bs' (parts ! i))"
proof (induction parts arbitrary: bs i)
  case Nil
  then show ?case by simp
next
  case (Cons part parts)
  show ?case
  proof (cases i)
    case 0
    then show ?thesis by auto
  next
    case (Suc j)
    with Cons.prems have "j < length parts" by simp
    with Cons.IH Suc show ?thesis by simp
  qed
qed

end
