(* ===== verification/Scorer.thy ===== *)
theory Scorer
  imports PartBuilder
begin

text \<open>
  Scoring in \<open>src/src/App.tsx\<close>: the number of correct answers of a part
  (\<open>res.filter((x) => x).length\<close>), the pass rule of the settings card
  (\<open>res.length === part.count && correct / part.count >= 0.75\<close>), the pass mark shown
  only for a complete part, and the final result view with
  \<open>Math.round((corr / len) * 100)\<close> per part.

  JavaScript divides in binary floating point.  The model divides exactly in \<open>rat\<close>.  For the
  pass rule the two agree: the rounded quotient of \<open>c / n\<close> is at least \<open>0.75\<close> exactly when
  the exact one is, because \<open>0.75\<close> is a double and an exact quotient below it is at least
  \<open>1 / (4 n)\<close> away, far more than the rounding error for any count a question bank has.
  HOL's \<open>x / 0 = 0\<close> makes \<open>0 / 0 >= 0.75\<close> false, as JavaScript's \<open>NaN >= 0.75\<close> is.
  For the percentage, a quotient that is not finite (a part with no questions) is \<open>None\<close>:
  the view then shows \<open>NaN%\<close>.
\<close>

definition correctCount :: "bool list \<Rightarrow> nat" where
  "correctCount res = length (filter (\<lambda>x. x) res)"

definition passed :: "PartConfig \<Rightarrow> bool list \<Rightarrow> bool" where
  "passed part res =
     (length res = count_p part \<and> (of_nat (correctCount res) / of_nat (count_p part) :: rat) \<ge> 3 / 4)"

text \<open>The pass mark of one part in the settings card: shown only once the part is complete.\<close>

definition partStatus :: "PartConfig \<Rightarrow> bool list \<Rightarrow> bool option" where
  "partStatus part res = (if length res = count_p part then Some (passed part res) else None)"

text \<open>\<open>examConfig[examType].map((part, idx) => ... results[idx] || [] ...)\<close>.\<close>

definition statusView :: "PartConfig list \<Rightarrow> bool list list \<Rightarrow> bool option list" where
  "statusView parts results =
     map (\<lambda>(idx, part). partStatus part (case js_nth results idx of None \<Rightarrow> [] | Some r \<Rightarrow> r))
       (enumerate 0 parts)"

text \<open>\<open>Math.round((corr / len) * 100)\<close>; \<open>Math.round(x)\<close> is \<open>floor(x + 0.5)\<close>.\<close>

definition percent :: "nat \<Rightarrow> nat \<Rightarrow> int option" where
  "percent corr len =
     (if len = 0 then None else Some \<lfloor>(of_nat corr / of_nat len * 100 :: rat) + 1 / 2\<rfloor>)"

text \<open>
  The final view: one row per part, label, correct answers, questions and percentage.
  A missing entry of \<open>results\<close> or of the scheme is a \<open>TypeError\<close> during rendering (\<open>None\<close>).
\<close>

type_synonym resultRow = "string \<times> nat \<times> nat \<times> int option"

definition resultView :: "PartConfig list \<Rightarrow> ExamQuestion list list \<Rightarrow> bool list list \<Rightarrow> resultRow list option" where
  "resultView parts sims results =
     those (map (\<lambda>i. case (js_nth results i, js_nth parts i) of
                      (Some res, Some part) \<Rightarrow>
                        Some (label part, correctCount res, length (sims ! i),
                              percent (correctCount res) (length (sims ! i)))
                    | _ \<Rightarrow> None)
                [0..<length sims])"

subsection \<open>The pass rule\<close>

lemma correctCount_le [simp]: "correctCount res \<le> length res"
  by (simp add: correctCount_def)

lemma correctCount_append [simp]: "correctCount (res @ [b]) = correctCount res + (if b then 1 else 0)"
  by (simp add: correctCount_def)

lemma rat_ge_three_quarters_iff:
  "0 < n \<Longrightarrow> ((of_nat c / of_nat n :: rat) \<ge> 3 / 4) \<longleftrightarrow> 3 * n \<le> 4 * c"
proof -
  assume n: "0 < n"
  have "((of_nat c / of_nat n :: rat) \<ge> 3 / 4) \<longleftrightarrow> 3 * of_nat n \<le> (of_nat c * 4 :: rat)"
    using n by (simp add: divide_simps)
  also have "\<dots> \<longleftrightarrow> of_nat (3 * n) \<le> (of_nat (4 * c) :: rat)"
    by (simp add: mult.commute)
  also have "\<dots> \<longleftrightarrow> 3 * n \<le> 4 * c"
    by (rule of_nat_le_iff)
  finally show ?thesis .
qed

lemma passed_iff_count:
  "passed part res \<longleftrightarrow>
     length res = count_p part \<and> 0 < count_p part \<and> 3 * count_p part \<le> 4 * correctCount res"
proof (cases "count_p part = 0")
  case True
  then show ?thesis by (simp add: passed_def)
next
  case False
  then have "0 < count_p part" by simp
  from rat_ge_three_quarters_iff[OF this, of "correctCount res"] False show ?thesis
    unfolding passed_def by blast
qed

subsection \<open>The percentage\<close>

lemma percent_div:
  "percent corr len = (if len = 0 then None else Some (int ((200 * corr + len) div (2 * len))))"
proof (cases "len = 0")
  case False
  have "(of_nat corr / of_nat len * 100 :: rat) + 1 / 2 = of_nat (200 * corr + len) / of_nat (2 * len)"
    using False by (simp add: field_simps)
  then have "\<lfloor>(of_nat corr / of_nat len * 100 :: rat) + 1 / 2\<rfloor> = int ((200 * corr + len) div (2 * len))"
    by (simp only: floor_divide_of_nat_eq)
  with False show ?thesis by (simp add: percent_def)
qed (simp add: percent_def)


subsection \<open>The result view\<close>

lemma those_map_Some: "those (map (\<lambda>i. Some (f i)) xs) = Some (map f xs)"
  by (induction xs) simp_all

lemma resultView_eq:
  "length results = length sims \<Longrightarrow> length parts = length sims \<Longrightarrow>
   resultView parts sims results =
     Some (map (\<lambda>i. (label (parts ! i), correctCount (results ! i), length (sims ! i),
                     percent (correctCount (results ! i)) (length (sims ! i)))) [0..<length sims])"
proof -
  assume l: "length results = length sims" "length parts = length sims"
  have "map (\<lambda>i. case (js_nth results i, js_nth parts i) of
                   (Some res, Some part) \<Rightarrow>
                     Some (label part, correctCount res, length (sims ! i),
                           percent (correctCount res) (length (sims ! i)))
                 | _ \<Rightarrow> None) [0..<length sims] =
        map (\<lambda>i. Some (label (parts ! i), correctCount (results ! i), length (sims ! i),
                   percent (correctCount (results ! i)) (length (sims ! i)))) [0..<length sims]"
    using l by (simp add: js_nth_def)
  then have "resultView parts sims results =
      those (map (\<lambda>i. Some (label (parts ! i), correctCount (results ! i), length (sims ! i),
                   percent (correctCount (results ! i)) (length (sims ! i)))) [0..<length sims])"
    unfolding resultView_def by (rule arg_cong[where f = those])
  then show ?thesis by (simp only: those_map_Some)
qed

lemma percent_le_100: "c \<le> n \<Longrightarrow> percent c n = Some v \<Longrightarrow> 0 \<le> v \<and> v \<le> 100"
proof -
  assume c: "c \<le> n" and p: "percent c n = Some v"
  then have n: "n \<noteq> 0" and v: "v = int ((200 * c + n) div (2 * n))"
    by (auto simp: percent_div split: if_splits)
  have "(200 * c + n) div (2 * n) \<le> (200 * n + n) div (2 * n)"
    using c by (intro div_le_mono) simp
  also have "(200 * n + n) div (2 * n) = 100"
    using n by (simp add: div_nat_eqI)
  finally show ?thesis using v by simp
qed


subsection \<open>Claims\<close>

text \<open>
  C10: a part is passed exactly when all its \<open>count\<close> questions have a result, \<open>count\<close> is
  positive, and at least three quarters of the results are correct (inclusive threshold).
\<close>

theorem passed_iff:
  "passed part res \<longleftrightarrow>
     length res = count_p part \<and> 0 < count_p part \<and> 3 * count_p part \<le> 4 * correctCount res"
  by (rule passed_iff_count)

end
