(* ===== verification/AppState.thy ===== *)
theory AppState
  imports Scorer
begin

text \<open>
  The state of the React component \<open>App\<close> of \<open>src/src/App.tsx\<close>: one field per
  \<open>useState\<close> hook, the interval held in \<open>timerRef\<close>, and the dependency list
  \<open>[mode, partIndex]\<close> that the timer effect last ran with.  The interval callback closes over
  the \<open>handleNext\<close> of the render in which the effect ran, so the armed timer records the
  values that closure reads: \<open>partIndex\<close>, \<open>qIndex\<close> and \<open>simQuestions\<close> of that render.
  \<open>fetchPending\<close> says that the one fetch of the question bank has not yet resolved.
  The user's actions, the interval's ticks and the fetch's completion are the events.
\<close>

datatype Mode = Lernmodus | Setup | Simulation | PartSummary | Result

text \<open>What the interval callback's \<open>handleNext\<close> reads, fixed when the effect ran.\<close>

record TimerClosure =
  cap_partIndex :: nat
  cap_qIndex :: nat
  cap_simQuestions :: "ExamQuestion list list"

record AppState =
  questions :: "ShuffledQuestion list"
  mode :: Mode
  examType :: string
  simQuestions :: "ExamQuestion list list"
  partIndex :: nat
  qIndex :: nat
  selected :: "string option"
  showSolution :: bool
  results :: "bool list list"
  timer :: "TimerClosure option"
  timeLeft :: nat
  lernIndex :: nat
  selectedCategory :: string
  selectedClass :: string
  selectedAnswer :: "string \<Rightarrow> string option"
  effectDeps :: "Mode \<times> nat"
  fetchPending :: bool

text \<open>
  The events: the two mode buttons, the exam-type selector, Start, an answer button,
  Aufloesen (resolve), Weiter zur Auswertung (next), Weiter (continue), one tick of the
  interval, the resolved fetch with the random answers of the shuffle, and the practice
  mode's selectors and buttons.  \<open>ClickStart\<close> carries the random comparator answers that
  \<open>startSimulation\<close> draws.
\<close>

datatype Event =
    ClickLernmodus
  | ClickPruefung
  | ChooseExamType string
  | ClickStart rnd
  | ChooseAnswer string
  | ClickResolve
  | ClickNext
  | ClickContinue
  | Tick
  | FetchDone "Section list" rnd
  | ChooseCategory string
  | ChooseClass string
  | LernAnswer string
  | LernNext

text \<open>The state after mounting: practice mode, exam type \<open>N\<close>, the fetch pending.\<close>

definition initState :: AppState where
  "initState =
     \<lparr>questions = [], mode = Lernmodus, examType = ''N'', simQuestions = [], partIndex = 0,
      qIndex = 0, selected = None, showSolution = False, results = [], timer = None,
      timeLeft = 0, lernIndex = 0, selectedCategory = [], selectedClass = [],
      selectedAnswer = Map.empty, effectDeps = (Lernmodus, 0), fetchPending = True\<rparr>"

text \<open>
  \<open>current = mode === "simulation" ? simQuestions[partIndex][qIndex] : undefined\<close>;
  \<open>None\<close> is \<open>undefined\<close>.
\<close>

definition current :: "AppState \<Rightarrow> ExamQuestion option" where
  "current s =
     (if mode s = Simulation
      then (case js_nth (simQuestions s) (partIndex s) of None \<Rightarrow> None | Some part \<Rightarrow> js_nth part (qIndex s))
      else None)"

text \<open>The exam question currently shown, for the answer buttons of the simulation card.\<close>

definition answerIds :: "ExamQuestion \<Rightarrow> string list" where
  "answerIds eq = map answer_id (answers (question eq))"

lemma current_Some_iff:
  "current s = Some eq \<longleftrightarrow>
     mode s = Simulation \<and> partIndex s < length (simQuestions s) \<and>
     qIndex s < length (simQuestions s ! partIndex s) \<and> simQuestions s ! partIndex s ! qIndex s = eq"
  by (auto simp: current_def js_simps split: option.splits)

end
