(* ===== verification/Lernmodus.thy ===== *)
theory Lernmodus
  imports AppState
begin

text \<open>
  The practice mode of \<open>src/src/App.tsx\<close>: the filter \<open>filteredQuestions\<close> (exact
  membership of the chosen category title in the category path, exact equality of the
  chosen class; an empty choice matches everything), the handler \<open>handleAnswerCheck\<close>,
  the two selectors that reset \<open>lernIndex\<close>, and the button that clears the answers and
  moves to the next question, cyclically.
\<close>

definition filteredQuestions :: "AppState \<Rightarrow> ShuffledQuestion list" where
  "filteredQuestions s =
     filter (\<lambda>q. (if selectedCategory s \<noteq> [] then selectedCategory s \<in> set (categoryPath q) else True) \<and>
                 (if selectedClass s \<noteq> [] then qclass q = selectedClass s else True))
       (questions s)"

definition handleAnswerCheck :: "ShuffledQuestion \<Rightarrow> string \<Rightarrow> AppState \<Rightarrow> AppState" where
  "handleAnswerCheck q a s = s\<lparr>selectedAnswer := (selectedAnswer s)(number q \<mapsto> a)\<rparr>"

definition chooseCategory :: "string \<Rightarrow> AppState \<Rightarrow> AppState" where
  "chooseCategory c s = s\<lparr>selectedCategory := c, lernIndex := 0\<rparr>"

definition chooseClass :: "string \<Rightarrow> AppState \<Rightarrow> AppState" where
  "chooseClass c s = s\<lparr>selectedClass := c, lernIndex := 0\<rparr>"

text \<open>\<open>setSelectedAnswer({}); setLernIndex((prev) => (prev + 1) % filteredQuestions.length)\<close>.\<close>

definition lernNext :: "AppState \<Rightarrow> AppState" where
  "lernNext s =
     s\<lparr>selectedAnswer := Map.empty, lernIndex := (lernIndex s + 1) mod length (filteredQuestions s)\<rparr>"

text \<open>The question card of the practice mode: \<open>filteredQuestions[lernIndex]\<close>.\<close>

definition lernCurrent :: "AppState \<Rightarrow> ShuffledQuestion option" where
  "lernCurrent s = js_nth (filteredQuestions s) (lernIndex s)"

text \<open>The verdict shown under the card once an answer of the current question is chosen.\<close>

definition lernVerdict :: "AppState \<Rightarrow> bool option" where
  "lernVerdict s =
     (case lernCurrent s of None \<Rightarrow> None
      | Some q \<Rightarrow> (case selectedAnswer s (number q) of None \<Rightarrow> None
                   | Some a \<Rightarrow> Some (answerCorrect a q)))"

lemma filteredQuestions_update_irrelevant [simp]:
  "filteredQuestions (s\<lparr>selectedAnswer := m\<rparr>) = filteredQuestions s"
  "filteredQuestions (s\<lparr>lernIndex := i\<rparr>) = filteredQuestions s"
  by (simp_all add: filteredQuestions_def)

lemma filteredQuestions_subset: "set (filteredQuestions s) \<subseteq> set (questions s)"
  by (auto simp: filteredQuestions_def)

end
