(* ===== verification/Simulation.thy ===== *)
theory Simulation
  imports Lernmodus
begin

text \<open>
  The exam simulation of \<open>src/src/App.tsx\<close> as a state machine.  Each handler of the
  source is one definition over \<open>AppState\<close>; one that can throw returns
  \<open>js_error + AppState\<close>.  After every event React re-renders and runs the timer effect
  when its dependencies \<open>[mode, partIndex]\<close> changed: \<open>commitEffects\<close> clears the old
  interval (the effect's cleanup) and, in simulation mode, arms a new one whose callback
  closes over the \<open>handleNext\<close> of that render.  \<open>enabled\<close> says which events the rendered
  page offers (a hidden or disabled button cannot be clicked; the interval ticks only while
  it is armed; the fetch resolves once).  \<open>app_step\<close> is one event followed by the effects,
  \<open>run\<close> a sequence of events, and \<open>reachable\<close> the states some run from \<open>initState\<close>
  produces.
\<close>

subsection \<open>Handlers\<close>

text \<open>\<open>enterSetup\<close>, the Pruefungssimulation button.\<close>

definition enterSetup :: "AppState \<Rightarrow> AppState" where
  "enterSetup s = s\<lparr>mode := Setup, results := []\<rparr>"

text \<open>The Lernmodus button: \<open>setMode("lernmodus"); setSimQuestions([])\<close>.\<close>

definition enterLernmodus :: "AppState \<Rightarrow> AppState" where
  "enterLernmodus s = s\<lparr>mode := Lernmodus, simQuestions := []\<rparr>"

text \<open>
  \<open>startSimulation\<close>: build every part of the selected scheme, reset the results, the
  indices, the selection and the solution flag, enter simulation mode and set the clock to
  the first part's duration.  A key missing from \<open>examConfig\<close> (\<open>parts.map\<close> of
  \<open>undefined\<close>) or a scheme without parts (\<open>parts[0].durationMin\<close>) throws.
\<close>

definition startSimulation :: "rnd \<Rightarrow> AppState \<Rightarrow> js_error + AppState" where
  "startSimulation bs s =
     (case examConfigOf (examType s) of
        None \<Rightarrow> Inl TypeError
      | Some parts \<Rightarrow>
          (let pools = fst (buildParts (questions s) bs parts) in
           case parts of
             [] \<Rightarrow> Inl TypeError
           | p0 # _ \<Rightarrow>
               Inr (s\<lparr>simQuestions := pools, results := map (\<lambda>_. []) pools, partIndex := 0,
                      qIndex := 0, selected := None, showSolution := False, mode := Simulation,
                      timeLeft := durationMin p0 * 60\<rparr>)))"

text \<open>
  \<open>handleResolve\<close>: without a selection (\<open>!selected\<close>: none, or the empty string) nothing
  happens; otherwise the verdict of the selected answer is appended to the current part's
  results and the solution is shown.
\<close>

definition handleResolve :: "AppState \<Rightarrow> js_error + AppState" where
  "handleResolve s =
     (case selected s of
        None \<Rightarrow> Inr s
      | Some sel \<Rightarrow>
          if sel = [] then Inr s
          else (case js_nth (simQuestions s) (partIndex s) of
                  None \<Rightarrow> Inl TypeError
                | Some part \<Rightarrow>
                    (case js_nth part (qIndex s) of
                       None \<Rightarrow> Inl TypeError
                     | Some eq \<Rightarrow>
                         (case js_nth (results s) (partIndex s) of
                            None \<Rightarrow> Inl TypeError
                          | Some r \<Rightarrow>
                              Inr (s\<lparr>results := (results s)[partIndex s := r @ [answerCorrect sel (question eq)]],
                                     showSolution := True\<rparr>)))))"

text \<open>
  \<open>handleNext\<close> as a closure: \<open>p\<close>, \<open>q\<close> and \<open>sim\<close> are the \<open>partIndex\<close>, \<open>qIndex\<close> and
  \<open>simQuestions\<close> of the render that created it; the update \<open>setQIndex((i) => i + 1)\<close>
  reads the current index.
\<close>

definition handleNext_in :: "nat \<Rightarrow> nat \<Rightarrow> ExamQuestion list list \<Rightarrow> AppState \<Rightarrow> js_error + AppState" where
  "handleNext_in p q sim s =
     (case js_nth sim p of
        None \<Rightarrow> Inl TypeError
      | Some part \<Rightarrow>
          if q + 1 < length part
          then Inr (s\<lparr>qIndex := qIndex s + 1, selected := None, showSolution := False\<rparr>)
          else Inr (s\<lparr>mode := PartSummary\<rparr>))"

text \<open>The Weiter zur Auswertung button calls the \<open>handleNext\<close> of the current render.\<close>

definition handleNext :: "AppState \<Rightarrow> js_error + AppState" where
  "handleNext s = handleNext_in (partIndex s) (qIndex s) (simQuestions s) s"

text \<open>
  \<open>handleContinue\<close>: the next part, with a fresh clock, or the result view, clearing the
  interval.
\<close>

definition handleContinue :: "AppState \<Rightarrow> js_error + AppState" where
  "handleContinue s =
     (let next = partIndex s + 1 in
      if next < length (simQuestions s)
      then (case examConfigOf (examType s) of
              None \<Rightarrow> Inl TypeError
            | Some parts \<Rightarrow>
                (case js_nth parts next of
                   None \<Rightarrow> Inl TypeError
                 | Some part \<Rightarrow>
                     Inr (s\<lparr>partIndex := next, qIndex := 0, selected := None, showSolution := False,
                            mode := Simulation, timeLeft := durationMin part * 60\<rparr>)))
      else Inr (s\<lparr>mode := Result, timer := None\<rparr>))"

text \<open>
  One tick of the interval:
  \<open>setTimeLeft((t) => (t > 1 ? t - 1 : (handleNext(), 0)))\<close>, where \<open>handleNext\<close> is the
  closure captured when the interval was armed.
\<close>

definition timerTick :: "AppState \<Rightarrow> js_error + AppState" where
  "timerTick s =
     (case timer s of
        None \<Rightarrow> Inr s
      | Some c \<Rightarrow>
          if 1 < timeLeft s then Inr (s\<lparr>timeLeft := timeLeft s - 1\<rparr>)
          else (case handleNext_in (cap_partIndex c) (cap_qIndex c) (cap_simQuestions c) s of
                  Inl e \<Rightarrow> Inl e
                | Inr s' \<Rightarrow> Inr (s'\<lparr>timeLeft := 0\<rparr>)))"

text \<open>
  The timer effect, run after the render when \<open>[mode, partIndex]\<close> changed: the cleanup of
  the previous run clears its interval; in simulation mode a new interval is armed whose
  callback closes over this render.
\<close>

definition commitEffects :: "AppState \<Rightarrow> AppState" where
  "commitEffects s =
     (if effectDeps s = (mode s, partIndex s) then s
      else if mode s = Simulation
      then s\<lparr>timer := Some \<lparr>cap_partIndex = partIndex s, cap_qIndex = qIndex s,
                              cap_simQuestions = simQuestions s\<rparr>,
             effectDeps := (mode s, partIndex s)\<rparr>
      else s\<lparr>timer := None, effectDeps := (mode s, partIndex s)\<rparr>)"

text \<open>The resolved fetch: \<open>setQuestions(extract(data.sections).map(shuffleAnswers))\<close>.\<close>

definition fetchDone :: "Section list \<Rightarrow> rnd \<Rightarrow> AppState \<Rightarrow> AppState" where
  "fetchDone secs bs s = s\<lparr>questions := loadQuestions bs secs, fetchPending := False\<rparr>"

subsection \<open>Events\<close>

text \<open>Whether the rendered page offers the event.\<close>

fun enabled :: "AppState \<Rightarrow> Event \<Rightarrow> bool" where
  "enabled s ClickLernmodus = True"
| "enabled s ClickPruefung = True"
| "enabled s (ChooseExamType k) = (mode s = Setup \<and> k \<in> set examTypes)"
| "enabled s (ClickStart bs) = (mode s = Setup)"
| "enabled s (ChooseAnswer a) =
     (case current s of None \<Rightarrow> False | Some eq \<Rightarrow> \<not> showSolution s \<and> a \<in> set (answerIds eq))"
| "enabled s ClickResolve =
     (current s \<noteq> None \<and> \<not> showSolution s \<and> (case selected s of None \<Rightarrow> False | Some a \<Rightarrow> a \<noteq> []))"
| "enabled s ClickNext = (current s \<noteq> None \<and> showSolution s)"
| "enabled s ClickContinue = (mode s = PartSummary)"
| "enabled s Tick = (timer s \<noteq> None)"
| "enabled s (FetchDone secs bs) = fetchPending s"
| "enabled s (ChooseCategory c) = (mode s = Lernmodus)"
| "enabled s (ChooseClass c) = (mode s = Lernmodus)"
| "enabled s (LernAnswer a) =
     (mode s = Lernmodus \<and>
      (case lernCurrent s of None \<Rightarrow> False | Some q \<Rightarrow> a \<in> set (map answer_id (answers q))))"
| "enabled s LernNext = (mode s = Lernmodus \<and> filteredQuestions s \<noteq> [])"

text \<open>The handler each event runs.\<close>

fun handle :: "AppState \<Rightarrow> Event \<Rightarrow> js_error + AppState" where
  "handle s ClickLernmodus = Inr (enterLernmodus s)"
| "handle s ClickPruefung = Inr (enterSetup s)"
| "handle s (ChooseExamType k) = Inr (s\<lparr>examType := k\<rparr>)"
| "handle s (ClickStart bs) = startSimulation bs s"
| "handle s (ChooseAnswer a) = Inr (s\<lparr>selected := Some a\<rparr>)"
| "handle s ClickResolve = handleResolve s"
| "handle s ClickNext = handleNext s"
| "handle s ClickContinue = handleContinue s"
| "handle s Tick = timerTick s"
| "handle s (FetchDone secs bs) = Inr (fetchDone secs bs s)"
| "handle s (ChooseCategory c) = Inr (chooseCategory c s)"
| "handle s (ChooseClass c) = Inr (chooseClass c s)"
| "handle s (LernAnswer a) =
     (case lernCurrent s of None \<Rightarrow> Inl TypeError | Some q \<Rightarrow> Inr (handleAnswerCheck q a s))"
| "handle s LernNext = Inr (lernNext s)"

text \<open>One event: a disabled one changes nothing; an enabled one runs its handler and then
  the effects.\<close>

definition app_step :: "AppState \<Rightarrow> Event \<Rightarrow> js_error + AppState" where
  "app_step s e =
     (if enabled s e
      then (case handle s e of Inl err \<Rightarrow> Inl err | Inr t \<Rightarrow> Inr (commitEffects t))
      else Inr s)"

fun run :: "AppState \<Rightarrow> Event list \<Rightarrow> js_error + AppState" where
  "run s [] = Inr s"
| "run s (e # es) = (case app_step s e of Inl err \<Rightarrow> Inl err | Inr t \<Rightarrow> run t es)"

inductive reachable :: "AppState \<Rightarrow> bool" where
  init: "reachable initState"
| step: "reachable s \<Longrightarrow> app_step s e = Inr t \<Longrightarrow> reachable t"


subsection \<open>What each handler changes\<close>
lemmas handler_defs = enterSetup_def enterLernmodus_def startSimulation_def handleResolve_def
  handleNext_def handleNext_in_def handleContinue_def timerTick_def fetchDone_def
  chooseCategory_def chooseClass_def handleAnswerCheck_def lernNext_def

lemma handle_effectDeps: "handle s e = Inr t \<Longrightarrow> effectDeps t = effectDeps s"
  by (cases e) (auto simp: handler_defs Let_def split: option.splits if_splits list.splits sum.splits)

lemma handle_timer: "handle s e = Inr t \<Longrightarrow> timer t = timer s \<or> (mode t = Result \<and> timer t = None)"
  by (cases e) (auto simp: handler_defs Let_def split: option.splits if_splits list.splits sum.splits)

lemma handle_enter_simulation:
  "enabled s e \<Longrightarrow> handle s e = Inr t \<Longrightarrow> mode t = Simulation \<Longrightarrow>
   (mode t, partIndex t) \<noteq> (mode s, partIndex s) \<Longrightarrow> qIndex t = 0"
  by (cases e) (auto simp: handler_defs Let_def split: option.splits if_splits list.splits sum.splits)

lemma handle_simQuestions:
  "enabled s e \<Longrightarrow> handle s e = Inr t \<Longrightarrow> mode s = Simulation \<Longrightarrow> mode t = Simulation \<Longrightarrow>
   simQuestions t = simQuestions s"
  by (cases e) (auto simp: handler_defs Let_def split: option.splits if_splits list.splits sum.splits)

lemma commitEffects_fields [simp]:
  "mode (commitEffects t) = mode t" "partIndex (commitEffects t) = partIndex t"
  "qIndex (commitEffects t) = qIndex t" "simQuestions (commitEffects t) = simQuestions t"
  "results (commitEffects t) = results t" "examType (commitEffects t) = examType t"
  "questions (commitEffects t) = questions t" "fetchPending (commitEffects t) = fetchPending t"
  "showSolution (commitEffects t) = showSolution t" "selected (commitEffects t) = selected t"
  "timeLeft (commitEffects t) = timeLeft t" "lernIndex (commitEffects t) = lernIndex t"
  "selectedCategory (commitEffects t) = selectedCategory t" "selectedClass (commitEffects t) = selectedClass t"
  "selectedAnswer (commitEffects t) = selectedAnswer t"
  by (simp_all add: commitEffects_def)

lemma startSimulation_eq:
  "examConfigOf (examType s) = Some (p0 # ps) \<Longrightarrow>
   startSimulation bs s =
     Inr (s\<lparr>simQuestions := fst (buildParts (questions s) bs (p0 # ps)),
            results := map (\<lambda>_. []) (fst (buildParts (questions s) bs (p0 # ps))), partIndex := 0,
            qIndex := 0, selected := None, showSolution := False, mode := Simulation,
            timeLeft := durationMin p0 * 60\<rparr>)"
  by (simp add: startSimulation_def Let_def)

lemma examType_parts:
  "examType s \<in> set examTypes \<Longrightarrow> \<exists>p0 ps. examConfigOf (examType s) = Some (p0 # ps)"
  using examConfigOf_Some_iff examConfigOf_nonempty by (metis list.exhaust)

lemma handleNext_in_Inr:
  "handleNext_in p q sim s = Inr t \<Longrightarrow>
   t = s\<lparr>qIndex := Suc (qIndex s), selected := None, showSolution := False\<rparr> \<or> t = s\<lparr>mode := PartSummary\<rparr>"
  by (auto simp: handleNext_in_def split: option.splits if_splits)

lemma timerTick_Inr:
  "timerTick s = Inr t \<Longrightarrow>
   t = s \<or> t = s\<lparr>timeLeft := timeLeft s - 1\<rparr> \<or>
   t = s\<lparr>qIndex := Suc (qIndex s), selected := None, showSolution := False, timeLeft := 0\<rparr> \<or>
   t = s\<lparr>mode := PartSummary, timeLeft := 0\<rparr>"
  by (auto simp: timerTick_def dest!: handleNext_in_Inr split: option.splits if_splits sum.splits)

lemma handleResolve_Inr:
  "handleResolve s = Inr t \<Longrightarrow>
   t = s \<or> (\<exists>r b. js_nth (results s) (partIndex s) = Some r \<and>
                t = s\<lparr>results := (results s)[partIndex s := r @ [b]], showSolution := True\<rparr>)"
  by (auto simp: handleResolve_def split: option.splits if_splits)

lemma handleContinue_Inr:
  "handleContinue s = Inr t \<Longrightarrow>
   (Suc (partIndex s) < length (simQuestions s) \<and>
    (\<exists>d. t = s\<lparr>partIndex := Suc (partIndex s), qIndex := 0, selected := None, showSolution := False,
                mode := Simulation, timeLeft := d\<rparr>)) \<or>
   t = s\<lparr>mode := Result, timer := None\<rparr>"
  by (auto simp: handleContinue_def Let_def split: option.splits if_splits)

end
