(* ===== verification/Invariants.thy ===== *)
theory Invariants
  imports Simulation
begin

text \<open>
  Invariants of the reachable states of the application, each proved for every enabled
  event by one lemma per handler and lifted to \<open>reachable\<close> by rule induction:
  \<^item> \<open>timer_inv\<close>: the effect's dependencies are up to date, an interval is armed exactly
    in simulation mode, and its closure holds the current part, the question index \<open>0\<close>
    and the current parts;
  \<^item> \<open>shape_inv\<close>: the exam type is a key of the registry, nothing is loaded while the
    fetch is pending, and in simulation, summary and result modes there is one part and
    one result list per part of the scheme, the current part being one of them;
  \<^item> \<open>progress_inv\<close>: the current part has no more results than questions reached, the
    later parts none, and no part more results than questions.
\<close>

definition timer_inv :: "AppState \<Rightarrow> bool" where
  "timer_inv s \<longleftrightarrow> effectDeps s = (mode s, partIndex s) \<and>
     (case timer s of
        None \<Rightarrow> mode s \<noteq> Simulation
      | Some c \<Rightarrow> mode s = Simulation \<and> cap_partIndex c = partIndex s \<and> cap_qIndex c = 0 \<and>
                 cap_simQuestions c = simQuestions s)"

definition shape_inv :: "AppState \<Rightarrow> bool" where
  "shape_inv s \<longleftrightarrow> examType s \<in> set examTypes \<and> (fetchPending s \<longrightarrow> questions s = []) \<and>
     (mode s \<in> {Simulation, PartSummary, Result} \<longrightarrow>
        (\<exists>parts. examConfigOf (examType s) = Some parts \<and> length (simQuestions s) = length parts) \<and>
        length (results s) = length (simQuestions s) \<and> partIndex s < length (simQuestions s))"

definition progress_inv :: "AppState \<Rightarrow> bool" where
  "progress_inv s \<longleftrightarrow>
     (mode s \<in> {Simulation, PartSummary} \<longrightarrow>
        length (results s ! partIndex s) \<le> qIndex s + (if showSolution s then 1 else 0) \<and>
        (\<forall>i. partIndex s < i \<and> i < length (results s) \<longrightarrow> results s ! i = [])) \<and>
     (mode s \<in> {Simulation, PartSummary, Result} \<longrightarrow>
        (\<forall>i < length (results s). length (results s ! i) \<le> length (simQuestions s ! i)))"

definition app_inv :: "AppState \<Rightarrow> bool" where
  "app_inv s \<longleftrightarrow> timer_inv s \<and> shape_inv s \<and> progress_inv s"

lemma timer_inv_init: "timer_inv initState"
  by (simp add: timer_inv_def initState_def)

lemma shape_inv_init: "shape_inv initState"
  by (simp add: shape_inv_def initState_def examTypes_eq)

lemma timer_inv_handle:
  assumes inv: "timer_inv s" and en: "enabled s e" and h: "handle s e = Inr t"
  shows "timer_inv (commitEffects t)"
proof (cases "(mode t, partIndex t) = (mode s, partIndex s)")
  case True
  have deps: "effectDeps t = (mode t, partIndex t)"
    using inv True handle_effectDeps[OF h] by (simp add: timer_inv_def)
  then have c: "commitEffects t = t" by (simp add: commitEffects_def)
  from handle_timer[OF h] show ?thesis
  proof
    assume tt: "timer t = timer s"
    show ?thesis
    proof (cases "timer s")
      case None
      with inv tt True deps c show ?thesis by (simp add: timer_inv_def)
    next
      case (Some cl)
      with inv have "mode s = Simulation" by (simp add: timer_inv_def)
      with True have "simQuestions t = simQuestions s"
        using handle_simQuestions[OF en h] by simp
      with Some inv tt True deps c show ?thesis by (simp add: timer_inv_def)
    qed
  next
    assume "mode t = Result \<and> timer t = None"
    with deps c show ?thesis by (simp add: timer_inv_def)
  qed
next
  case False
  have "effectDeps t = (mode s, partIndex s)"
    using inv handle_effectDeps[OF h] by (simp add: timer_inv_def)
  with False have ne: "effectDeps t \<noteq> (mode t, partIndex t)" by metis
  have "mode t = Simulation \<Longrightarrow> qIndex t = 0"
    using handle_enter_simulation[OF en h] False by blast
  with ne show ?thesis
    by (auto simp: commitEffects_def timer_inv_def)
qed

lemma shape_inv_start:
  assumes inv: "shape_inv s" and h: "startSimulation bs s = Inr t"
  shows "shape_inv t"
proof -
  have "examType s \<in> set examTypes" using inv by (simp add: shape_inv_def)
  then obtain p0 ps where cfg: "examConfigOf (examType s) = Some (p0 # ps)"
    using examType_parts by blast
  with h have t: "t = s\<lparr>simQuestions := fst (buildParts (questions s) bs (p0 # ps)),
            results := map (\<lambda>_. []) (fst (buildParts (questions s) bs (p0 # ps))), partIndex := 0,
            qIndex := 0, selected := None, showSolution := False, mode := Simulation,
            timeLeft := durationMin p0 * 60\<rparr>"
    by (simp add: startSimulation_eq)
  show ?thesis
    using inv cfg unfolding t shape_inv_def by (simp add: buildParts_length)
qed


lemma shape_inv_resolve:
  assumes inv: "shape_inv s" and h: "handleResolve s = Inr t"
  shows "shape_inv t"
  using handleResolve_Inr[OF h]
proof (elim disjE exE conjE)
  fix r b
  assume t: "t = s\<lparr>results := (results s)[partIndex s := r @ [b]], showSolution := True\<rparr>"
  show ?thesis using inv unfolding t shape_inv_def by simp
qed (use inv in simp)

lemma shape_inv_next_in:
  assumes inv: "shape_inv s" and m: "mode s = Simulation" and h: "handleNext_in p q sim s = Inr t"
  shows "shape_inv t"
  using handleNext_in_Inr[OF h]
proof
  assume t: "t = s\<lparr>qIndex := Suc (qIndex s), selected := None, showSolution := False\<rparr>"
  show ?thesis using inv unfolding t shape_inv_def by simp
next
  assume t: "t = s\<lparr>mode := PartSummary\<rparr>"
  show ?thesis using inv m unfolding t shape_inv_def by simp
qed

lemma shape_inv_tick:
  assumes inv: "shape_inv s" and m: "mode s = Simulation" and h: "timerTick s = Inr t"
  shows "shape_inv t"
  using timerTick_Inr[OF h]
proof (elim disjE)
  assume t: "t = s\<lparr>timeLeft := timeLeft s - 1\<rparr>"
  show ?thesis using inv unfolding t shape_inv_def by simp
next
  assume t: "t = s\<lparr>qIndex := Suc (qIndex s), selected := None, showSolution := False, timeLeft := 0\<rparr>"
  show ?thesis using inv unfolding t shape_inv_def by simp
next
  assume t: "t = s\<lparr>mode := PartSummary, timeLeft := 0\<rparr>"
  show ?thesis using inv m unfolding t shape_inv_def by simp
qed (use inv in simp)

lemma shape_inv_continue:
  assumes inv: "shape_inv s" and m: "mode s = PartSummary" and h: "handleContinue s = Inr t"
  shows "shape_inv t"
  using handleContinue_Inr[OF h]
proof (elim disjE exE conjE)
  fix d
  assume lt: "Suc (partIndex s) < length (simQuestions s)"
    and t: "t = s\<lparr>partIndex := Suc (partIndex s), qIndex := 0, selected := None, showSolution := False,
                mode := Simulation, timeLeft := d\<rparr>"
  show ?thesis using inv m lt unfolding t shape_inv_def by simp
next
  assume t: "t = s\<lparr>mode := Result, timer := None\<rparr>"
  show ?thesis using inv m unfolding t shape_inv_def by simp
qed

lemma shape_inv_handle:
  assumes tinv: "timer_inv s" and inv: "shape_inv s" and en: "enabled s e" and h: "handle s e = Inr t"
  shows "shape_inv t"
proof (cases e)
  case (ClickStart bs)
  with h inv show ?thesis by (simp add: shape_inv_start)
next
  case ClickContinue
  with en h inv show ?thesis by (simp add: shape_inv_continue)
next
  case ClickResolve
  with h inv show ?thesis by (simp add: shape_inv_resolve)
next
  case ClickNext
  with en have "mode s = Simulation" by (auto simp: current_def split: if_splits)
  with h ClickNext inv show ?thesis by (simp add: handleNext_def shape_inv_next_in)
next
  case Tick
  with en tinv have "mode s = Simulation" by (auto simp: timer_inv_def split: option.splits)
  with h Tick inv show ?thesis by (simp add: shape_inv_tick)
next
  case (ChooseExamType k)
  with h have t: "t = s\<lparr>examType := k\<rparr>" by simp
  show ?thesis using en inv ChooseExamType unfolding t shape_inv_def by simp
next
  case (LernAnswer a)
  with h obtain q where t: "t = handleAnswerCheck q a s" by (auto split: option.splits)
  show ?thesis using inv unfolding t shape_inv_def handleAnswerCheck_def by simp
next
  case ClickLernmodus
  with h have t: "t = enterLernmodus s" by simp
  show ?thesis using inv unfolding t shape_inv_def enterLernmodus_def by simp
next
  case ClickPruefung
  with h have t: "t = enterSetup s" by simp
  show ?thesis using inv unfolding t shape_inv_def enterSetup_def by simp
next
  case (ChooseAnswer a)
  with h have t: "t = s\<lparr>selected := Some a\<rparr>" by simp
  show ?thesis using inv unfolding t shape_inv_def  by simp
next
  case (FetchDone secs bs)
  with h have t: "t = fetchDone secs bs s" by simp
  show ?thesis using inv unfolding t shape_inv_def fetchDone_def by simp
next
  case (ChooseCategory c)
  with h have t: "t = chooseCategory c s" by simp
  show ?thesis using inv unfolding t shape_inv_def chooseCategory_def by simp
next
  case (ChooseClass c)
  with h have t: "t = chooseClass c s" by simp
  show ?thesis using inv unfolding t shape_inv_def chooseClass_def by simp
next
  case LernNext
  with h have t: "t = lernNext s" by simp
  show ?thesis using inv unfolding t shape_inv_def lernNext_def by simp
qed


lemma progress_inv_init: "progress_inv initState"
  by (simp add: progress_inv_def initState_def)

lemma progress_inv_start:
  assumes inv: "shape_inv s" and h: "startSimulation bs s = Inr t"
  shows "progress_inv t"
proof -
  have "examType s \<in> set examTypes" using inv by (simp add: shape_inv_def)
  then obtain p0 ps where cfg: "examConfigOf (examType s) = Some (p0 # ps)"
    using examType_parts by blast
  with h have t: "t = s\<lparr>simQuestions := fst (buildParts (questions s) bs (p0 # ps)),
            results := map (\<lambda>_. []) (fst (buildParts (questions s) bs (p0 # ps))), partIndex := 0,
            qIndex := 0, selected := None, showSolution := False, mode := Simulation,
            timeLeft := durationMin p0 * 60\<rparr>"
    by (simp add: startSimulation_eq)
  show ?thesis unfolding t progress_inv_def by (simp add: buildParts_length del: buildParts_Cons_eq)
qed

lemma progress_inv_resolve:
  assumes sh: "shape_inv s" and inv: "progress_inv s" and m: "mode s = Simulation"
    and ns: "\<not> showSolution s" and cur: "qIndex s < length (simQuestions s ! partIndex s)"
    and h: "handleResolve s = Inr t"
  shows "progress_inv t"
  using handleResolve_Inr[OF h]
proof (elim disjE exE conjE)
  fix r b
  assume r: "js_nth (results s) (partIndex s) = Some r"
    and t: "t = s\<lparr>results := (results s)[partIndex s := r @ [b]], showSolution := True\<rparr>"
  from r have p: "partIndex s < length (results s)" "results s ! partIndex s = r" by (simp_all add: js_simps)
  have "length r \<le> qIndex s" using inv m ns p by (simp add: progress_inv_def)
  then show ?thesis using inv m p cur unfolding t progress_inv_def by (auto simp: nth_list_update)
qed (use inv in simp)


lemma progress_inv_next_in:
  assumes inv: "progress_inv s" and m: "mode s = Simulation" and h: "handleNext_in p q sim s = Inr t"
  shows "progress_inv t"
  using handleNext_in_Inr[OF h]
proof
  assume t: "t = s\<lparr>qIndex := Suc (qIndex s), selected := None, showSolution := False\<rparr>"
  show ?thesis using inv m unfolding t progress_inv_def by (auto split: if_splits)
next
  assume t: "t = s\<lparr>mode := PartSummary\<rparr>"
  show ?thesis using inv m unfolding t progress_inv_def by simp
qed

lemma progress_inv_tick:
  assumes inv: "progress_inv s" and m: "mode s = Simulation" and h: "timerTick s = Inr t"
  shows "progress_inv t"
  using timerTick_Inr[OF h]
proof (elim disjE)
  assume t: "t = s\<lparr>timeLeft := timeLeft s - 1\<rparr>"
  show ?thesis using inv unfolding t progress_inv_def by simp
next
  assume t: "t = s\<lparr>qIndex := Suc (qIndex s), selected := None, showSolution := False, timeLeft := 0\<rparr>"
  show ?thesis using inv m unfolding t progress_inv_def by (auto split: if_splits)
next
  assume t: "t = s\<lparr>mode := PartSummary, timeLeft := 0\<rparr>"
  show ?thesis using inv m unfolding t progress_inv_def by simp
qed (use inv in simp)

lemma progress_inv_continue:
  assumes sh: "shape_inv s" and inv: "progress_inv s" and m: "mode s = PartSummary"
    and h: "handleContinue s = Inr t"
  shows "progress_inv t"
  using handleContinue_Inr[OF h]
proof (elim disjE exE conjE)
  fix d
  assume lt: "Suc (partIndex s) < length (simQuestions s)"
    and t: "t = s\<lparr>partIndex := Suc (partIndex s), qIndex := 0, selected := None, showSolution := False,
                mode := Simulation, timeLeft := d\<rparr>"
  have "length (results s) = length (simQuestions s)" using sh m by (simp add: shape_inv_def)
  then show ?thesis using inv m lt unfolding t progress_inv_def by auto
next
  assume t: "t = s\<lparr>mode := Result, timer := None\<rparr>"
  show ?thesis using inv m unfolding t progress_inv_def by simp
qed


lemma progress_inv_handle:
  assumes tinv: "timer_inv s" and sh: "shape_inv s" and inv: "progress_inv s"
    and en: "enabled s e" and h: "handle s e = Inr t"
  shows "progress_inv t"
proof (cases e)
  case (ClickStart bs)
  with h sh show ?thesis by (simp add: progress_inv_start)
next
  case ClickContinue
  with en h sh inv show ?thesis by (simp add: progress_inv_continue)
next
  case ClickResolve
  with en have "mode s = Simulation" "\<not> showSolution s" "qIndex s < length (simQuestions s ! partIndex s)"
    by (auto simp: current_Some_iff)
  with h ClickResolve sh inv show ?thesis by (simp add: progress_inv_resolve)
next
  case ClickNext
  with en have "mode s = Simulation" by (auto simp: current_def split: if_splits)
  with h ClickNext inv show ?thesis by (simp add: handleNext_def progress_inv_next_in)
next
  case Tick
  with en tinv have "mode s = Simulation" by (auto simp: timer_inv_def split: option.splits)
  with h Tick inv show ?thesis by (simp add: progress_inv_tick)
next
  case (ChooseExamType k)
  with h have t: "t = s\<lparr>examType := k\<rparr>" by simp
  show ?thesis using inv unfolding t progress_inv_def by simp
next
  case (LernAnswer a)
  with h obtain q where t: "t = handleAnswerCheck q a s" by (auto split: option.splits)
  show ?thesis using inv unfolding t progress_inv_def handleAnswerCheck_def by simp
next
  case ClickLernmodus
  with h have t: "t = enterLernmodus s" by simp
  show ?thesis using inv unfolding t progress_inv_def enterLernmodus_def by simp
next
  case ClickPruefung
  with h have t: "t = enterSetup s" by simp
  show ?thesis using inv unfolding t progress_inv_def enterSetup_def by simp
next
  case (ChooseAnswer a)
  with h have t: "t = s\<lparr>selected := Some a\<rparr>" by simp
  show ?thesis using inv unfolding t progress_inv_def by simp
next
  case (FetchDone secs bs)
  with h have t: "t = fetchDone secs bs s" by simp
  show ?thesis using inv unfolding t progress_inv_def fetchDone_def by simp
next
  case (ChooseCategory c)
  with h have t: "t = chooseCategory c s" by simp
  show ?thesis using inv unfolding t progress_inv_def chooseCategory_def by simp
next
  case (ChooseClass c)
  with h have t: "t = chooseClass c s" by simp
  show ?thesis using inv unfolding t progress_inv_def chooseClass_def by simp
next
  case LernNext
  with h have t: "t = lernNext s" by simp
  show ?thesis using inv unfolding t progress_inv_def lernNext_def by simp
qed

lemma progress_inv_commit [simp]: "progress_inv (commitEffects t) = progress_inv t"
  by (simp add: progress_inv_def)

lemma shape_inv_commit [simp]: "shape_inv (commitEffects t) = shape_inv t"
  by (simp add: shape_inv_def)

lemma app_step_cases:
  assumes "app_step s e = Inr t"
  obtains (disabled) "\<not> enabled s e" "t = s"
    | (handled) u where "enabled s e" "handle s e = Inr u" "t = commitEffects u"
  using assms by (auto simp: app_step_def split: if_splits sum.splits)

lemma app_inv_step: "app_inv s \<Longrightarrow> app_step s e = Inr t \<Longrightarrow> app_inv t"
  unfolding app_inv_def app_step_def
  by (auto split: if_splits sum.splits intro: timer_inv_handle shape_inv_handle progress_inv_handle)

lemma reachable_app_inv: "reachable s \<Longrightarrow> app_inv s"
proof (induction rule: reachable.induct)
  case init
  show ?case by (simp add: app_inv_def timer_inv_init shape_inv_init progress_inv_init)
next
  case (step s e t)
  from step.IH step.hyps(2) show ?case by (rule app_inv_step)
qed

end
