(* ===== verification/Behaviour.thy ===== *)
theory Behaviour
  imports Invariants
begin

text \<open>
  Behaviour of the simulation derived from the invariants: what one tick of the interval
  does before and after the part's time has run out, what a run of ticks does, and that no
  event the page offers throws in a reachable state.  The interval's callback closes over
  the \<open>handleNext\<close> of the render in which the timer effect ran, where \<open>qIndex\<close> was
  \<open>0\<close>; so once the clock is at zero every tick takes the branch for "not the last
  question", moves one question on, and the interval is never cleared.
\<close>

lemma app_inv_timer:
  "app_inv s \<Longrightarrow> mode s = Simulation \<Longrightarrow>
   timer s = Some \<lparr>cap_partIndex = partIndex s, cap_qIndex = 0, cap_simQuestions = simQuestions s\<rparr>"
  by (auto simp: app_inv_def timer_inv_def split: option.splits)

lemma app_inv_deps: "app_inv s \<Longrightarrow> effectDeps s = (mode s, partIndex s)"
  by (simp add: app_inv_def timer_inv_def)

lemma app_inv_part: "app_inv s \<Longrightarrow> mode s = Simulation \<Longrightarrow> partIndex s < length (simQuestions s)"
  by (simp add: app_inv_def shape_inv_def)

lemma commitEffects_same: "effectDeps t = (mode t, partIndex t) \<Longrightarrow> commitEffects t = t"
  by (simp add: commitEffects_def)

lemma app_inv_timeLeft [simp]: "app_inv (s\<lparr>timeLeft := n\<rparr>) = app_inv s"
  by (simp add: app_inv_def timer_inv_def shape_inv_def progress_inv_def split: option.splits)

lemma tick_countdown:
  assumes inv: "app_inv s" and m: "mode s = Simulation" and t: "1 < timeLeft s"
  shows "app_step s Tick = Inr (s\<lparr>timeLeft := timeLeft s - 1\<rparr>)"
proof -
  have tm: "timer s = Some \<lparr>cap_partIndex = partIndex s, cap_qIndex = 0, cap_simQuestions = simQuestions s\<rparr>"
    using inv m by (rule app_inv_timer)
  have "effectDeps s = (mode s, partIndex s)" using inv by (rule app_inv_deps)
  with tm t show ?thesis by (simp add: app_step_def timerTick_def commitEffects_same)
qed

lemma tick_expired:
  assumes inv: "app_inv s" and m: "mode s = Simulation" and t: "timeLeft s \<le> 1"
    and len: "1 < length (simQuestions s ! partIndex s)"
  shows "app_step s Tick =
           Inr (s\<lparr>qIndex := Suc (qIndex s), selected := None, showSolution := False, timeLeft := 0\<rparr>)"
proof -
  have tm: "timer s = Some \<lparr>cap_partIndex = partIndex s, cap_qIndex = 0, cap_simQuestions = simQuestions s\<rparr>"
    using inv m by (rule app_inv_timer)
  have d: "effectDeps s = (mode s, partIndex s)" using inv by (rule app_inv_deps)
  have p: "partIndex s < length (simQuestions s)" using inv m by (rule app_inv_part)
  from tm t len p d show ?thesis
    by (simp add: app_step_def timerTick_def handleNext_in_def js_nth_def commitEffects_same)
qed

lemma tick_summary:
  assumes inv: "app_inv s" and m: "mode s = Simulation" and t: "timeLeft s \<le> 1"
    and len: "length (simQuestions s ! partIndex s) \<le> 1"
  shows "app_step s Tick = Inr (commitEffects (s\<lparr>mode := PartSummary, timeLeft := 0\<rparr>))"
proof -
  have tm: "timer s = Some \<lparr>cap_partIndex = partIndex s, cap_qIndex = 0, cap_simQuestions = simQuestions s\<rparr>"
    using inv m by (rule app_inv_timer)
  have p: "partIndex s < length (simQuestions s)" using inv m by (rule app_inv_part)
  from tm t len p show ?thesis
    by (simp add: app_step_def timerTick_def handleNext_in_def js_nth_def)
qed

lemma run_append: "run s (es @ fs) = (case run s es of Inl e \<Rightarrow> Inl e | Inr t \<Rightarrow> run t fs)"
  by (induction s es rule: run.induct) (auto split: sum.splits)

lemma ticks_countdown:
  "app_inv s \<Longrightarrow> mode s = Simulation \<Longrightarrow> k < timeLeft s \<Longrightarrow>
   run s (replicate k Tick) = Inr (s\<lparr>timeLeft := timeLeft s - k\<rparr>)"
proof (induction k arbitrary: s)
  case 0
  then show ?case by simp
next
  case (Suc k)
  let ?s' = "s\<lparr>timeLeft := timeLeft s - 1\<rparr>"
  have step: "app_step s Tick = Inr ?s'" using Suc.prems by (simp add: tick_countdown)
  have "app_inv ?s'" using app_inv_step[OF Suc.prems(1) step] .
  then have "run ?s' (replicate k Tick) = Inr (?s'\<lparr>timeLeft := timeLeft ?s' - k\<rparr>)"
    using Suc.prems by (intro Suc.IH) simp_all
  with step show ?case by simp
qed

lemma ticks_overrun:
  "app_inv s \<Longrightarrow> mode s = Simulation \<Longrightarrow> timeLeft s \<le> 1 \<Longrightarrow>
   1 < length (simQuestions s ! partIndex s) \<Longrightarrow>
   run s (replicate (Suc k) Tick) =
     Inr (s\<lparr>qIndex := qIndex s + Suc k, selected := None, showSolution := False, timeLeft := 0\<rparr>)"
proof (induction k arbitrary: s)
  case 0
  then show ?case by (simp add: tick_expired)
next
  case (Suc k)
  let ?s' = "s\<lparr>qIndex := Suc (qIndex s), selected := None, showSolution := False, timeLeft := 0\<rparr>"
  have step: "app_step s Tick = Inr ?s'" using Suc.prems by (simp add: tick_expired)
  have "app_inv ?s'" using app_inv_step[OF Suc.prems(1) step] .
  then have "run ?s' (replicate (Suc k) Tick) =
      Inr (?s'\<lparr>qIndex := qIndex ?s' + Suc k, selected := None, showSolution := False, timeLeft := 0\<rparr>)"
    using Suc.prems by (intro Suc.IH) simp_all
  with step show ?case by simp
qed

text \<open>
  C1: once the time of a part with at least two questions has run out, the interval keeps
  firing: after \<open>timeLeft + k\<close> ticks without user action the question index has moved
  \<open>k + 1\<close> questions on, past the end of the part when \<open>k\<close> is large, the mode is still
  the simulation, nothing is recorded, and the part summary is never reached.  The spec
  requires the expiry to fire once and then end the part's clock.
\<close>

theorem timer_expiry_runs_past_part:
  assumes "reachable s" "mode s = Simulation" "0 < timeLeft s"
    "1 < length (simQuestions s ! partIndex s)"
  shows "run s (replicate (timeLeft s + k) Tick) =
           Inr (s\<lparr>qIndex := qIndex s + Suc k, selected := None, showSolution := False, timeLeft := 0\<rparr>)"
proof -
  have inv: "app_inv s" using assms(1) by (rule reachable_app_inv)
  let ?s1 = "s\<lparr>timeLeft := 1\<rparr>"
  have r1: "run s (replicate (timeLeft s - 1) Tick) = Inr ?s1"
    using ticks_countdown[OF inv assms(2), of "timeLeft s - 1"] assms(3) by simp
  have "app_inv ?s1" using inv by simp
  then have r2: "run ?s1 (replicate (Suc k) Tick) =
      Inr (?s1\<lparr>qIndex := qIndex ?s1 + Suc k, selected := None, showSolution := False, timeLeft := 0\<rparr>)"
    using assms by (intro ticks_overrun) simp_all
  have "replicate (timeLeft s + k) Tick = replicate (timeLeft s - 1) Tick @ replicate (Suc k) Tick"
    using assms(3) replicate_add[of "timeLeft s - 1" "Suc k" Tick] by simp
  with r1 r2 show ?thesis by (simp add: run_append)
qed

lemma app_step_ok: "enabled s e \<Longrightarrow> handle s e = Inr t \<Longrightarrow> app_step s e = Inr (commitEffects t)"
  by (simp add: app_step_def)

lemma handle_ok:
  assumes inv: "app_inv s" and en: "enabled s e"
  shows "\<exists>t. handle s e = Inr t"
proof (cases e)
  case (ClickStart bs)
  have "examType s \<in> set examTypes" using inv by (simp add: app_inv_def shape_inv_def)
  then obtain p0 ps where "examConfigOf (examType s) = Some (p0 # ps)"
    using examType_parts by blast
  with ClickStart show ?thesis by (simp add: startSimulation_eq)
next
  case ClickResolve
  with en obtain eq a where cur: "current s = Some eq" and sel: "selected s = Some a" "a \<noteq> []"
    by (auto split: option.splits)
  from cur have m: "mode s = Simulation" and p: "partIndex s < length (simQuestions s)"
    and q: "qIndex s < length (simQuestions s ! partIndex s)"
    by (simp_all add: current_Some_iff)
  have "length (results s) = length (simQuestions s)"
    using inv m by (simp add: app_inv_def shape_inv_def)
  with ClickResolve sel p q show ?thesis
    by (simp add: handleResolve_def js_nth_def)
next
  case ClickNext
  with en have "partIndex s < length (simQuestions s)"
    by (auto simp: current_def js_simps split: if_splits option.splits)
  with ClickNext show ?thesis
    by (auto simp: handleNext_def handleNext_in_def js_nth_def)
next
  case ClickContinue
  with en have m: "mode s = PartSummary" by simp
  with inv obtain parts where "examConfigOf (examType s) = Some parts"
    "length (simQuestions s) = length parts"
    by (auto simp: app_inv_def shape_inv_def)
  with ClickContinue show ?thesis
    by (auto simp: handleContinue_def js_nth_def Let_def)
next
  case Tick
  with en inv have m: "mode s = Simulation"
    by (auto simp: app_inv_def timer_inv_def split: option.splits)
  have tm: "timer s = Some \<lparr>cap_partIndex = partIndex s, cap_qIndex = 0, cap_simQuestions = simQuestions s\<rparr>"
    using inv m by (rule app_inv_timer)
  have "partIndex s < length (simQuestions s)" using inv m by (rule app_inv_part)
  with Tick tm show ?thesis
    by (auto simp: timerTick_def handleNext_in_def js_nth_def)
next
  case (LernAnswer a)
  with en show ?thesis by (auto split: option.splits)
qed simp_all

text \<open>
  C3: in every reachable state, every event the page offers runs without a \<open>TypeError\<close>:
  no array read of a handler or of the interval callback is out of range.
\<close>

theorem enabled_events_never_throw:
  "reachable s \<Longrightarrow> enabled s e \<Longrightarrow> \<exists>t. app_step s e = Inr t"
  using handle_ok[OF reachable_app_inv] app_step_ok by blast


lemma run_reachable: "reachable s \<Longrightarrow> run s es = Inr t \<Longrightarrow> reachable t"
proof (induction es arbitrary: s)
  case Nil
  then show ?case by simp
next
  case (Cons e es)
  then obtain u where u: "app_step s e = Inr u" and r: "run u es = Inr t"
    by (auto split: sum.splits)
  from Cons.prems(1) u have "reachable u" by (rule reachable.step)
  from this r show ?case by (rule Cons.IH)
qed

text \<open>
  C2: one interval at a time, tied to the simulation of the current part: in every
  reachable state an interval is armed exactly when the mode is the simulation, and the
  armed interval's callback belongs to the current part and the current set of parts.
\<close>

theorem timer_armed_iff_simulation:
  "reachable s \<Longrightarrow>
   (timer s \<noteq> None \<longleftrightarrow> mode s = Simulation) \<and>
   (\<forall>c. timer s = Some c \<longrightarrow> cap_partIndex c = partIndex s \<and> cap_simQuestions c = simQuestions s)"
  by (auto simp: app_inv_def timer_inv_def dest!: reachable_app_inv split: option.splits)

lemma ticks_to_summary:
  assumes inv: "app_inv s" and m: "mode s = Simulation" and len: "length (simQuestions s ! partIndex s) \<le> 1"
  shows "run s (replicate (max 1 (timeLeft s)) Tick) =
           Inr (s\<lparr>mode := PartSummary, timeLeft := 0, timer := None, effectDeps := (PartSummary, partIndex s)\<rparr>)"
proof -
  let ?s1 = "s\<lparr>timeLeft := min 1 (timeLeft s)\<rparr>"
  have r1: "run s (replicate (timeLeft s - 1) Tick) = Inr ?s1"
  proof (cases "timeLeft s")
    case 0
    then show ?thesis by simp
  next
    case (Suc n)
    then show ?thesis using ticks_countdown[OF inv m, of n] by simp
  qed
  have inv1: "app_inv ?s1" using inv by simp
  have "app_step ?s1 Tick = Inr (commitEffects (?s1\<lparr>mode := PartSummary, timeLeft := 0\<rparr>))"
    using tick_summary[OF inv1] m len by simp
  moreover have "commitEffects (?s1\<lparr>mode := PartSummary, timeLeft := 0\<rparr>) =
      s\<lparr>mode := PartSummary, timeLeft := 0, timer := None, effectDeps := (PartSummary, partIndex s)\<rparr>"
    using app_inv_deps[OF inv] m by (simp add: commitEffects_def)
  ultimately have r2: "run ?s1 [Tick] =
      Inr (s\<lparr>mode := PartSummary, timeLeft := 0, timer := None, effectDeps := (PartSummary, partIndex s)\<rparr>)"
    by simp
  have "replicate (max 1 (timeLeft s)) Tick = replicate (timeLeft s - 1) Tick @ [Tick]"
    by (cases "timeLeft s") (simp_all add: replicate_append_same)
  with r1 r2 show ?thesis by (simp add: run_append)
qed

text \<open>
  C30: a part of at most one question, the empty part included, is always ended by the
  clock: from any reachable state of its simulation, \<open>timeLeft\<close> ticks (at least one) show
  the part summary, and the effect clears the interval.
\<close>

theorem short_part_ends_by_clock:
  assumes "reachable s" "mode s = Simulation" "length (simQuestions s ! partIndex s) \<le> 1"
  shows "run s (replicate (max 1 (timeLeft s)) Tick) =
           Inr (s\<lparr>mode := PartSummary, timeLeft := 0, timer := None, effectDeps := (PartSummary, partIndex s)\<rparr>)"
  using reachable_app_inv[OF assms(1)] assms(2,3) by (rule ticks_to_summary)

subsection \<open>The question bank is read once\<close>

lemma step_bank:
  assumes "app_step s e = Inr t"
  shows "questions t = questions s \<and> fetchPending t = fetchPending s \<or>
         (\<exists>secs bs. e = FetchDone secs bs \<and> fetchPending s \<and> \<not> fetchPending t \<and>
                    questions t = loadQuestions bs secs)"
  using assms
proof (cases rule: app_step_cases)
  case (handled u)
  then show ?thesis
    by (cases e) (auto simp: handler_defs Let_def split: option.splits if_splits list.splits sum.splits)
qed simp

text \<open>
  C20: the question bank is read once.  Along any run of events the bank and the pending
  flag of the fetch either stay as they were, or the fetch was pending at the start, is
  resolved at the end, and the bank is the loading of the document of a \<open>FetchDone\<close> of
  the run: no event replaces a bank once it is loaded.
\<close>

theorem bank_read_once:
  assumes "run s es = Inr t"
  shows "questions t = questions s \<and> fetchPending t = fetchPending s \<or>
         fetchPending s \<and> \<not> fetchPending t \<and>
         (\<exists>secs bs. FetchDone secs bs \<in> set es \<and> questions t = loadQuestions bs secs)"
  using assms
proof (induction es arbitrary: s)
  case Nil
  then show ?case by simp
next
  case (Cons e es)
  then obtain u where u: "app_step s e = Inr u" and r: "run u es = Inr t"
    by (auto split: sum.splits)
  from step_bank[OF u] show ?case
  proof
    assume "questions u = questions s \<and> fetchPending u = fetchPending s"
    with Cons.IH[OF r] show ?thesis by auto
  next
    assume "\<exists>secs bs. e = FetchDone secs bs \<and> fetchPending s \<and> \<not> fetchPending u \<and>
                      questions u = loadQuestions bs secs"
    then obtain secs bs where e: "e = FetchDone secs bs" and f: "fetchPending s" "\<not> fetchPending u"
      and q: "questions u = loadQuestions bs secs" by blast
    from Cons.IH[OF r] f(2) have "questions t = questions u \<and> \<not> fetchPending t" by auto
    with e f q show ?thesis by auto
  qed
qed

end
