(* ===== verification/Walkthrough.thy ===== *)
theory Walkthrough
  imports Behaviour
begin

text \<open>
  The user's path through one part of the simulation: for each question, choose an answer
  (\<open>setSelected\<close>), press Aufloesen (\<open>handleResolve\<close>) and then Weiter zur Auswertung
  (\<open>handleNext\<close>).  The lemmas compute the state after each of these clicks in a state of
  the invariant, and by induction over the answers the state after the whole part.
\<close>

definition answerEvents :: "string list \<Rightarrow> Event list" where
  "answerEvents as = concat (map (\<lambda>a. [ChooseAnswer a, ClickResolve, ClickNext]) as)"

lemma answerEvents_simps [simp]:
  "answerEvents [] = []"
  "answerEvents (a # as) = [ChooseAnswer a, ClickResolve, ClickNext] @ answerEvents as"
  by (simp_all add: answerEvents_def)

lemma current_update [simp]:
  "current (s\<lparr>selected := x\<rparr>) = current s" "current (s\<lparr>results := r\<rparr>) = current s"
  "current (s\<lparr>showSolution := b\<rparr>) = current s" "current (s\<lparr>timeLeft := n\<rparr>) = current s"
  by (simp_all add: current_def cong: option.case_cong)

lemma step_choose:
  assumes inv: "app_inv s" and cur: "current s = Some eq" and ns: "\<not> showSolution s"
    and a: "a \<in> set (answerIds eq)"
  shows "app_step s (ChooseAnswer a) = Inr (s\<lparr>selected := Some a\<rparr>)"
  using cur ns a app_inv_deps[OF inv] by (simp add: app_step_def commitEffects_def)

lemma step_resolve:
  assumes inv: "app_inv s" and cur: "current s = Some eq" and ns: "\<not> showSolution s"
    and sel: "selected s = Some a" and a: "a \<noteq> []"
  shows "app_step s ClickResolve =
    Inr (s\<lparr>results := (results s)[partIndex s := results s ! partIndex s @ [answerCorrect a (question eq)]],
           showSolution := True\<rparr>)"
proof -
  from cur have m: "mode s = Simulation" and p: "partIndex s < length (simQuestions s)"
    and q: "qIndex s < length (simQuestions s ! partIndex s)"
    and e: "simQuestions s ! partIndex s ! qIndex s = eq"
    by (simp_all add: current_Some_iff)
  have "length (results s) = length (simQuestions s)"
    using inv m by (simp add: app_inv_def shape_inv_def)
  with cur ns sel a p q e app_inv_deps[OF inv] show ?thesis
    by (simp add: app_step_def handleResolve_def js_nth_def commitEffects_def)
qed

lemma step_next_mid:
  assumes inv: "app_inv s" and cur: "current s = Some eq" and sh: "showSolution s"
    and q: "Suc (qIndex s) < length (simQuestions s ! partIndex s)"
  shows "app_step s ClickNext = Inr (s\<lparr>qIndex := Suc (qIndex s), selected := None, showSolution := False\<rparr>)"
proof -
  from cur have p: "partIndex s < length (simQuestions s)" by (simp add: current_Some_iff)
  with cur sh q app_inv_deps[OF inv] show ?thesis
    by (simp add: app_step_def handleNext_def handleNext_in_def js_nth_def commitEffects_def)
qed

lemma step_next_last:
  assumes inv: "app_inv s" and cur: "current s = Some eq" and sh: "showSolution s"
    and q: "Suc (qIndex s) = length (simQuestions s ! partIndex s)"
  shows "app_step s ClickNext =
    Inr (s\<lparr>mode := PartSummary, timer := None, effectDeps := (PartSummary, partIndex s)\<rparr>)"
proof -
  from cur have p: "partIndex s < length (simQuestions s)" and m: "mode s = Simulation"
    by (simp_all add: current_Some_iff)
  with cur sh q app_inv_deps[OF inv] show ?thesis
    by (simp add: app_step_def handleNext_def handleNext_in_def js_nth_def commitEffects_def)
qed

lemma run_app_inv: "app_inv s \<Longrightarrow> run s es = Inr t \<Longrightarrow> app_inv t"
proof (induction es arbitrary: s)
  case Nil
  then show ?case by simp
next
  case (Cons e es)
  then obtain u where u: "app_step s e = Inr u" and r: "run u es = Inr t"
    by (auto split: sum.splits)
  from Cons.prems(1) u have "app_inv u" by (rule app_inv_step)
  from this r show ?case by (rule Cons.IH)
qed

lemma answer_question:
  assumes inv: "app_inv s" and cur: "current s = Some eq" and ns: "\<not> showSolution s"
    and a: "a \<in> set (answerIds eq)" "a \<noteq> []"
  shows "run s [ChooseAnswer a, ClickResolve] =
    Inr (s\<lparr>selected := Some a,
           results := (results s)[partIndex s := results s ! partIndex s @ [answerCorrect a (question eq)]],
           showSolution := True\<rparr>)"
proof -
  let ?s1 = "s\<lparr>selected := Some a\<rparr>"
  have st1: "app_step s (ChooseAnswer a) = Inr ?s1" using inv cur ns a(1) by (rule step_choose)
  have inv1: "app_inv ?s1" using app_inv_step[OF inv st1] .
  have cur1: "current ?s1 = Some eq" using cur by simp
  have "app_step ?s1 ClickResolve =
     Inr (?s1\<lparr>results := (results ?s1)[partIndex ?s1 := results ?s1 ! partIndex ?s1 @ [answerCorrect a (question eq)]],
             showSolution := True\<rparr>)"
    using inv1 cur1 _ _ a(2) by (rule step_resolve) (use ns in simp_all)
  with st1 show ?thesis by simp
qed

lemma answer_mid:
  assumes inv: "app_inv s" and cur: "current s = Some eq" and ns: "\<not> showSolution s"
    and a: "a \<in> set (answerIds eq)" "a \<noteq> []"
    and q: "Suc (qIndex s) < length (simQuestions s ! partIndex s)"
  shows "run s [ChooseAnswer a, ClickResolve, ClickNext] =
    Inr (s\<lparr>results := (results s)[partIndex s := results s ! partIndex s @ [answerCorrect a (question eq)]],
           qIndex := Suc (qIndex s), selected := None, showSolution := False\<rparr>)"
proof -
  let ?s2 = "s\<lparr>selected := Some a,
           results := (results s)[partIndex s := results s ! partIndex s @ [answerCorrect a (question eq)]],
           showSolution := True\<rparr>"
  have r2: "run s [ChooseAnswer a, ClickResolve] = Inr ?s2" using inv cur ns a by (rule answer_question)
  have inv2: "app_inv ?s2" using run_app_inv[OF inv r2] .
  have cur2: "current ?s2 = Some eq" using cur by simp
  have "app_step ?s2 ClickNext = Inr (?s2\<lparr>qIndex := Suc (qIndex ?s2), selected := None, showSolution := False\<rparr>)"
    using inv2 cur2 _ _ by (rule step_next_mid) (use q in simp_all)
  with r2 run_append[of s "[ChooseAnswer a, ClickResolve]" "[ClickNext]"] show ?thesis by simp
qed

lemma answer_last:
  assumes inv: "app_inv s" and cur: "current s = Some eq" and ns: "\<not> showSolution s"
    and a: "a \<in> set (answerIds eq)" "a \<noteq> []"
    and q: "Suc (qIndex s) = length (simQuestions s ! partIndex s)"
  shows "run s [ChooseAnswer a, ClickResolve, ClickNext] =
    Inr (s\<lparr>results := (results s)[partIndex s := results s ! partIndex s @ [answerCorrect a (question eq)]],
           selected := Some a, showSolution := True, mode := PartSummary, timer := None,
           effectDeps := (PartSummary, partIndex s)\<rparr>)"
proof -
  let ?s2 = "s\<lparr>selected := Some a,
           results := (results s)[partIndex s := results s ! partIndex s @ [answerCorrect a (question eq)]],
           showSolution := True\<rparr>"
  have r2: "run s [ChooseAnswer a, ClickResolve] = Inr ?s2" using inv cur ns a by (rule answer_question)
  have inv2: "app_inv ?s2" using run_app_inv[OF inv r2] .
  have cur2: "current ?s2 = Some eq" using cur by simp
  have "app_step ?s2 ClickNext =
      Inr (?s2\<lparr>mode := PartSummary, timer := None, effectDeps := (PartSummary, partIndex ?s2)\<rparr>)"
    using inv2 cur2 _ _ by (rule step_next_last) (use q in simp_all)
  with r2 run_append[of s "[ChooseAnswer a, ClickResolve]" "[ClickNext]"] show ?thesis by simp
qed

lemma answer_rest:
  assumes "app_inv s" "mode s = Simulation" "\<not> showSolution s"
    "qIndex s + length as = length (simQuestions s ! partIndex s)" "as \<noteq> []"
    "list_all2 (\<lambda>a eq. a \<noteq> [] \<and> a \<in> set (answerIds eq)) as (drop (qIndex s) (simQuestions s ! partIndex s))"
  shows "run s (answerEvents as) =
    Inr (s\<lparr>results := (results s)[partIndex s := results s ! partIndex s @
              map2 (\<lambda>a eq. answerCorrect a (question eq)) as (drop (qIndex s) (simQuestions s ! partIndex s))],
           qIndex := qIndex s + length as - 1, selected := Some (last as), showSolution := True,
           mode := PartSummary, timer := None, effectDeps := (PartSummary, partIndex s)\<rparr>)"
  using assms
proof (induction as arbitrary: s)
  case Nil
  then show ?case by simp
next
  case (Cons a as)
  let ?part = "simQuestions s ! partIndex s"
  let ?eq = "?part ! qIndex s"
  have p: "partIndex s < length (simQuestions s)" using app_inv_part[OF Cons.prems(1,2)] .
  have q: "qIndex s < length ?part" using Cons.prems(4) by simp
  have cur: "current s = Some ?eq" using Cons.prems(2) p q by (simp add: current_Some_iff)
  have drop: "drop (qIndex s) ?part = ?eq # drop (Suc (qIndex s)) ?part"
    using q by (simp add: Cons_nth_drop_Suc)
  from Cons.prems(6) drop have a: "a \<noteq> []" "a \<in> set (answerIds ?eq)"
    and rest: "list_all2 (\<lambda>a eq. a \<noteq> [] \<and> a \<in> set (answerIds eq)) as (drop (Suc (qIndex s)) ?part)"
    by simp_all
  have lenr: "partIndex s < length (results s)"
    using Cons.prems(1,2) p by (simp add: app_inv_def shape_inv_def)
  show ?case
  proof (cases "as = []")
    case True
    then have "Suc (qIndex s) = length ?part" using Cons.prems(4) by simp
    with answer_last[OF Cons.prems(1) cur Cons.prems(3) a(2,1)] True drop show ?thesis by simp
  next
    case False
    let ?s' = "s\<lparr>results := (results s)[partIndex s := results s ! partIndex s @ [answerCorrect a (question ?eq)]],
                 qIndex := Suc (qIndex s), selected := None, showSolution := False\<rparr>"
    have "Suc (qIndex s) < length ?part" using Cons.prems(4) False by (cases as) simp_all
    then have r1: "run s [ChooseAnswer a, ClickResolve, ClickNext] = Inr ?s'"
      using answer_mid[OF Cons.prems(1) cur Cons.prems(3) a(2,1)] by simp
    have inv': "app_inv ?s'" using run_app_inv[OF Cons.prems(1) r1] .
    have IH: "run ?s' (answerEvents as) =
      Inr (?s'\<lparr>results := (results ?s')[partIndex ?s' := results ?s' ! partIndex ?s' @
              map2 (\<lambda>a eq. answerCorrect a (question eq)) as (drop (qIndex ?s') (simQuestions ?s' ! partIndex ?s'))],
           qIndex := qIndex ?s' + length as - 1, selected := Some (last as), showSolution := True,
           mode := PartSummary, timer := None, effectDeps := (PartSummary, partIndex ?s')\<rparr>)"
      using inv' Cons.prems(2,4) False rest by (intro Cons.IH) simp_all
    show ?thesis
      using r1 IH run_append[of s "[ChooseAnswer a, ClickResolve, ClickNext]" "answerEvents as"]
        drop lenr False
      by simp
  qed
qed

lemma part_start_results:
  assumes "app_inv s" "mode s = Simulation" "qIndex s = 0" "\<not> showSolution s"
  shows "results s ! partIndex s = []"
  using assms by (simp add: app_inv_def progress_inv_def)

lemma answer_part_run:
  assumes "reachable s" "mode s = Simulation" "qIndex s = 0" "\<not> showSolution s" "as \<noteq> []"
    "list_all2 (\<lambda>a eq. a \<noteq> [] \<and> a \<in> set (answerIds eq)) as (simQuestions s ! partIndex s)"
  shows "run s (answerEvents as) =
    Inr (s\<lparr>results := (results s)[partIndex s :=
              map2 (\<lambda>a eq. answerCorrect a (question eq)) as (simQuestions s ! partIndex s)],
           qIndex := length as - 1, selected := Some (last as), showSolution := True,
           mode := PartSummary, timer := None, effectDeps := (PartSummary, partIndex s)\<rparr>)"
proof -
  have inv: "app_inv s" using assms(1) by (rule reachable_app_inv)
  have r0: "results s ! partIndex s = []" using inv assms(2-4) by (rule part_start_results)
  have len: "length as = length (simQuestions s ! partIndex s)"
    using assms(6) by (rule list_all2_lengthD)
  show ?thesis
    using answer_rest[of s as] inv assms(2-6) len r0 by simp
qed


text \<open>
  C21: answering a whole part works as the spec's transitions say: from the first question
  of a part, choosing an offered answer, resolving and pressing Weiter for every question
  appends one verdict per question, in order, to that part's results and to no other part's;
  the last Weiter shows the part summary and the effect's cleanup clears the interval.
\<close>

theorem answer_whole_part:
  assumes "reachable s" "mode s = Simulation" "qIndex s = 0" "\<not> showSolution s" "as \<noteq> []"
    "list_all2 (\<lambda>a eq. a \<noteq> [] \<and> a \<in> set (answerIds eq)) as (simQuestions s ! partIndex s)"
  shows "run s (answerEvents as) =
    Inr (s\<lparr>results := (results s)[partIndex s :=
              map2 (\<lambda>a eq. answerCorrect a (question eq)) as (simQuestions s ! partIndex s)],
           qIndex := length as - 1, selected := Some (last as), showSolution := True,
           mode := PartSummary, timer := None, effectDeps := (PartSummary, partIndex s)\<rparr>)"
  using assms by (rule answer_part_run)

end
