(* ===== verification/LernSafety.thy ===== *)
theory LernSafety
  imports Invariants
begin

text \<open>
  Render safety of the practice mode: the card reads \<open>filteredQuestions[lernIndex]\<close>
  whenever the filter leaves a question (lines 626-628).  The invariant \<open>lern_inv\<close> says
  the index is \<open>0\<close> or in range; the selectors reset it, the next button wraps it modulo
  the length, the single fetch happens while the bank and hence the filter are empty, and
  no other handler touches the bank, the filter or the index.
\<close>

definition lern_inv :: "AppState \<Rightarrow> bool" where
  "lern_inv s \<longleftrightarrow> lernIndex s = 0 \<or> lernIndex s < length (filteredQuestions s)"

lemma filteredQuestions_cong:
  "questions t = questions s \<Longrightarrow> selectedCategory t = selectedCategory s \<Longrightarrow>
   selectedClass t = selectedClass s \<Longrightarrow> filteredQuestions t = filteredQuestions s"
  by (simp add: filteredQuestions_def)

lemma handle_keeps_practice:
  "handle s e = Inr t \<Longrightarrow>
   (case e of ChooseCategory c \<Rightarrow> False | ChooseClass c \<Rightarrow> False | LernNext \<Rightarrow> False
    | FetchDone secs bs \<Rightarrow> False | _ \<Rightarrow> True) \<Longrightarrow>
   questions t = questions s \<and> selectedCategory t = selectedCategory s \<and>
   selectedClass t = selectedClass s \<and> lernIndex t = lernIndex s"
  by (cases e) (auto simp: handler_defs Let_def split: option.splits if_splits list.splits sum.splits)

lemma lern_inv_keep:
  assumes "lern_inv s" "questions t = questions s" "selectedCategory t = selectedCategory s"
    "selectedClass t = selectedClass s" "lernIndex t = lernIndex s"
  shows "lern_inv t"
proof -
  have "filteredQuestions t = filteredQuestions s" using assms(2-4) by (rule filteredQuestions_cong)
  with assms(1,5) show ?thesis by (simp add: lern_inv_def)
qed

lemma lern_inv_commit [simp]: "lern_inv (commitEffects t) = lern_inv t"
  by (simp add: lern_inv_def filteredQuestions_def)

lemma lern_inv_handle:
  assumes inv: "app_inv s" and l: "lern_inv s" and en: "enabled s e" and h: "handle s e = Inr t"
  shows "lern_inv t"
proof (cases e)
  case LernNext
  from en LernNext have ne: "filteredQuestions s \<noteq> []" by simp
  from h LernNext have "t = lernNext s" by simp
  with ne show ?thesis by (simp add: lern_inv_def lernNext_def)
next
  case (FetchDone secs bs)
  with en inv have "questions s = []" by (simp add: app_inv_def shape_inv_def)
  with l have "lernIndex s = 0" by (simp add: lern_inv_def filteredQuestions_def)
  with FetchDone h show ?thesis by (auto simp: lern_inv_def fetchDone_def)
next
  case (ChooseCategory c)
  with h show ?thesis by (auto simp: lern_inv_def chooseCategory_def)
next
  case (ChooseClass c)
  with h show ?thesis by (auto simp: lern_inv_def chooseClass_def)
qed (use handle_keeps_practice[OF h] in \<open>simp_all add: lern_inv_keep[OF l]\<close>)

lemma reachable_lern_inv: "reachable s \<Longrightarrow> lern_inv s"
proof (induction rule: reachable.induct)
  case init
  show ?case by (simp add: lern_inv_def initState_def)
next
  case (step s e t)
  have inv: "app_inv s" using step.hyps(1) by (rule reachable_app_inv)
  from step.hyps(2) show ?case
  proof (cases rule: app_step_cases)
    case disabled
    with step.IH show ?thesis by simp
  next
    case (handled u)
    with lern_inv_handle[OF inv step.IH] show ?thesis by simp
  qed
qed

text \<open>
  C22: the practice card never reads past the filtered list: in every reachable state in
  which the filter leaves a question, \<open>filteredQuestions[lernIndex]\<close> is one of them.
\<close>

theorem lernCurrent_defined:
  "reachable s \<Longrightarrow> filteredQuestions s \<noteq> [] \<Longrightarrow> \<exists>q. lernCurrent s = Some q"
  by (drule reachable_lern_inv) (auto simp: lern_inv_def lernCurrent_def js_nth_def)

end
