(* ===== verification/Views.thy ===== *)
theory Views
  imports Walkthrough LernSafety
begin

text \<open>
  The rendered page of \<open>src/src/App.tsx\<close> (lines 344-700) as values: \<open>current\<close> as the
  render computes it (line 344, a \<open>TypeError\<close> when \<open>simQuestions[partIndex]\<close> is
  undefined), the settings card with one row per part of the scheme, the question card's
  header, the part summary, the final result and the practice card.  \<open>render\<close> evaluates
  them in the order of the source and yields the page, or the \<open>TypeError\<close> of the first
  expression that throws.  Markup, styles, KaTeX and images are left out; they read only
  values that are already defined here.
\<close>

record Page =
  settingsCard :: "(string \<times> nat \<times> nat \<times> bool option) list option"
  questionCard :: "(string \<times> string \<times> nat \<times> nat \<times> nat \<times> nat) option"
  summaryCard :: "(string \<times> nat \<times> nat) option"
  resultCard :: "resultRow list option"
  lernCard :: "ShuffledQuestion option"

text \<open>\<open>mode === "simulation" ? simQuestions[partIndex][qIndex] : undefined\<close>.\<close>

definition renderCurrent :: "AppState \<Rightarrow> js_error + ExamQuestion option" where
  "renderCurrent s =
     (if mode s = Simulation
      then js_bind (js_get (js_nth (simQuestions s) (partIndex s))) (\<lambda>part. Inr (js_nth part (qIndex s)))
      else Inr None)"

text \<open>
  The settings card (lines 427-459): for each part its label, count, duration and, once the
  part is complete, the pass mark; \<open>examConfig[examType].map\<close> throws for an unknown key.
\<close>

definition settingsView :: "AppState \<Rightarrow> js_error + (string \<times> nat \<times> nat \<times> bool option) list" where
  "settingsView s =
     js_bind (js_get (examConfigOf (examType s)))
       (\<lambda>parts. Inr (map2 (\<lambda>part st. (label part, count_p part, durationMin part, st))
                          parts (statusView parts (results s))))"

text \<open>
  The header of the question card (lines 465-476): number and part label, the clock
  \<open>Math.floor(timeLeft / 60)\<close> : \<open>timeLeft % 60\<close>, and Frage \<open>qIndex + 1\<close> of
  \<open>simQuestions[partIndex].length\<close>.
\<close>

definition questionCardView :: "AppState \<Rightarrow> ExamQuestion \<Rightarrow> string \<times> string \<times> nat \<times> nat \<times> nat \<times> nat" where
  "questionCardView s eq =
     (number (question eq), partLabel eq, timeLeft s div 60, timeLeft s mod 60, qIndex s + 1,
      length (simQuestions s ! partIndex s))"

text \<open>
  The part summary (lines 547-554): \<open>examConfig[examType][partIndex].label\<close>,
  \<open>results[partIndex].filter((x) => x).length\<close> and \<open>simQuestions[partIndex].length\<close>.
\<close>

definition summaryView :: "AppState \<Rightarrow> js_error + string \<times> nat \<times> nat" where
  "summaryView s =
     js_bind (js_get (examConfigOf (examType s))) (\<lambda>parts.
     js_bind (js_get (js_nth parts (partIndex s))) (\<lambda>part.
     js_bind (js_get (js_nth (results s) (partIndex s))) (\<lambda>res.
     js_bind (js_get (js_nth (simQuestions s) (partIndex s))) (\<lambda>qs.
     Inr (label part, correctCount res, length qs)))))"

text \<open>
  The final result (lines 563-576): \<open>simQuestions.map\<close> reads \<open>results[i]\<close> and
  \<open>examConfig[examType][i]\<close> for each part; with no parts nothing is read.
\<close>

definition resultPage :: "AppState \<Rightarrow> js_error + resultRow list" where
  "resultPage s =
     (case examConfigOf (examType s) of
        None \<Rightarrow> (if simQuestions s = [] then Inr [] else Inl TypeError)
      | Some parts \<Rightarrow> js_get (resultView parts (simQuestions s) (results s)))"

text \<open>
  The practice card (lines 626-697): \<open>filteredQuestions[lernIndex]\<close> when the filter
  leaves a question, Keine Fragen gefunden otherwise.
\<close>

definition lernView :: "AppState \<Rightarrow> js_error + ShuffledQuestion option" where
  "lernView s =
     (if filteredQuestions s = [] then Inr None
      else js_bind (js_get (lernCurrent s)) (\<lambda>q. Inr (Some q)))"

definition shownIf :: "bool \<Rightarrow> js_error + 'a \<Rightarrow> js_error + 'a option" where
  "shownIf b v = (if b then js_bind v (\<lambda>x. Inr (Some x)) else Inr None)"

definition render :: "AppState \<Rightarrow> js_error + Page" where
  "render s =
     js_bind (renderCurrent s) (\<lambda>cur.
     js_bind (shownIf (mode s \<in> {Setup, Simulation, PartSummary}) (settingsView s)) (\<lambda>settings.
     js_bind (Inr (if mode s = Simulation then map_option (questionCardView s) cur else None)) (\<lambda>qc.
     js_bind (shownIf (mode s = PartSummary) (summaryView s)) (\<lambda>sc.
     js_bind (shownIf (mode s = Result) (resultPage s)) (\<lambda>rc.
     js_bind (if mode s = Lernmodus then lernView s else Inr None) (\<lambda>lc.
     Inr \<lparr>settingsCard = settings, questionCard = qc, summaryCard = sc, resultCard = rc,
          lernCard = lc\<rparr>))))))"

lemma renderCurrent_inv: "app_inv s \<Longrightarrow> renderCurrent s = Inr (current s)"
  by (auto simp: renderCurrent_def current_def app_inv_def shape_inv_def js_nth_def)

lemma settingsView_inv: "app_inv s \<Longrightarrow> \<exists>rows. settingsView s = Inr rows"
  using examConfigOf_Some_iff[of "examType s"]
  by (auto simp: settingsView_def app_inv_def shape_inv_def)

lemma summaryView_inv:
  assumes "app_inv s" "mode s = PartSummary"
  shows "\<exists>parts. examConfigOf (examType s) = Some parts \<and>
     summaryView s = Inr (label (parts ! partIndex s), correctCount (results s ! partIndex s),
                          length (simQuestions s ! partIndex s))"
proof -
  from assms obtain parts where cfg: "examConfigOf (examType s) = Some parts"
    and len: "length (simQuestions s) = length parts" "length (results s) = length (simQuestions s)"
    and p: "partIndex s < length (simQuestions s)"
    by (auto simp: app_inv_def shape_inv_def)
  with cfg show ?thesis by (simp add: summaryView_def js_nth_def)
qed

lemma resultPage_inv:
  assumes "app_inv s" "mode s = Result"
  shows "\<exists>rows. resultPage s = Inr rows"
proof -
  from assms obtain parts where cfg: "examConfigOf (examType s) = Some parts"
    and len: "length (results s) = length (simQuestions s)" "length parts = length (simQuestions s)"
    by (auto simp: app_inv_def shape_inv_def)
  with resultView_eq[OF len] show ?thesis by (simp add: resultPage_def)
qed

lemma lernView_inv: "lern_inv s \<Longrightarrow> \<exists>v. lernView s = Inr v"
  by (auto simp: lernView_def lern_inv_def lernCurrent_def js_nth_def)

text \<open>
  C25: the page renders in every reachable state: no expression of the render, the
  \<open>current\<close> read of line 344 and every card the mode shows, throws.
\<close>

theorem render_total: "reachable s \<Longrightarrow> \<exists>page. render s = Inr page"
proof -
  assume r: "reachable s"
  have inv: "app_inv s" using r by (rule reachable_app_inv)
  have l: "lern_inv s" using r by (rule reachable_lern_inv)
  obtain rows where st: "settingsView s = Inr rows" using settingsView_inv[OF inv] by blast
  obtain lv where lv: "lernView s = Inr lv" using lernView_inv[OF l] by blast
  have sm: "\<exists>v. shownIf (mode s = PartSummary) (summaryView s) = Inr v"
    using summaryView_inv[OF inv] by (cases "mode s = PartSummary") (auto simp: shownIf_def)
  have rs: "\<exists>v. shownIf (mode s = Result) (resultPage s) = Inr v"
    using resultPage_inv[OF inv] by (cases "mode s = Result") (auto simp: shownIf_def)
  from sm rs st lv renderCurrent_inv[OF inv] show ?thesis
    by (auto simp: render_def shownIf_def)
qed

text \<open>
  C26: after a part has been answered question by question, the part summary shows the
  part's label from the scheme, the number of correct verdicts among the answers given, and
  the number of questions of the part.
\<close>

theorem summary_after_part:
  assumes "reachable s" "mode s = Simulation" "qIndex s = 0" "\<not> showSolution s" "as \<noteq> []"
    "list_all2 (\<lambda>a eq. a \<noteq> [] \<and> a \<in> set (answerIds eq)) as (simQuestions s ! partIndex s)"
  shows "\<exists>t parts. run s (answerEvents as) = Inr t \<and> examConfigOf (examType s) = Some parts \<and>
     summaryView t = Inr (label (parts ! partIndex s),
       correctCount (map2 (\<lambda>a eq. answerCorrect a (question eq)) as (simQuestions s ! partIndex s)),
       length as)"
proof -
  let ?v = "map2 (\<lambda>a eq. answerCorrect a (question eq)) as (simQuestions s ! partIndex s)"
  let ?t = "s\<lparr>results := (results s)[partIndex s := ?v],
           qIndex := length as - 1, selected := Some (last as), showSolution := True,
           mode := PartSummary, timer := None, effectDeps := (PartSummary, partIndex s)\<rparr>"
  have run: "run s (answerEvents as) = Inr ?t" using assms by (rule answer_part_run)
  have inv: "app_inv s" using assms(1) by (rule reachable_app_inv)
  have invt: "app_inv ?t" using run_app_inv[OF inv run] .
  have p: "partIndex s < length (results s)"
    using inv assms(2) by (simp add: app_inv_def shape_inv_def)
  have len: "length as = length (simQuestions s ! partIndex s)"
    using assms(6) by (rule list_all2_lengthD)
  from summaryView_inv[OF invt] obtain parts where cfg: "examConfigOf (examType s) = Some parts"
    and sv: "summaryView ?t = Inr (label (parts ! partIndex s), correctCount ?v,
                                  length (simQuestions s ! partIndex s))"
    using p by auto
  show ?thesis using run cfg sv len by auto
qed

end
