(* ===== verification/Wellformed.thy ===== *)
theory Wellformed
  imports Invariants
begin

text \<open>
  Two further invariants of the reachable states of \<open>src/src/App.tsx\<close>:
  \<^item> \<open>clock_inv\<close>: in simulation mode the clock (\<open>timeLeft\<close>) is at most the duration of
    the current part, as \<open>startSimulation\<close> and \<open>handleContinue\<close> set it and the interval
    only counts down;
  \<^item> \<open>bank_inv\<close>: every loaded question and every question of a built part has the four
    answer ids \<open>A\<close> to \<open>D\<close> once each, and exactly the answer \<open>A\<close> is correct.
\<close>

definition clock_inv :: "AppState \<Rightarrow> bool" where
  "clock_inv s \<longleftrightarrow>
     (mode s = Simulation \<longrightarrow>
        (\<exists>parts. examConfigOf (examType s) = Some parts \<and>
                 timeLeft s \<le> durationMin (parts ! partIndex s) * 60))"

definition wf_question :: "ShuffledQuestion \<Rightarrow> bool" where
  "wf_question q \<longleftrightarrow>
     mset (map answer_id (answers q)) = mset [''A'', ''B'', ''C'', ''D''] \<and>
     list_all (\<lambda>a. isCorrect a = (answer_id a = ''A'')) (answers q)"

definition bank_inv :: "AppState \<Rightarrow> bool" where
  "bank_inv s \<longleftrightarrow>
     list_all wf_question (questions s) \<and> list_all (list_all (\<lambda>eq. wf_question (question eq))) (simQuestions s)"

lemma examConfig_duration: "examConfigOf k = Some ps \<Longrightarrow> p \<in> set ps \<Longrightarrow> durationMin p \<le> 60"
  using examConfigOf_parts[of k ps] by (auto simp: part_defs)

lemma clock_inv_handle:
  assumes c: "clock_inv s" and en: "enabled s e" and h: "handle s e = Inr t"
  shows "clock_inv t"
proof (cases e)
  case (ClickStart bs)
  show ?thesis
  proof (cases "examConfigOf (examType s)")
    case None
    with h ClickStart show ?thesis by (simp add: startSimulation_def)
  next
    case (Some parts)
    then obtain p0 ps where cfg: "examConfigOf (examType s) = Some (p0 # ps)"
      using examConfigOf_nonempty by (cases parts) auto
    with h ClickStart show ?thesis by (auto simp: startSimulation_eq clock_inv_def)
  qed
next
  case ClickContinue
  show ?thesis
  proof (cases "Suc (partIndex s) < length (simQuestions s)")
    case True
    with h ClickContinue show ?thesis
      by (auto simp: handleContinue_def clock_inv_def js_nth_def Let_def split: option.splits if_splits)
  next
    case False
    with h ClickContinue show ?thesis by (auto simp: handleContinue_def clock_inv_def Let_def)
  qed
next
  case Tick
  from h Tick have "timerTick s = Inr t" by simp
  with c show ?thesis by (auto simp: clock_inv_def dest!: timerTick_Inr)
next
  case (ChooseExamType k)
  with en h show ?thesis by (auto simp: clock_inv_def)
qed (use c h in \<open>auto simp: clock_inv_def handler_defs Let_def split: option.splits if_splits\<close>)

lemma reachable_clock_inv: "reachable s \<Longrightarrow> clock_inv s"
proof (induction rule: reachable.induct)
  case init
  show ?case by (simp add: clock_inv_def initState_def)
next
  case (step s e t)
  from step.hyps(2) show ?case
  proof (cases rule: app_step_cases)
    case disabled
    with step.IH show ?thesis by simp
  next
    case (handled u)
    with clock_inv_handle[OF step.IH] show ?thesis by (simp add: clock_inv_def)
  qed
qed

lemma clock_part_bound:
  assumes "reachable s" "mode s = Simulation"
  obtains parts where "examConfigOf (examType s) = Some parts"
    "timeLeft s \<le> durationMin (parts ! partIndex s) * 60" "timeLeft s \<le> 3600"
proof -
  have inv: "app_inv s" using assms(1) by (rule reachable_app_inv)
  from reachable_clock_inv[OF assms(1)] assms(2) obtain parts where
    cfg: "examConfigOf (examType s) = Some parts" and t: "timeLeft s \<le> durationMin (parts ! partIndex s) * 60"
    by (auto simp: clock_inv_def)
  have "partIndex s < length parts" using inv assms(2) cfg by (auto simp: app_inv_def shape_inv_def)
  then have "durationMin (parts ! partIndex s) \<le> 60" using cfg by (intro examConfig_duration) auto
  with cfg t that show ?thesis by auto
qed

text \<open>
  C34: in every reachable state of the simulation the clock shows at most the current
  part's duration, so never more than 60 minutes: the two-digit minute display
  \<open>padStart(2, "0")\<close> always fits.
\<close>

theorem clock_bounded:
  assumes "reachable s" "mode s = Simulation"
  shows "\<exists>parts. examConfigOf (examType s) = Some parts \<and>
           timeLeft s \<le> durationMin (parts ! partIndex s) * 60 \<and> timeLeft s \<le> 3600"
  using clock_part_bound[OF assms] by blast

subsection \<open>Well-formed questions\<close>

lemma wf_shuffleAnswers: "wf_question (fst (shuffleAnswers bs q))"
proof -
  have m: "mset (answers (fst (shuffleAnswers bs q))) = mset (options q)"
    by (rule mset_answers_shuffleAnswers)
  then have "mset (map answer_id (answers (fst (shuffleAnswers bs q)))) = mset (map answer_id (options q))"
    by (simp only: mset_map)
  moreover have "set (answers (fst (shuffleAnswers bs q))) = set (options q)"
    using m by (rule mset_eq_setD)
  ultimately show ?thesis
    by (simp add: wf_question_def list_all_iff options_def del: answers_shuffleAnswers)
qed

lemma wf_shuffleAll: "list_all wf_question (fst (shuffleAll bs qs))"
proof (induction bs qs rule: shuffleAll.induct)
  case (1 bs)
  then show ?case by simp
next
  case (2 bs q qs)
  obtain q' bs' where sa: "shuffleAnswers bs q = (q', bs')" by fastforce
  have "wf_question q'" using wf_shuffleAnswers[of bs q] sa by simp
  with "2.IH"[OF refl sa[symmetric]] sa show ?case by (simp add: Let_def split_def)
qed

lemma wf_buildParts:
  assumes "list_all wf_question qs"
  shows "list_all (list_all (\<lambda>eq. wf_question (question eq))) (fst (buildParts qs bs ps))"
  unfolding list_all_iff
proof (intro ballI)
  fix sel eq
  assume "sel \<in> set (fst (buildParts qs bs ps))" "eq \<in> set sel"
  then obtain i where i: "i < length ps" and sel: "sel = fst (buildParts qs bs ps) ! i"
    by (auto simp: in_set_conv_nth buildParts_length)
  from buildParts_nth[OF i] obtain bs' where "sel = fst (buildPart qs bs' (ps ! i))"
    using sel by blast
  with \<open>eq \<in> set sel\<close> have "question eq \<in> set qs" by (auto dest: set_buildPart)
  with assms show "wf_question (question eq)" by (simp add: list_all_iff)
qed

lemma bank_inv_handle:
  assumes b: "bank_inv s" and h: "handle s e = Inr t"
  shows "bank_inv t"
proof (cases e)
  case (FetchDone secs bs)
  with h b show ?thesis by (auto simp: bank_inv_def fetchDone_def loadQuestions_def wf_shuffleAll)
next
  case (ClickStart bs)
  from b have q: "list_all wf_question (questions s)" by (simp add: bank_inv_def)
  show ?thesis
  proof (cases "examConfigOf (examType s)")
    case None
    with h ClickStart show ?thesis by (simp add: startSimulation_def)
  next
    case (Some parts)
    then obtain p0 ps where cfg: "examConfigOf (examType s) = Some (p0 # ps)"
      using examConfigOf_nonempty by (cases parts) auto
    have w: "list_all (list_all (\<lambda>eq. wf_question (question eq))) (fst (buildParts (questions s) bs (p0 # ps)))"
      by (rule wf_buildParts[OF q])
    with h ClickStart cfg q show ?thesis
      by (auto simp: startSimulation_eq bank_inv_def simp del: buildParts_Cons_eq)
  qed
next
  case ClickLernmodus
  with h b show ?thesis by (auto simp: bank_inv_def enterLernmodus_def)
qed (use b h in \<open>auto simp: bank_inv_def handler_defs Let_def split: option.splits if_splits\<close>)

lemma reachable_bank_inv: "reachable s \<Longrightarrow> bank_inv s"
proof (induction rule: reachable.induct)
  case init
  show ?case by (simp add: bank_inv_def initState_def)
next
  case (step s e t)
  from step.hyps(2) show ?case
  proof (cases rule: app_step_cases)
    case disabled
    with step.IH show ?thesis by simp
  next
    case (handled u)
    with bank_inv_handle[OF step.IH] show ?thesis by (simp add: bank_inv_def)
  qed
qed

lemma wf_question_ids:
  assumes "wf_question q"
  shows "distinct (map answer_id (answers q))" "set (map answer_id (answers q)) = {''A'', ''B'', ''C'', ''D''}"
proof -
  have m: "mset (map answer_id (answers q)) = mset [''A'', ''B'', ''C'', ''D'']"
    using assms by (simp add: wf_question_def)
  show "distinct (map answer_id (answers q))"
    using mset_eq_imp_distinct_iff[OF m] by simp
  show "set (map answer_id (answers q)) = {''A'', ''B'', ''C'', ''D''}"
    using arg_cong[OF m, of set_mset] by simp
qed

text \<open>
  C35: the questions of every reachable state are well formed: every loaded question and
  every question of a built part offers the answer ids \<open>A\<close>, \<open>B\<close>, \<open>C\<close>, \<open>D\<close> once each,
  and exactly the answer \<open>A\<close> is marked correct.
\<close>

theorem questions_wellformed:
  "reachable s \<Longrightarrow>
   list_all wf_question (questions s) \<and> list_all (list_all (\<lambda>eq. wf_question (question eq))) (simQuestions s)"
  using reachable_bank_inv by (simp add: bank_inv_def)

end
