(* ===== verification/ExamRun.thy ===== *)
theory ExamRun
  imports Views Wellformed
begin

text \<open>
  The settings card over a run of the simulation: every part of a started exam has the
  scheme's \<open>count\<close> questions or none (\<open>size_inv\<close>), so once a part has been answered
  question by question its row in the settings card (lines 428-456) shows the pass mark.
\<close>

definition size_inv :: "AppState \<Rightarrow> bool" where
  "size_inv s \<longleftrightarrow>
     (mode s \<in> {Simulation, PartSummary, Result} \<longrightarrow>
        (\<exists>parts. examConfigOf (examType s) = Some parts \<and>
           list_all2 (\<lambda>part sel. length sel = 0 \<or> length sel = count_p part) parts (simQuestions s)))"

lemma buildParts_sizes:
  "list_all2 (\<lambda>part sel. length sel = 0 \<or> length sel = count_p part) ps (fst (buildParts qs bs ps))"
proof (induction ps arbitrary: bs)
  case Nil
  then show ?case by simp
next
  case (Cons p ps)
  have "length (fst (buildPart qs bs p)) = 0 \<or> length (fst (buildPart qs bs p)) = count_p p"
    by (simp only: buildPart_length_eq) auto
  with Cons.IH[of "snd (buildPart qs bs p)"] show ?case
    by (simp only: buildParts_Cons_eq fst_conv list_all2_Cons)
qed

lemma size_inv_keep:
  assumes "size_inv s" "mode t \<in> {Simulation, PartSummary, Result} \<Longrightarrow> mode s \<in> {Simulation, PartSummary, Result}"
    "examType t = examType s" "simQuestions t = simQuestions s"
  shows "size_inv t"
  using assms unfolding size_inv_def by auto

lemma handle_keeps_exam:
  "handle s e = Inr t \<Longrightarrow>
   (case e of ClickStart bs \<Rightarrow> False | ChooseExamType k \<Rightarrow> False | ClickLernmodus \<Rightarrow> False
    | ClickPruefung \<Rightarrow> False | _ \<Rightarrow> True) \<Longrightarrow>
   examType t = examType s \<and> simQuestions t = simQuestions s"
  by (cases e) (auto simp: handler_defs Let_def split: option.splits if_splits list.splits sum.splits)

lemma handle_keeps_mode:
  "handle s e = Inr t \<Longrightarrow>
   (case e of ChooseAnswer a \<Rightarrow> True | ClickResolve \<Rightarrow> True | FetchDone secs bs \<Rightarrow> True
    | ChooseCategory c \<Rightarrow> True | ChooseClass c \<Rightarrow> True | LernAnswer a \<Rightarrow> True | LernNext \<Rightarrow> True
    | _ \<Rightarrow> False) \<Longrightarrow>
   mode t = mode s"
  by (cases e) (auto simp: handler_defs split: option.splits if_splits)

lemma size_inv_stable:
  "size_inv s \<Longrightarrow> mode t = mode s \<Longrightarrow> examType t = examType s \<Longrightarrow> simQuestions t = simQuestions s \<Longrightarrow>
   size_inv t"
  by (simp add: size_inv_def)

lemma size_inv_handle:
  assumes inv: "app_inv s" and z: "size_inv s" and en: "enabled s e" and h: "handle s e = Inr t"
  shows "size_inv t"
proof (cases e)
  case (ClickStart bs)
  show ?thesis
  proof (cases "examConfigOf (examType s)")
    case None
    with h ClickStart show ?thesis by (simp add: startSimulation_def)
  next
    case (Some parts)
    then obtain p0 ps where cfg: "examConfigOf (examType s) = Some (p0 # ps)"
      using examConfigOf_nonempty by (cases parts) auto
    have w: "list_all2 (\<lambda>part sel. length sel = 0 \<or> length sel = count_p part) (p0 # ps)
               (fst (buildParts (questions s) bs (p0 # ps)))"
      by (rule buildParts_sizes)
    with h ClickStart cfg show ?thesis
      by (auto simp: startSimulation_eq size_inv_def simp del: buildParts_Cons_eq)
  qed
next
  case (ChooseExamType k)
  with en h show ?thesis by (auto simp: size_inv_def)
next
  case ClickLernmodus
  with h show ?thesis by (auto simp: size_inv_def enterLernmodus_def)
next
  case ClickPruefung
  with h show ?thesis by (auto simp: size_inv_def enterSetup_def)
next
  case Tick
  with en inv have m: "mode s = Simulation" by (auto simp: app_inv_def timer_inv_def split: option.splits)
  have k: "examType t = examType s \<and> simQuestions t = simQuestions s"
    using handle_keeps_exam[OF h] Tick by simp
  show ?thesis by (rule size_inv_keep[OF z]) (use m k in simp_all)
next
  case ClickNext
  with en have m: "mode s = Simulation" by (auto simp: current_def split: if_splits)
  have k: "examType t = examType s \<and> simQuestions t = simQuestions s"
    using handle_keeps_exam[OF h] ClickNext by simp
  show ?thesis by (rule size_inv_keep[OF z]) (use m k in simp_all)
next
  case ClickContinue
  with en have m: "mode s = PartSummary" by simp
  have k: "examType t = examType s \<and> simQuestions t = simQuestions s"
    using handle_keeps_exam[OF h] ClickContinue by simp
  show ?thesis by (rule size_inv_keep[OF z]) (use m k in simp_all)
next
  case (ChooseAnswer a)
  then show ?thesis using handle_keeps_mode[OF h] handle_keeps_exam[OF h]
    by (intro size_inv_stable[OF z]) simp_all
next
  case ClickResolve
  then show ?thesis using handle_keeps_mode[OF h] handle_keeps_exam[OF h]
    by (intro size_inv_stable[OF z]) simp_all
next
  case (FetchDone secs bs)
  then show ?thesis using handle_keeps_mode[OF h] handle_keeps_exam[OF h]
    by (intro size_inv_stable[OF z]) simp_all
next
  case (ChooseCategory c)
  then show ?thesis using handle_keeps_mode[OF h] handle_keeps_exam[OF h]
    by (intro size_inv_stable[OF z]) simp_all
next
  case (ChooseClass c)
  then show ?thesis using handle_keeps_mode[OF h] handle_keeps_exam[OF h]
    by (intro size_inv_stable[OF z]) simp_all
next
  case (LernAnswer a)
  then show ?thesis using handle_keeps_mode[OF h] handle_keeps_exam[OF h]
    by (intro size_inv_stable[OF z]) simp_all
next
  case LernNext
  then show ?thesis using handle_keeps_mode[OF h] handle_keeps_exam[OF h]
    by (intro size_inv_stable[OF z]) simp_all
qed

lemma reachable_size_inv: "reachable s \<Longrightarrow> size_inv s"
proof (induction rule: reachable.induct)
  case init
  show ?case by (simp add: size_inv_def initState_def)
next
  case (step s e t)
  from step.hyps(2) show ?case
  proof (cases rule: app_step_cases)
    case disabled
    with step.IH show ?thesis by simp
  next
    case (handled u)
    with size_inv_handle[OF reachable_app_inv[OF step.hyps(1)] step.IH] show ?thesis
      by (simp add: size_inv_def)
  qed
qed

lemma statusView_nth:
  "i < length parts \<Longrightarrow>
   statusView parts res ! i = partStatus (parts ! i) (case js_nth res i of None \<Rightarrow> [] | Some r \<Rightarrow> r)"
  by (simp add: statusView_def nth_enumerate_eq)

lemma length_statusView [simp]: "length (statusView parts res) = length parts"
  by (simp add: statusView_def)

text \<open>
  C40: after a part has been answered question by question, the settings card's row for it
  shows its label, count and duration and the pass mark: Bestanden exactly when at least
  three quarters of the answers given were correct.
\<close>

theorem pass_mark_after_part:
  assumes "reachable s" "mode s = Simulation" "qIndex s = 0" "\<not> showSolution s" "as \<noteq> []"
    "list_all2 (\<lambda>a eq. a \<noteq> [] \<and> a \<in> set (answerIds eq)) as (simQuestions s ! partIndex s)"
  shows "\<exists>t parts rows. run s (answerEvents as) = Inr t \<and> examConfigOf (examType s) = Some parts \<and>
     settingsView t = Inr rows \<and>
     rows ! partIndex s = (label (parts ! partIndex s), count_p (parts ! partIndex s),
        durationMin (parts ! partIndex s),
        Some (3 * length as \<le> 4 * correctCount
                 (map2 (\<lambda>a eq. answerCorrect a (question eq)) as (simQuestions s ! partIndex s))))"
proof -
  let ?p = "partIndex s"
  let ?v = "map2 (\<lambda>a eq. answerCorrect a (question eq)) as (simQuestions s ! ?p)"
  let ?t = "s\<lparr>results := (results s)[?p := ?v],
           qIndex := length as - 1, selected := Some (last as), showSolution := True,
           mode := PartSummary, timer := None, effectDeps := (PartSummary, ?p)\<rparr>"
  have run: "run s (answerEvents as) = Inr ?t" using assms by (rule answer_part_run)
  have inv: "app_inv s" using assms(1) by (rule reachable_app_inv)
  from reachable_size_inv[OF assms(1)] assms(2) obtain parts where
    cfg: "examConfigOf (examType s) = Some parts" and
    sz: "list_all2 (\<lambda>part sel. length sel = 0 \<or> length sel = count_p part) parts (simQuestions s)"
    by (auto simp: size_inv_def)
  have p: "?p < length (simQuestions s)" "length (results s) = length (simQuestions s)"
    using inv assms(2) by (simp_all add: app_inv_def shape_inv_def)
  have lp: "length parts = length (simQuestions s)" using sz by (rule list_all2_lengthD)
  have len: "length as = length (simQuestions s ! ?p)" using assms(6) by (rule list_all2_lengthD)
  then have "length (simQuestions s ! ?p) \<noteq> 0" using assms(5) by (metis length_0_conv)
  then have cnt: "count_p (parts ! ?p) = length as"
    using sz p(1) len by (auto simp: list_all2_conv_all_nth)
  have lv: "length ?v = length as" using len by simp
  have st: "statusView parts (results ?t) ! ?p = Some (3 * length as \<le> 4 * correctCount ?v)"
    using p lp cnt lv assms(5)
    by (simp add: statusView_nth js_nth_def partStatus_def passed_iff_count)
  have "settingsView ?t = Inr (map2 (\<lambda>part st. (label part, count_p part, durationMin part, st))
                                  parts (statusView parts (results ?t)))"
    using cfg by (simp add: settingsView_def)
  moreover have "map2 (\<lambda>part st. (label part, count_p part, durationMin part, st))
                   parts (statusView parts (results ?t)) ! ?p =
      (label (parts ! ?p), count_p (parts ! ?p), durationMin (parts ! ?p),
       Some (3 * length as \<le> 4 * correctCount ?v))"
    using st p lp by simp
  ultimately show ?thesis using run cfg by blast
qed

end
