(* ===== verification/ExamFlow.thy ===== *)
theory ExamFlow
  imports ExamRun
begin

text \<open>
  A whole exam as the user takes it in \<open>src/src/App.tsx\<close>: from the first question of the
  first part, every question of every part is answered (an answer button, Aufloesen, Weiter
  zur Auswertung) and each part summary is left with Weiter (\<open>handleContinue\<close>); no tick
  of the interval falls in between.  The run ends in the result view with one row per part.
\<close>

definition examEvents :: "string list list \<Rightarrow> Event list" where
  "examEvents ass = concat (map (\<lambda>as. answerEvents as @ [ClickContinue]) ass)"

text \<open>The verdicts \<open>handleResolve\<close> records for the answers of one part.\<close>

definition partVerdicts :: "string list \<Rightarrow> ExamQuestion list \<Rightarrow> bool list" where
  "partVerdicts as qs = map2 (\<lambda>a eq. answerCorrect a (question eq)) as qs"

text \<open>Answers that the buttons of a part offer, one per question.\<close>

definition offered :: "string list \<Rightarrow> ExamQuestion list \<Rightarrow> bool" where
  "offered as qs \<longleftrightarrow> as \<noteq> [] \<and> list_all2 (\<lambda>a eq. a \<noteq> [] \<and> a \<in> set (answerIds eq)) as qs"

lemma examEvents_Cons [simp]:
  "examEvents (as # ass) = answerEvents as @ ClickContinue # examEvents ass"
  by (simp add: examEvents_def)

lemma examEvents_Nil [simp]: "examEvents [] = []"
  by (simp add: examEvents_def)

text \<open>Weiter on the summary of a part that is not the last: the next part starts.\<close>

lemma step_continue_next:
  assumes inv: "app_inv s" and m: "mode s = PartSummary" and n: "Suc (partIndex s) < length (simQuestions s)"
    and d: "effectDeps s = (PartSummary, partIndex s)"
  obtains t where "app_step s ClickContinue = Inr t" "mode t = Simulation" "partIndex t = Suc (partIndex s)"
    "qIndex t = 0" "\<not> showSolution t" "simQuestions t = simQuestions s" "results t = results s"
    "examType t = examType s"
proof -
  from inv m obtain parts where cfg: "examConfigOf (examType s) = Some parts"
    and lp: "length (simQuestions s) = length parts"
    by (auto simp: app_inv_def shape_inv_def)
  then have "js_nth parts (Suc (partIndex s)) = Some (parts ! Suc (partIndex s))"
    using n by (simp add: js_simps)
  with cfg m n d have "app_step s ClickContinue =
     Inr (s\<lparr>partIndex := Suc (partIndex s), qIndex := 0, selected := None, showSolution := False,
            mode := Simulation, timeLeft := durationMin (parts ! Suc (partIndex s)) * 60,
            timer := Some \<lparr>cap_partIndex = Suc (partIndex s), cap_qIndex = 0, cap_simQuestions = simQuestions s\<rparr>,
            effectDeps := (Simulation, Suc (partIndex s))\<rparr>)"
    by (simp add: app_step_def handleContinue_def commitEffects_def Let_def)
  then show ?thesis by (rule that) simp_all
qed

text \<open>Weiter on the summary of the last part: the result view, the interval cleared.\<close>

lemma step_continue_last:
  assumes m: "mode s = PartSummary" and n: "\<not> Suc (partIndex s) < length (simQuestions s)"
    and d: "effectDeps s = (PartSummary, partIndex s)"
  obtains t where "app_step s ClickContinue = Inr t" "mode t = Result" "timer t = None"
    "simQuestions t = simQuestions s" "results t = results s" "examType t = examType s"
proof -
  have "app_step s ClickContinue = Inr (s\<lparr>mode := Result, timer := None, effectDeps := (Result, partIndex s)\<rparr>)"
    using m n d by (simp add: app_step_def handleContinue_def commitEffects_def Let_def)
  then show ?thesis by (rule that) simp_all
qed

lemma exam_run_from:
  assumes "reachable s" "mode s = Simulation" "qIndex s = 0" "\<not> showSolution s"
    "list_all2 offered ass (drop (partIndex s) (simQuestions s))"
  shows "\<exists>t. run s (examEvents ass) = Inr t \<and> mode t = Result \<and> timer t = None \<and>
           simQuestions t = simQuestions s \<and> examType t = examType s \<and>
           results t = take (partIndex s) (results s) @ map2 partVerdicts ass (drop (partIndex s) (simQuestions s))"
  using assms
proof (induction ass arbitrary: s)
  case Nil
  then have "length (simQuestions s) \<le> partIndex s" by simp
  moreover have "partIndex s < length (simQuestions s)"
    using reachable_app_inv[OF Nil.prems(1)] Nil.prems(2) by (simp add: app_inv_def shape_inv_def)
  ultimately show ?case by simp
next
  case (Cons as ass)
  let ?p = "partIndex s"
  let ?v = "partVerdicts as (simQuestions s ! ?p)"
  have inv: "app_inv s" using Cons.prems(1) by (rule reachable_app_inv)
  have p: "?p < length (simQuestions s)" "length (results s) = length (simQuestions s)"
    using inv Cons.prems(2) by (simp_all add: app_inv_def shape_inv_def)
  have drop: "drop ?p (simQuestions s) = simQuestions s ! ?p # drop (Suc ?p) (simQuestions s)"
    using p(1) by (rule Cons_nth_drop_Suc[symmetric])
  with Cons.prems(5) have off: "offered as (simQuestions s ! ?p)"
    and rest: "list_all2 offered ass (drop (Suc ?p) (simQuestions s))"
    by simp_all
  let ?t1 = "s\<lparr>results := (results s)[?p := ?v],
           qIndex := length as - 1, selected := Some (last as), showSolution := True,
           mode := PartSummary, timer := None, effectDeps := (PartSummary, ?p)\<rparr>"
  have r1: "run s (answerEvents as) = Inr ?t1"
    using answer_part_run[OF Cons.prems(1-4), of as] off by (simp add: offered_def partVerdicts_def)
  have reach1: "reachable ?t1" using run_reachable[OF Cons.prems(1) r1] .
  have take: "take (Suc ?p) ((results s)[?p := ?v]) = take ?p (results s) @ [?v]"
    using p by (simp add: take_Suc_conv_app_nth)
  show ?case
  proof (cases "Suc ?p < length (simQuestions s)")
    case True
    have h: "mode ?t1 = PartSummary" "Suc (partIndex ?t1) < length (simQuestions ?t1)"
      "effectDeps ?t1 = (PartSummary, partIndex ?t1)"
      using True by simp_all
    obtain t2 where r2: "app_step ?t1 ClickContinue = Inr t2" and f: "mode t2 = Simulation"
      "partIndex t2 = Suc ?p" "qIndex t2 = 0" "\<not> showSolution t2" "simQuestions t2 = simQuestions s"
      "results t2 = (results s)[?p := ?v]" "examType t2 = examType s"
      by (rule step_continue_next[OF reachable_app_inv[OF reach1] h]) simp_all
    have reach2: "reachable t2" using reachable.step[OF reach1 r2] .
    have pre: "list_all2 offered ass (drop (partIndex t2) (simQuestions t2))"
      using rest f by simp
    from Cons.IH[OF reach2 f(1) f(3) f(4) pre] obtain t where
      t: "run t2 (examEvents ass) = Inr t" "mode t = Result" "timer t = None"
         "simQuestions t = simQuestions t2" "examType t = examType t2"
         "results t = take (partIndex t2) (results t2) @ map2 partVerdicts ass (drop (partIndex t2) (simQuestions t2))"
      by blast
    have "run s (examEvents (as # ass)) = Inr t"
      using r1 r2 t(1) by (simp add: run_append)
    moreover have "results t = take ?p (results s) @ map2 partVerdicts (as # ass) (drop ?p (simQuestions s))"
      using t(6) f take drop by simp
    ultimately show ?thesis using t(2-5) f by auto
  next
    case False
    then have ass: "ass = []" using rest by simp
    have h: "mode ?t1 = PartSummary" "\<not> Suc (partIndex ?t1) < length (simQuestions ?t1)"
      "effectDeps ?t1 = (PartSummary, partIndex ?t1)"
      using False by simp_all
    obtain t where r2: "app_step ?t1 ClickContinue = Inr t" and f: "mode t = Result" "timer t = None"
      "simQuestions t = simQuestions s" "results t = (results s)[?p := ?v]" "examType t = examType s"
      by (rule step_continue_last[OF h]) simp_all
    have r: "run s (examEvents (as # ass)) = Inr t"
      using r1 r2 ass by (simp add: run_append)
    have len: "Suc ?p = length (results s)" using p False by simp
    then have "results s = take ?p (results s) @ [results s ! ?p]"
      using take_Suc_conv_app_nth[of ?p "results s"] by simp
    then have "(results s)[?p := ?v] = (take ?p (results s) @ [results s ! ?p])[?p := ?v]" by simp
    also have "\<dots> = take ?p (results s) @ [?v]" using len by (simp add: list_update_append)
    finally have "results t = take ?p (results s) @ map2 partVerdicts (as # ass) (drop ?p (simQuestions s))"
      using drop ass f(4) by simp
    with r f show ?thesis by auto
  qed
qed

lemma render_result:
  "mode t = Result \<Longrightarrow> resultPage t = Inr rows \<Longrightarrow>
   render t = Inr \<lparr>settingsCard = None, questionCard = None, summaryCard = None, resultCard = Some rows,
                   lernCard = None\<rparr>"
  by (simp add: render_def renderCurrent_def shownIf_def)

lemma offered_length: "list_all2 offered ass qss \<Longrightarrow> i < length qss \<Longrightarrow> length (ass ! i) = length (qss ! i)"
  by (auto simp: offered_def list_all2_conv_all_nth dest: list_all2_lengthD)

text \<open>
  C11: taking a whole exam from its first question, answering every question of every part
  with an offered answer and leaving each part summary with Weiter, ends in the result view
  with the interval cleared; the results are the verdicts of the answers, part by part, and
  the page shows exactly the result card with each part's label, correct count, question
  count and percentage.  The settings card with the pass marks is not shown.
\<close>

theorem whole_exam_result:
  assumes "reachable s" "mode s = Simulation" "partIndex s = 0" "qIndex s = 0" "\<not> showSolution s"
    "list_all2 offered ass (simQuestions s)"
  shows "\<exists>t parts page. run s (examEvents ass) = Inr t \<and> mode t = Result \<and> timer t = None \<and>
     examConfigOf (examType s) = Some parts \<and> results t = map2 partVerdicts ass (simQuestions s) \<and>
     render t = Inr page \<and> settingsCard page = None \<and>
     resultCard page = Some (map2 (\<lambda>part v. (label part, correctCount v, length v, percent (correctCount v) (length v)))
                              parts (results t))"
proof -
  from exam_run_from[of s ass] assms obtain t where
    t: "run s (examEvents ass) = Inr t" "mode t = Result" "timer t = None" "simQuestions t = simQuestions s"
       "examType t = examType s" "results t = map2 partVerdicts ass (simQuestions s)"
    by auto
  have inv: "app_inv t" using reachable_app_inv[OF run_reachable[OF assms(1) t(1)]] .
  then obtain parts where cfg: "examConfigOf (examType t) = Some parts"
    and lp: "length (simQuestions t) = length parts" and lr: "length (results t) = length (simQuestions t)"
    using t(2) by (auto simp: app_inv_def shape_inv_def)
  have la: "length ass = length (simQuestions s)" using assms(6) by (rule list_all2_lengthD)
  have rows: "map (\<lambda>i. (label (parts ! i), correctCount (results t ! i), length (simQuestions t ! i),
                        percent (correctCount (results t ! i)) (length (simQuestions t ! i))))
                [0..<length (simQuestions t)] =
      map2 (\<lambda>part v. (label part, correctCount v, length v, percent (correctCount v) (length v)))
        parts (results t)"
  proof (rule nth_equalityI)
    fix i assume "i < length (map (\<lambda>i. (label (parts ! i), correctCount (results t ! i), length (simQuestions t ! i),
                        percent (correctCount (results t ! i)) (length (simQuestions t ! i))))
                [0..<length (simQuestions t)])"
    then have i: "i < length (simQuestions s)" using t(4) by simp
    have "length (results t ! i) = length (simQuestions t ! i)"
      using i t(4,6) la offered_length[OF assms(6) i] by (simp add: partVerdicts_def)
    then show "map (\<lambda>i. (label (parts ! i), correctCount (results t ! i), length (simQuestions t ! i),
                        percent (correctCount (results t ! i)) (length (simQuestions t ! i))))
                [0..<length (simQuestions t)] ! i =
      map2 (\<lambda>part v. (label part, correctCount v, length v, percent (correctCount v) (length v)))
        parts (results t) ! i"
      using i t(4) lp lr by simp
  qed (use lp lr in simp)
  have "resultPage t = Inr (map2 (\<lambda>part v. (label part, correctCount v, length v, percent (correctCount v) (length v)))
                             parts (results t))"
    using cfg resultView_eq[OF lr lp[symmetric]] rows by (simp add: resultPage_def)
  from render_result[OF t(2) this] t cfg show ?thesis by auto
qed

end
