(* ===== verification/SpecMachine.thy ===== *)
theory SpecMachine
  imports Behaviour
begin

text \<open>
  The abstract state machine of the simulation as section 4.4 of the specification
  describes it: the states Idle (practice mode or not yet started), Setup, Simulating(p, q),
  PartSummary(p) and Result, with the part lengths of the current exam; the transitions
  Idle to Setup, start, next (to the next question or, after the last, to the summary),
  continue (to the next part or the result), and the return from Result to Setup or Idle,
  which clears the parts.  \<open>absState\<close> reads the abstract state off the application state.
  The two mode buttons of the page are offered in every mode, so they leave this machine:
  the Lernmodus button from Setup, Simulating and PartSummary, the Pruefungssimulation
  button from Simulating and PartSummary, and from Result, where \<open>enterSetup\<close> keeps the
  parts.  Every other event but the interval's tick refines the machine; the tick refines
  it except when it fires on the last question of a part of two or more questions.
\<close>

datatype SpecState = Idle | SetupS | Simulating nat nat | PartSummaryS nat | ResultS

definition absState :: "AppState \<Rightarrow> SpecState \<times> nat list" where
  "absState s =
     ((case mode s of
         Lernmodus \<Rightarrow> Idle
       | Setup \<Rightarrow> SetupS
       | Simulation \<Rightarrow> Simulating (partIndex s) (qIndex s)
       | PartSummary \<Rightarrow> PartSummaryS (partIndex s)
       | Result \<Rightarrow> ResultS),
      map length (simQuestions s))"

inductive spec_step :: "SpecState \<times> nat list \<Rightarrow> SpecState \<times> nat list \<Rightarrow> bool" where
  enter_setup: "spec_step (Idle, L) (SetupS, [])"
| start: "L' \<noteq> [] \<Longrightarrow> spec_step (SetupS, L) (Simulating 0 0, L')"
| next_question: "Suc q < L ! p \<Longrightarrow> spec_step (Simulating p q, L) (Simulating p (Suc q), L)"
| last_question: "L ! p \<le> Suc q \<Longrightarrow> spec_step (Simulating p q, L) (PartSummaryS p, L)"
| next_part: "Suc p < length L \<Longrightarrow> spec_step (PartSummaryS p, L) (Simulating (Suc p) 0, L)"
| finish: "length L \<le> Suc p \<Longrightarrow> spec_step (PartSummaryS p, L) (ResultS, L)"
| result_setup: "spec_step (ResultS, L) (SetupS, [])"
| result_idle: "spec_step (ResultS, L) (Idle, [])"

inductive_simps spec_step_Simulating: "spec_step (Simulating p q, L) x"
inductive_simps spec_step_pair: "spec_step (a, L) (b, L')"

lemma absState_commit [simp]: "absState (commitEffects t) = absState t"
  by (simp add: absState_def cong: Mode.case_cong)

lemma absState_update [simp]:
  "absState (s\<lparr>timeLeft := n\<rparr>) = absState s" "absState (s\<lparr>selected := x\<rparr>) = absState s"
  "absState (s\<lparr>showSolution := b\<rparr>) = absState s" "absState (s\<lparr>results := r\<rparr>) = absState s"
  by (simp_all add: absState_def cong: Mode.case_cong)

text \<open>Practice mode holds no exam parts: \<open>enterLernmodus\<close> clears them and no other
  handler enters practice mode or builds parts there.\<close>

lemma handle_into_practice:
  "handle s e = Inr u \<Longrightarrow> enabled s e \<Longrightarrow> mode u = Lernmodus \<Longrightarrow> e \<noteq> ClickLernmodus \<Longrightarrow>
   mode s = Lernmodus \<and> simQuestions u = simQuestions s"
  by (cases e) (auto simp: handler_defs Let_def split: option.splits if_splits list.splits sum.splits)

lemma reachable_practice_empty: "reachable s \<Longrightarrow> mode s = Lernmodus \<Longrightarrow> simQuestions s = []"
proof (induction rule: reachable.induct)
  case init
  show ?case by (simp add: initState_def)
next
  case (step s e t)
  from step.hyps(2) show ?case
  proof (cases rule: app_step_cases)
    case disabled
    with step.IH step.prems show ?thesis by simp
  next
    case (handled u)
    show ?thesis
    proof (cases "e = ClickLernmodus")
      case True
      with handled step.prems show ?thesis by (auto simp: enterLernmodus_def)
    next
      case False
      with handled step.prems handle_into_practice[of s e u] step.IH show ?thesis by simp
    qed
  qed
qed

lemma result_has_parts: "app_inv s \<Longrightarrow> mode s = Result \<Longrightarrow> simQuestions s \<noteq> []"
  by (auto simp: app_inv_def shape_inv_def)

lemma handle_refines:
  assumes inv: "app_inv s" and en: "enabled s e" and h: "handle s e = Inr u" and nt: "e \<noteq> Tick"
    and nm: "e \<noteq> ClickLernmodus" "e \<noteq> ClickPruefung"
  shows "absState u = absState s \<or> spec_step (absState s) (absState u)"
proof (cases e)
  case (ClickStart bs)
  with en have m: "mode s = Setup" by simp
  have "examType s \<in> set examTypes" using inv by (simp add: app_inv_def shape_inv_def)
  then obtain p0 ps where cfg: "examConfigOf (examType s) = Some (p0 # ps)"
    using examType_parts by blast
  with h ClickStart have u: "u = s\<lparr>simQuestions := fst (buildParts (questions s) bs (p0 # ps)),
            results := map (\<lambda>_. []) (fst (buildParts (questions s) bs (p0 # ps))), partIndex := 0,
            qIndex := 0, selected := None, showSolution := False, mode := Simulation,
            timeLeft := durationMin p0 * 60\<rparr>"
    by (simp add: startSimulation_eq)
  have "fst (buildParts (questions s) bs (p0 # ps)) \<noteq> []"
    using buildParts_length[of "questions s" bs "p0 # ps"] by auto
  with m u show ?thesis by (simp add: absState_def spec_step.start)
next
  case ClickNext
  with en obtain eq where cur: "current s = Some eq" and sh: "showSolution s" by auto
  from cur have m: "mode s = Simulation" and p: "partIndex s < length (simQuestions s)"
    by (simp_all add: current_Some_iff)
  show ?thesis
  proof (cases "Suc (qIndex s) < length (simQuestions s ! partIndex s)")
    case True
    with h ClickNext p have "u = s\<lparr>qIndex := Suc (qIndex s), selected := None, showSolution := False\<rparr>"
      by (simp add: handleNext_def handleNext_in_def js_nth_def)
    with m p True show ?thesis by (simp add: absState_def spec_step.next_question)
  next
    case False
    with h ClickNext p have "u = s\<lparr>mode := PartSummary\<rparr>"
      by (simp add: handleNext_def handleNext_in_def js_nth_def)
    with m p False show ?thesis by (simp add: absState_def spec_step.last_question)
  qed
next
  case ClickContinue
  with en have m: "mode s = PartSummary" by simp
  from h ClickContinue have "handleContinue s = Inr u" by simp
  then consider (more) "Suc (partIndex s) < length (simQuestions s)"
      "\<exists>d. u = s\<lparr>partIndex := Suc (partIndex s), qIndex := 0, selected := None, showSolution := False,
                mode := Simulation, timeLeft := d\<rparr>"
    | (fin) "u = s\<lparr>mode := Result, timer := None\<rparr>"
    by (blast dest: handleContinue_Inr)
  then show ?thesis
  proof cases
    case more
    then show ?thesis using m by (auto simp: absState_def spec_step.next_part)
  next
    case fin
    have "\<not> Suc (partIndex s) < length (simQuestions s)"
    proof
      assume "Suc (partIndex s) < length (simQuestions s)"
      with h ClickContinue have "mode u = Simulation"
        by (auto simp: handleContinue_def Let_def split: option.splits)
      with fin show False by simp
    qed
    with fin m show ?thesis by (simp add: absState_def spec_step.finish)
  qed
qed (use h nt nm in \<open>auto simp: absState_def handler_defs cong: Mode.case_cong split: option.splits if_splits\<close>)

text \<open>
  C23: every event other than the interval's tick refines the specification's state
  machine, leaving the abstract state unchanged or taking one of its transitions, exactly
  unless it is the Lernmodus button outside practice mode and the result view, or the
  Pruefungssimulation button during an exam or on the result view: the mode buttons
  abandon a running exam, which the specification does not provide for, and
  \<open>enterSetup\<close> keeps the exam's parts where the specification clears them.
\<close>

theorem user_events_refine_spec_iff:
  assumes "reachable s" "app_step s e = Inr t" "e \<noteq> Tick"
  shows "(absState t = absState s \<or> spec_step (absState s) (absState t)) \<longleftrightarrow>
         \<not> (e = ClickLernmodus \<and> mode s \<in> {Setup, Simulation, PartSummary} \<or>
            e = ClickPruefung \<and> mode s \<in> {Simulation, PartSummary, Result})"
proof -
  have inv: "app_inv s" using assms(1) by (rule reachable_app_inv)
  have idle: "mode s = Lernmodus \<Longrightarrow> simQuestions s = []"
    using assms(1) by (rule reachable_practice_empty)
  consider (lern) "e = ClickLernmodus" | (pruef) "e = ClickPruefung"
    | (other) "e \<noteq> ClickLernmodus" "e \<noteq> ClickPruefung" by blast
  then show ?thesis
  proof cases
    case lern
    with assms(2) have "t = commitEffects (enterLernmodus s)" by (simp add: app_step_def)
    then have "absState t = (Idle, [])" by (simp add: absState_def enterLernmodus_def)
    with lern idle show ?thesis by (cases "mode s") (simp_all add: absState_def spec_step_pair)
  next
    case pruef
    with assms(2) have "t = commitEffects (enterSetup s)" by (simp add: app_step_def)
    then have "absState t = (SetupS, map length (simQuestions s))"
      by (simp add: absState_def enterSetup_def)
    with pruef idle result_has_parts[OF inv] show ?thesis
      by (cases "mode s") (simp_all add: absState_def spec_step_pair)
  next
    case other
    from assms(2) have "absState t = absState s \<or> spec_step (absState s) (absState t)"
    proof (cases rule: app_step_cases)
      case disabled
      then show ?thesis by simp
    next
      case (handled u)
      with handle_refines[OF inv _ _ assms(3) other] show ?thesis by simp
    qed
    with other show ?thesis by simp
  qed
qed

lemma absState_sim:
  "app_inv s \<Longrightarrow> mode s = Simulation \<Longrightarrow>
   absState s = (Simulating (partIndex s) (qIndex s), map length (simQuestions s)) \<and>
   map length (simQuestions s) ! partIndex s = length (simQuestions s ! partIndex s)"
  by (simp add: absState_def app_inv_part)

text \<open>
  C24: the interval's tick refines the specification's machine exactly unless it fires on
  the last question of a part of two or more questions, or past it: there the stale
  closure still sees question \<open>0\<close> and moves on to a question that does not exist
  instead of showing the part summary.
\<close>

theorem tick_refines_spec_iff:
  assumes "reachable s" "app_step s Tick = Inr t"
  shows "(absState t = absState s \<or> spec_step (absState s) (absState t)) \<longleftrightarrow>
         \<not> (mode s = Simulation \<and> timeLeft s \<le> 1 \<and> 1 < length (simQuestions s ! partIndex s) \<and>
            length (simQuestions s ! partIndex s) \<le> Suc (qIndex s))"
proof -
  have inv: "app_inv s" using assms(1) by (rule reachable_app_inv)
  let ?n = "length (simQuestions s ! partIndex s)"
  show ?thesis
  proof (cases "mode s = Simulation")
    case False
    then have "timer s = None" using inv by (auto simp: app_inv_def timer_inv_def split: option.splits)
    with assms(2) have "t = s" by (simp add: app_step_def)
    with False show ?thesis by simp
  next
    case m: True
    have a: "absState s = (Simulating (partIndex s) (qIndex s), map length (simQuestions s))"
      and n: "map length (simQuestions s) ! partIndex s = ?n"
      using absState_sim[OF inv m] by simp_all
    consider (count) "1 < timeLeft s" | (fire) "timeLeft s \<le> 1" "1 < ?n" | (last) "timeLeft s \<le> 1" "?n \<le> 1"
      by linarith
    then show ?thesis
    proof cases
      case count
      with assms(2) tick_countdown[OF inv m] have "t = s\<lparr>timeLeft := timeLeft s - 1\<rparr>" by simp
      with count show ?thesis by simp
    next
      case fire
      with assms(2) tick_expired[OF inv m] have
        "t = s\<lparr>qIndex := Suc (qIndex s), selected := None, showSolution := False, timeLeft := 0\<rparr>" by simp
      then have "absState t = (Simulating (partIndex s) (Suc (qIndex s)), map length (simQuestions s))"
        using m by (simp add: absState_def)
      with a n fire m show ?thesis by (simp add: spec_step_Simulating not_le)
    next
      case last
      with assms(2) tick_summary[OF inv m] have
        "t = commitEffects (s\<lparr>mode := PartSummary, timeLeft := 0\<rparr>)" by simp
      then have "absState t = (PartSummaryS (partIndex s), map length (simQuestions s))"
        by (simp add: absState_def)
      with a n last show ?thesis by (simp add: spec_step_Simulating)
    qed
  qed
qed

end
