(* ===== verification/Categories.thy ===== *)
theory Categories
  imports Lernmodus
begin

text \<open>
  The option lists of the practice mode's selectors in \<open>src/src/App.tsx\<close>.
  \<open>getIndentedCategories\<close> (lines 348-363) walks every question's category path and sets,
  for each prefix joined with \<open>" > "\<close>, the key to the prefix's depth in a \<open>Map\<close>; a
  \<open>Map\<close> keeps the position of a key's first insertion and the value of its last.  Each
  entry becomes an option whose value is the last piece of \<open>category.split(" > ")\<close>.  The
  class selector offers \<open>Array.from(new Set(questions.map((q) => q.class)))\<close> (line 617).
\<close>

text \<open>\<open>xs.join(sep)\<close>.\<close>

fun js_join :: "string \<Rightarrow> string list \<Rightarrow> string" where
  "js_join sep [] = []"
| "js_join sep [x] = x"
| "js_join sep (x # y # xs) = x @ sep @ js_join sep (y # xs)"

text \<open>
  \<open>s.split(sep)\<close> for a non-empty separator: scan from the left, cut at each occurrence,
  and continue after it; \<open>acc\<close> holds the current piece reversed.
\<close>

function split_scan :: "string \<Rightarrow> string \<Rightarrow> string \<Rightarrow> string list" where
  "split_scan sep acc [] = [rev acc]"
| "split_scan sep acc (c # cs) =
     (if sep \<noteq> [] \<and> prefix sep (c # cs) then rev acc # split_scan sep [] (drop (length sep) (c # cs))
      else split_scan sep (c # acc) cs)"
  by pat_completeness auto
termination
  by (relation "measure (\<lambda>(sep, acc, s). length s)") auto

definition js_split :: "string \<Rightarrow> string \<Rightarrow> string list" where
  "js_split sep s = (if sep = [] then map (\<lambda>c. [c]) s else split_scan sep [] s)"

text \<open>\<open>m.set(k, v)\<close> on a \<open>Map\<close> as an association list in insertion order.\<close>

definition map_set :: "'k \<Rightarrow> 'v \<Rightarrow> ('k \<times> 'v) list \<Rightarrow> ('k \<times> 'v) list" where
  "map_set k v m =
     (if k \<in> fst ` set m then map (\<lambda>(k', v'). if k' = k then (k, v) else (k', v')) m else m @ [(k, v)])"

record CategoryOption =
  opt_value :: string
  opt_label :: string
  opt_depth :: nat

text \<open>\<open>q.categoryPath.forEach((_, idx, path) => categoriesMap.set(path.slice(0, idx + 1).join(" > "), idx))\<close>.\<close>

definition addPath :: "(string \<times> nat) list \<Rightarrow> string list \<Rightarrow> (string \<times> nat) list" where
  "addPath m path = foldl (\<lambda>m idx. map_set (js_join '' > '' (take (idx + 1) path)) idx m) m [0..<length path]"

text \<open>\<open>questions.forEach(...)\<close> into an initially empty \<open>Map\<close>.\<close>

definition categoriesMap :: "ShuffledQuestion list \<Rightarrow> (string \<times> nat) list" where
  "categoriesMap qs = foldl (\<lambda>m q. addPath m (categoryPath q)) [] qs"

text \<open>\<open>Array.from(categoriesMap.entries()).map(([category, depth]) => ({value: category.split(" > ").pop(), label: category, depth}))\<close>.\<close>

definition getIndentedCategories :: "AppState \<Rightarrow> CategoryOption list" where
  "getIndentedCategories s =
     map (\<lambda>(category, depth). \<lparr>opt_value = last (js_split '' > '' category), opt_label = category,
                                opt_depth = depth\<rparr>)
       (categoriesMap (questions s))"

text \<open>\<open>new Set(xs)\<close> read back with \<open>Array.from\<close>: each element is added in order unless
  already present, so the result holds the first occurrences in order.\<close>

definition js_set_from :: "'a list \<Rightarrow> 'a list" where
  "js_set_from xs = foldl (\<lambda>acc x. if x \<in> set acc then acc else acc @ [x]) [] xs"

text \<open>\<open>Array.from(new Set(questions.map((q) => q.class)))\<close>.\<close>

definition classOptions :: "AppState \<Rightarrow> string list" where
  "classOptions s = js_set_from (map qclass (questions s))"

subsection \<open>Splitting what was joined\<close>

lemma split_scan_no_sep:
  "CHR ''>'' \<notin> set x \<Longrightarrow> split_scan '' > '' acc x = [rev acc @ x]"
  by (induction x arbitrary: acc) (auto dest: set_mono_prefix)

lemma split_scan_piece:
  "CHR ''>'' \<notin> set x \<Longrightarrow> split_scan '' > '' acc (x @ '' > '' @ rest) = (rev acc @ x) # split_scan '' > '' [] rest"
proof (induction x arbitrary: acc)
  case Nil
  then show ?case by simp
next
  case (Cons c cs)
  have "\<not> prefix '' > '' (c # cs @ '' > '' @ rest)"
    using Cons.prems by (cases cs) auto
  with Cons show ?case by simp
qed

lemma js_split_join:
  "xs \<noteq> [] \<Longrightarrow> \<forall>x\<in>set xs. CHR ''>'' \<notin> set x \<Longrightarrow> js_split '' > '' (js_join '' > '' xs) = xs"
proof (induction "'' > ''" xs rule: js_join.induct)
  case (2 x)
  then show ?case by (simp add: js_split_def split_scan_no_sep)
next
  case (3 x y xs)
  then show ?case
    using split_scan_piece[of x "[]" "js_join '' > '' (y # xs)"] by (simp add: js_split_def)
qed simp

subsection \<open>The entries of the map\<close>

lemma map_set_mem: "(k', v') \<in> set (map_set k v m) \<Longrightarrow> (k' = k \<and> v' = v) \<or> (k', v') \<in> set m"
  unfolding map_set_def by (induction m) (auto split: if_splits)

lemma map_fst_map_set_upd:
  "map fst (map (\<lambda>(k', v'). if k' = k then (k, v) else (k', v')) m) = map fst m"
  by (induction m) auto

lemma map_set_distinct: "distinct (map fst m) \<Longrightarrow> distinct (map fst (map_set k v m))"
proof (cases "k \<in> fst ` set m")
  case True
  assume "distinct (map fst m)"
  with True show ?thesis by (simp only: map_set_def if_True map_fst_map_set_upd)
next
  case False
  assume "distinct (map fst m)"
  with False show ?thesis by (simp add: map_set_def)
qed

lemma addPath_fold_mem:
  "(k, d) \<in> set (foldl (\<lambda>m idx. map_set (js_join '' > '' (take (idx + 1) path)) idx m) m L) \<Longrightarrow>
   (k, d) \<in> set m \<or> (d \<in> set L \<and> k = js_join '' > '' (take (d + 1) path))"
  by (induction L arbitrary: m) (auto dest: map_set_mem)

lemma categoriesMap_fold_mem:
  "(k, d) \<in> set (foldl (\<lambda>m q. addPath m (categoryPath q)) m qs) \<Longrightarrow>
   (k, d) \<in> set m \<or> (\<exists>q\<in>set qs. d < length (categoryPath q) \<and> k = js_join '' > '' (take (d + 1) (categoryPath q)))"
proof (induction qs arbitrary: m)
  case Nil
  then show ?case by simp
next
  case (Cons q qs)
  have "(k, d) \<in> set (foldl (\<lambda>m q. addPath m (categoryPath q)) (addPath m (categoryPath q)) qs)"
    using Cons.prems by simp
  from Cons.IH[OF this] show ?case
  proof
    assume "(k, d) \<in> set (addPath m (categoryPath q))"
    then have "(k, d) \<in> set m \<or> (d \<in> set [0..<length (categoryPath q)] \<and>
                 k = js_join '' > '' (take (d + 1) (categoryPath q)))"
      unfolding addPath_def by (rule addPath_fold_mem)
    then show ?thesis by auto
  qed auto
qed

lemma categoriesMap_mem:
  "(k, d) \<in> set (categoriesMap qs) \<Longrightarrow>
   \<exists>q\<in>set qs. d < length (categoryPath q) \<and> k = js_join '' > '' (take (d + 1) (categoryPath q))"
  using categoriesMap_fold_mem[of k d "[]" qs] by (simp add: categoriesMap_def)

lemma getIndentedCategories_mem:
  assumes "\<forall>q\<in>set (questions s). \<forall>t\<in>set (categoryPath q). CHR ''>'' \<notin> set t"
    and "opt \<in> set (getIndentedCategories s)"
  shows "\<exists>q\<in>set (questions s). opt_depth opt < length (categoryPath q) \<and>
           opt_value opt = categoryPath q ! opt_depth opt \<and>
           opt_label opt = js_join '' > '' (take (opt_depth opt + 1) (categoryPath q))"
proof -
  from assms(2) obtain k d where kd: "(k, d) \<in> set (categoriesMap (questions s))"
    and opt: "opt = \<lparr>opt_value = last (js_split '' > '' k), opt_label = k, opt_depth = d\<rparr>"
    by (auto simp: getIndentedCategories_def)
  from categoriesMap_mem[OF kd] obtain q where q: "q \<in> set (questions s)"
    and d: "d < length (categoryPath q)" and k: "k = js_join '' > '' (take (d + 1) (categoryPath q))"
    by blast
  have "\<forall>x\<in>set (take (d + 1) (categoryPath q)). CHR ''>'' \<notin> set x"
    using assms(1) q by (auto dest: in_set_takeD)
  then have "js_split '' > '' k = take (d + 1) (categoryPath q)"
    unfolding k using d by (intro js_split_join) auto
  then have "last (js_split '' > '' k) = categoryPath q ! d"
    using d by (simp add: take_Suc_conv_app_nth)
  with q d k opt show ?thesis by auto
qed

text \<open>
  C27: when no section title contains \<open>'>'\<close>, every category the practice selector
  offers selects at least one question: with no class chosen, choosing the option leaves a
  non-empty practice list.
\<close>

theorem category_option_selects:
  assumes "\<forall>q\<in>set (questions s). \<forall>t\<in>set (categoryPath q). CHR ''>'' \<notin> set t"
    and "opt \<in> set (getIndentedCategories s)" and "selectedClass s = []"
  shows "filteredQuestions (chooseCategory (opt_value opt) s) \<noteq> []"
proof -
  from getIndentedCategories_mem[OF assms(1,2)] obtain q where q: "q \<in> set (questions s)"
    and v: "opt_value opt = categoryPath q ! opt_depth opt" "opt_depth opt < length (categoryPath q)"
    by blast
  have "q \<in> set (filteredQuestions (chooseCategory (opt_value opt) s))"
    using q v assms(3) by (auto simp: filteredQuestions_def chooseCategory_def)
  then show ?thesis by auto
qed

lemma addPath_distinct:
  "distinct (map fst m) \<Longrightarrow> distinct (map fst (addPath m path))"
proof -
  have "distinct (map fst m) \<Longrightarrow>
        distinct (map fst (foldl (\<lambda>m idx. map_set (js_join '' > '' (take (idx + 1) path)) idx m) m L))"
    for L m by (induction L arbitrary: m) (simp_all add: map_set_distinct)
  then show "distinct (map fst m) \<Longrightarrow> distinct (map fst (addPath m path))"
    by (simp add: addPath_def)
qed

lemma categoriesMap_distinct: "distinct (map fst (categoriesMap qs))"
proof -
  have "distinct (map fst m) \<Longrightarrow> distinct (map fst (foldl (\<lambda>m q. addPath m (categoryPath q)) m qs))"
    for m by (induction qs arbitrary: m) (simp_all add: addPath_distinct)
  then show ?thesis by (simp add: categoriesMap_def)
qed

text \<open>
  The category selector never offers two options with the same label (the React key): a
  \<open>Map\<close> holds each key once, whatever the order and repetition of the paths.
\<close>

theorem category_labels_distinct: "distinct (map opt_label (getIndentedCategories s))"
proof -
  have "map opt_label (getIndentedCategories s) = map fst (categoriesMap (questions s))"
    by (induction "categoriesMap (questions s)") (auto simp: getIndentedCategories_def)
  then show ?thesis by (simp add: categoriesMap_distinct)
qed

subsection \<open>The class options\<close>

lemma js_set_from_fold:
  "foldl (\<lambda>acc x. if x \<in> set acc then acc else acc @ [x]) acc xs = acc @ filter (\<lambda>x. x \<notin> set acc) (rev (remdups (rev xs)))"
proof (induction xs arbitrary: acc rule: rev_induct)
  case Nil
  then show ?case by simp
next
  case (snoc x xs)
  then show ?case by (auto simp: filter_empty_conv)
qed

lemma js_set_from_remdups: "js_set_from xs = rev (remdups (rev xs))"
  using js_set_from_fold[of "[]" xs] by (simp add: js_set_from_def)

lemma set_classOptions: "set (classOptions s) = qclass ` set (questions s)"
  by (simp add: classOptions_def js_set_from_remdups)

text \<open>
  C36: every class the class selector offers selects at least one question: with no
  category chosen, choosing it leaves a non-empty practice list; the options are distinct.
\<close>

theorem class_option_selects:
  assumes "c \<in> set (classOptions s)" "selectedCategory s = []"
  shows "filteredQuestions (chooseClass c s) \<noteq> [] \<and> distinct (classOptions s)"
proof -
  from assms(1) obtain q where q: "q \<in> set (questions s)" "qclass q = c"
    by (auto simp: set_classOptions)
  then have "q \<in> set (filteredQuestions (chooseClass c s))"
    using assms(2) by (auto simp: filteredQuestions_def chooseClass_def)
  then show ?thesis by (auto simp: classOptions_def js_set_from_remdups)
qed

end
