(* ===== verification/Errors.thy ===== *)
theory Errors
  imports Invariants
begin

text \<open>
  The error paths of the simulation handlers of \<open>src/src/App.tsx\<close>: exactly when each
  handler throws a \<open>TypeError\<close>.  The page never offers an event in a state where its
  handler would throw (\<open>Behaviour\<close>); these lemmas say what the guards protect against.
\<close>

text \<open>
  C31: \<open>handleResolve\<close> throws exactly when an answer is selected (a non-empty id) and one
  of \<open>simQuestions[partIndex]\<close>, its entry \<open>[qIndex]\<close>, or \<open>results[partIndex]\<close> is
  undefined; without a selection it returns before reading anything.
\<close>

theorem handleResolve_error:
  "handleResolve s = Inl e \<longleftrightarrow>
     (\<exists>a. selected s = Some a \<and> a \<noteq> []) \<and>
     \<not> (partIndex s < length (simQuestions s) \<and> qIndex s < length (simQuestions s ! partIndex s) \<and>
        partIndex s < length (results s))"
  by (cases e) (auto simp: handleResolve_def js_nth_def split: option.splits)

text \<open>
  C32: \<open>startSimulation\<close> throws exactly for an exam type that is not a key of the
  registry (\<open>parts.map\<close> of \<open>undefined\<close>); every registered scheme has a first part, so
  \<open>parts[0].durationMin\<close> never throws.
\<close>

theorem startSimulation_error: "startSimulation bs s = Inl e \<longleftrightarrow> examType s \<notin> set examTypes"
proof (cases "examConfigOf (examType s)")
  case None
  then show ?thesis using examConfigOf_Some_iff[of "examType s"]
    by (cases e) (simp add: startSimulation_def)
next
  case (Some parts)
  then obtain p0 ps where "parts = p0 # ps" using examConfigOf_nonempty by (cases parts) auto
  with Some show ?thesis using examConfigOf_Some_iff[of "examType s"]
    by (simp add: startSimulation_def Let_def)
qed

text \<open>
  C33: the navigation handlers: \<open>handleNext\<close> throws exactly when
  \<open>simQuestions[partIndex]\<close> is undefined; \<open>handleContinue\<close> throws exactly when there is a
  next part but the scheme of the exam type has no entry for it (or the type is unknown).
\<close>

theorem navigation_errors:
  "(handleNext s = Inl e \<longleftrightarrow> length (simQuestions s) \<le> partIndex s) \<and>
   (handleContinue s = Inl e \<longleftrightarrow>
      Suc (partIndex s) < length (simQuestions s) \<and>
      (case examConfigOf (examType s) of None \<Rightarrow> True | Some parts \<Rightarrow> length parts \<le> Suc (partIndex s)))"
  by (cases e) (auto simp: handleNext_def handleNext_in_def handleContinue_def js_nth_def Let_def
      split: option.splits)

end
