(* ===== verification/MathText.thy ===== *)
theory MathText
  imports Prelude
begin

text \<open>
  \<open>renderMath\<close> of \<open>src/src/App.tsx\<close> (lines 91-112): two global regular-expression
  replacements over the question text, first \<open>/\$(.*?)\$/g\<close> (inline formulas) and then
  \<open>/\$\$(.*?)\$\$/g\<close> (display formulas) on the result, each match replaced by the HTML
  KaTeX renders for the group.  The replacement callbacks are parameters (\<open>kx\<close> inline,
  \<open>kxd\<close> display); \<open>katexCallback\<close> builds one from KaTeX, itself a parameter that
  returns HTML or throws, with the \<open>catch\<close> branch that prints the error.  \<open>.\<close> matches any character
  but a line terminator; the lazy group stops at the first closing delimiter; matching
  resumes after a match.  Text is a list of HOL's 8-bit \<open>char\<close>, so \<open>line_terminator\<close>
  lists the two terminators of that alphabet, LF and CR; the other two that \<open>.\<close> rejects,
  U+2028 and U+2029, are not characters of the model, and the lemmas speak of texts without
  them.
\<close>

definition line_terminator :: "char \<Rightarrow> bool" where
  "line_terminator c \<longleftrightarrow> c = CHR 0x0A \<or> c = CHR 0x0D"

text \<open>The group of \<open>\$(.*?)\$\<close> after an opening \<open>$\<close>: the text up to the next \<open>$\<close>, if
  no line terminator comes first.\<close>

fun inline_body :: "string \<Rightarrow> string option" where
  "inline_body [] = None"
| "inline_body (c # cs) =
     (if c = CHR ''$'' then Some []
      else if line_terminator c then None
      else map_option (Cons c) (inline_body cs))"

text \<open>The group of \<open>\$\$(.*?)\$\$\<close> after an opening \<open>$$\<close>: the text up to the next
  \<open>$$\<close>, if no line terminator comes first.\<close>

fun block_body :: "string \<Rightarrow> string option" where
  "block_body [] = None"
| "block_body [c] = None"
| "block_body (c # d # cs) =
     (if c = CHR ''$'' \<and> d = CHR ''$'' then Some []
      else if line_terminator c then None
      else map_option (Cons c) (block_body (d # cs)))"

text \<open>\<open>text.replace(/\$(.*?)\$/g, (_, m) => kx(m))\<close>.\<close>

function replace_inline :: "(string \<Rightarrow> string) \<Rightarrow> string \<Rightarrow> string" where
  "replace_inline kx [] = []"
| "replace_inline kx (c # cs) =
     (if c = CHR ''$''
      then (case inline_body cs of
              Some m \<Rightarrow> kx m @ replace_inline kx (drop (Suc (length m)) cs)
            | None \<Rightarrow> c # replace_inline kx cs)
      else c # replace_inline kx cs)"
  by pat_completeness auto
termination
  by (relation "measure (\<lambda>(kx, s). length s)") auto

text \<open>\<open>text.replace(/\$\$(.*?)\$\$/g, (_, m) => kxd(m))\<close>.\<close>

function replace_block :: "(string \<Rightarrow> string) \<Rightarrow> string \<Rightarrow> string" where
  "replace_block kxd [] = []"
| "replace_block kxd [c] = [c]"
| "replace_block kxd (c # d # cs) =
     (if c = CHR ''$'' \<and> d = CHR ''$''
      then (case block_body cs of
              Some m \<Rightarrow> kxd m @ replace_block kxd (drop (length m + 2) cs)
            | None \<Rightarrow> c # replace_block kxd (d # cs))
      else c # replace_block kxd (d # cs))"
  by pat_completeness auto
termination
  by (relation "measure (\<lambda>(kxd, s). length s)") auto

text \<open>The HTML \<open>renderMath\<close> puts into its \<open>div\<close>.\<close>

definition renderMath :: "(string \<Rightarrow> string) \<Rightarrow> (string \<Rightarrow> string) \<Rightarrow> string \<Rightarrow> string" where
  "renderMath kx kxd text = replace_block kxd (replace_inline kx text)"

text \<open>
  The callback of either pattern: \<open>katex.renderToString(match, ...)\<close> in a \<open>try\<close>; KaTeX
  returns its HTML (\<open>Inr\<close>) or throws an error with a message (\<open>Inl\<close>), which the
  \<open>catch\<close> prints as a red LaTeX-Fehler span.
\<close>

definition katexCallback :: "(string \<Rightarrow> string + string) \<Rightarrow> string \<Rightarrow> string" where
  "katexCallback katex m =
     (case katex m of
        Inr html \<Rightarrow> html
      | Inl msg \<Rightarrow> ''<span style='' @ [CHR 0x22] @ ''color: red;'' @ [CHR 0x22] @ ''>LaTeX-Fehler: '' @ msg @
                   ''</span>'')"

text \<open>No two adjacent dollar signs.\<close>

fun no_dollar_pair :: "string \<Rightarrow> bool" where
  "no_dollar_pair (c # d # cs) = (\<not> (c = CHR ''$'' \<and> d = CHR ''$'') \<and> no_dollar_pair (d # cs))"
| "no_dollar_pair _ = True"

lemma replace_block_id: "no_dollar_pair s \<Longrightarrow> replace_block kxd s = s"
  by (induction kxd s rule: replace_block.induct) auto

lemma no_dollar_pair_Cons: "c \<noteq> CHR ''$'' \<Longrightarrow> no_dollar_pair (c # s) = no_dollar_pair s"
  by (cases s) auto

lemma no_dollar_pair_append:
  "CHR ''$'' \<notin> set a \<Longrightarrow> no_dollar_pair (a @ b) = no_dollar_pair b"
proof (induction a)
  case Nil
  then show ?case by simp
next
  case (Cons x a)
  then have "x \<noteq> CHR ''$''" by auto
  with Cons show ?case by (simp add: no_dollar_pair_Cons)
qed

lemma inline_body_dollar: "inline_body (CHR ''$'' # cs) = Some []"
  by simp

lemma inline_body_no_dollar: "inline_body s = Some m \<Longrightarrow> CHR ''$'' \<notin> set m"
  by (induction s arbitrary: m) (auto split: if_splits)

lemma no_dollar_pair_replace_inline:
  "(\<And>t. CHR ''$'' \<notin> set t \<Longrightarrow> CHR ''$'' \<notin> set (kx t)) \<Longrightarrow> no_dollar_pair (replace_inline kx s)"
proof (induction kx s rule: replace_inline.induct)
  case (1 kx)
  then show ?case by simp
next
  case (2 kx c cs)
  show ?case
  proof (cases "c = CHR ''$''")
    case False
    with "2.IH"(3) "2.prems" show ?thesis by (simp add: no_dollar_pair_Cons)
  next
    case c: True
    show ?thesis
    proof (cases "inline_body cs")
      case (Some m)
      have "no_dollar_pair (replace_inline kx (drop (Suc (length m)) cs))"
        using "2.IH"(2)[OF c Some] "2.prems" by blast
      have "CHR ''$'' \<notin> set (kx m)" using "2.prems" inline_body_no_dollar[OF Some] by blast
      with c Some \<open>no_dollar_pair (replace_inline kx (drop (Suc (length m)) cs))\<close> show ?thesis
        by (simp add: no_dollar_pair_append)
    next
      case None
      then have cs: "cs = [] \<or> (\<exists>d ds. cs = d # ds \<and> d \<noteq> CHR ''$'')"
        by (cases cs) auto
      have "no_dollar_pair (replace_inline kx cs)" using "2.IH"(1)[OF c None] "2.prems" by blast
      with c None cs show ?thesis by (auto simp: no_dollar_pair_Cons)
    qed
  qed
qed

lemma inline_body_append:
  "list_all (\<lambda>c. c \<noteq> CHR ''$'' \<and> \<not> line_terminator c) x \<Longrightarrow> inline_body (x @ CHR ''$'' # r) = Some x"
  by (induction x) auto

lemma no_dollar_pair_free: "CHR ''$'' \<notin> set a \<Longrightarrow> no_dollar_pair a"
  using no_dollar_pair_append[of a "[]"] by simp

text \<open>
  C37: an inline formula is rendered by KaTeX: a text \<open>$x$\<close> whose formula \<open>x\<close> holds no
  \<open>$\<close> and no line break becomes the inline HTML of \<open>x\<close> (for a renderer that adds no
  \<open>$\<close> of its own).
\<close>

theorem renderMath_inline:
  assumes "list_all (\<lambda>c. c \<noteq> CHR ''$'' \<and> \<not> line_terminator c) x"
    "\<And>t. CHR ''$'' \<notin> set t \<Longrightarrow> CHR ''$'' \<notin> set (kx t)"
  shows "renderMath kx kxd (CHR ''$'' # x @ ''$'') = kx x"
proof -
  have "replace_inline kx (CHR ''$'' # x @ ''$'') = kx x"
    using inline_body_append[OF assms(1), of "[]"] by simp
  moreover have "CHR ''$'' \<notin> set x" using assms(1) by (auto simp: list_all_iff)
  ultimately show ?thesis
    using replace_block_id[OF no_dollar_pair_free[OF assms(2)]] by (simp add: renderMath_def)
qed

text \<open>
  C38: display formulas are never rendered.  The inline pattern runs first and takes every
  \<open>$$\<close> as an empty inline formula, so its result holds no two adjacent \<open>$\<close> and the
  display replacement changes nothing: \<open>renderMath\<close> is the inline replacement alone and
  KaTeX's display mode is never called (for an inline renderer that adds no \<open>$\<close>
  of its own).
\<close>

theorem renderMath_display_dead:
  "(\<And>t. CHR ''$'' \<notin> set t \<Longrightarrow> CHR ''$'' \<notin> set (kx t)) \<Longrightarrow>
   renderMath kx kxd text = replace_inline kx text"
  by (simp add: renderMath_def replace_block_id no_dollar_pair_replace_inline)

end
