(* ===== verification/PadLoop.thy ===== *)
theory PadLoop
  imports PartBuilder "HOL-Library.While_Combinator"
begin

text \<open>
  The padding loop of \<open>startSimulation\<close> (line 288) written as the source writes it, a
  \<open>while\<close> loop over the mutable \<open>sel\<close>:
  \<open>while (sel.length < part.count && pool.length) sel.push(pool[sel.length % pool.length])\<close>.
  \<open>while_option\<close> is \<open>None\<close> when the loop does not end; the lemmas show that it always
  ends, with the result of the recursive \<open>pad\<close> the part builder uses.
\<close>

definition pad_while :: "nat \<Rightarrow> 'a list \<Rightarrow> 'a list \<Rightarrow> 'a list option" where
  "pad_while n pool sel =
     while_option (\<lambda>sel. length sel < n \<and> length pool \<noteq> 0)
       (\<lambda>sel. sel @ [pool ! (length sel mod length pool)]) sel"

text \<open>
  C39: the padding loop terminates on every input, and its result is \<open>pad\<close>: the loop
  never runs forever, also for an empty pool (where \<open>pool.length\<close> stops it at once).
\<close>

theorem pad_while_terminates: "pad_while n pool sel = Some (pad n pool sel)"
proof (induction n pool sel rule: pad.induct)
  case (1 n pool sel)
  show ?case
  proof (cases "length sel < n \<and> length pool \<noteq> 0")
    case True
    have "pad_while n pool sel = pad_while n pool (sel @ [pool ! (length sel mod length pool)])"
      unfolding pad_while_def by (subst while_option_unfold) (simp only: if_P[OF True])
    moreover have "pad n pool sel = pad n pool (sel @ [pool ! (length sel mod length pool)])"
      using True by (simp add: pad.simps[of n pool sel])
    ultimately show ?thesis using "1.IH" True by simp
  next
    case False
    have "pad_while n pool sel = Some sel"
      unfolding pad_while_def by (subst while_option_unfold) (simp only: if_not_P[OF False])
    moreover have "pad n pool sel = sel" using False by (simp add: pad.simps[of n pool sel])
    ultimately show ?thesis by simp
  qed
qed

end
