(* ===== verification/Cards.thy ===== *)
theory Cards
  imports ExamRun MathText
begin

text \<open>
  The content of the two question cards of \<open>src/src/App.tsx\<close>: the simulation card
  (lines 463-560) and the practice card (lines 626-683).  Each card is a record of the
  strings the JSX puts on the page: the title, the clock, the progress line, the question
  text through \<open>renderMath\<close> (MathText), the image sources \<open>/svgs/<id>.svg\<close> and one
  record per answer button with its key, its label \<open>String.fromCharCode(65 + index)\<close>, its
  text, its optional image and caption, its background colour and whether it is disabled;
  below the buttons the Aufloesen button or the verdict.  Styles other than the background
  colour, the \<open>alt\<close> texts and the markup are left out.
\<close>

subsection \<open>JavaScript string helpers\<close>

text \<open>
  \<open>Number.prototype.toString()\<close> of a non-negative integer: its decimal digits, as
  \<open>stringFromNat\<close> of the Lem library builds them.
\<close>

fun js_digits :: "nat \<Rightarrow> string" where
  "js_digits n =
     (if n < 10 then [char_of (48 + n)] else js_digits (n div 10) @ [char_of (48 + n mod 10)])"

declare js_digits.simps [simp del]

text \<open>\<open>s.padStart(n, c)\<close> with a one-character fill string.\<close>

definition padStart :: "nat \<Rightarrow> char \<Rightarrow> string \<Rightarrow> string" where
  "padStart n c s = replicate (n - length s) c @ s"

text \<open>
  \<open>String.fromCharCode(n)\<close>: the character with code \<open>n\<close>; HOL's \<open>char\<close> holds the codes
  below 256, which covers the four labels \<open>A\<close> to \<open>D\<close>.
\<close>

definition fromCharCode :: "nat \<Rightarrow> char" where
  "fromCharCode n = char_of n"

text \<open>\<open>toLowerCase()\<close> on the ASCII letters (answer ids are \<open>A\<close> to \<open>D\<close>).\<close>

definition js_lower :: "string \<Rightarrow> string" where
  "js_lower s = map (\<lambda>c. let k = (of_char c :: nat) in if 65 \<le> k \<and> k \<le> 90 then char_of (k + 32) else c) s"

subsection \<open>Pictures\<close>

text \<open>
  \<open>q[`picture_${key}`]\<close>: the dynamic field read of the question object; a key that names
  no picture field is \<open>undefined\<close>.
\<close>

definition pictureField :: "'a Question_scheme \<Rightarrow> string \<Rightarrow> string option" where
  "pictureField q key =
     (if key = ''picture_question'' then picture_question q
      else if key = ''picture_a'' then picture_a q
      else if key = ''picture_b'' then picture_b q
      else if key = ''picture_c'' then picture_c q
      else if key = ''picture_d'' then picture_d q
      else None)"

text \<open>
  \<open>{p && (<img src={`/svgs/${p}.svg`} />)}\<close>: an absent or empty identifier shows no image.
\<close>

definition svgImage :: "string option \<Rightarrow> string option" where
  "svgImage p = (case p of None \<Rightarrow> None | Some x \<Rightarrow> if x = [] then None else Some (''/svgs/'' @ x @ ''.svg''))"

subsection \<open>Answer buttons\<close>

record AnswerButton =
  btn_key :: string
  btn_label :: string
  btn_text :: string
  btn_caption :: "string option"
  btn_image :: "string option"
  btn_colour :: string
  btn_disabled :: bool

text \<open>The background colour of a simulation answer button (lines 494-502).\<close>

definition simColour :: "bool \<Rightarrow> string option \<Rightarrow> Answer \<Rightarrow> string" where
  "simColour showSol sel opt =
     (if \<not> showSol then (if Some (answer_id opt) = sel then ''#2c5282'' else ''#3182ce'')
      else if isCorrect opt then ''#38a169''
      else if Some (answer_id opt) = sel then ''#e53e3e'' else ''#3182ce'')"

text \<open>
  One answer button of the simulation card (lines 488-521): disabled once the solution is
  shown; the image of \<open>picture_<id in lower case>\<close> with that lower-case id as caption.
\<close>

definition simButton ::
  "(string \<Rightarrow> string) \<Rightarrow> (string \<Rightarrow> string) \<Rightarrow> AppState \<Rightarrow> ShuffledQuestion \<Rightarrow> nat \<times> Answer \<Rightarrow> AnswerButton" where
  "simButton kx kxd s q io =
     (case io of (i, opt) \<Rightarrow>
        let low = js_lower (answer_id opt); img = svgImage (pictureField q (''picture_'' @ low)) in
        \<lparr>btn_key = answer_id opt, btn_label = [fromCharCode (65 + i), CHR '':''],
         btn_text = renderMath kx kxd (answer_text opt),
         btn_caption = map_option (\<lambda>_. low) img, btn_image = img,
         btn_colour = simColour (showSolution s) (selected s) opt,
         btn_disabled = showSolution s\<rparr>)"

text \<open>The background colour of a practice answer button (lines 646-651).\<close>

definition lernColour :: "string option \<Rightarrow> Answer \<Rightarrow> string" where
  "lernColour chosen opt =
     (if chosen = Some (answer_id opt) then (if isCorrect opt then ''#38a169'' else ''#e53e3e'')
      else ''#3182ce'')"

text \<open>One answer button of the practice card (lines 642-673): never disabled, no caption.\<close>

definition lernButton ::
  "(string \<Rightarrow> string) \<Rightarrow> (string \<Rightarrow> string) \<Rightarrow> AppState \<Rightarrow> ShuffledQuestion \<Rightarrow> nat \<times> Answer \<Rightarrow> AnswerButton" where
  "lernButton kx kxd s q io =
     (case io of (i, opt) \<Rightarrow>
        \<lparr>btn_key = answer_id opt, btn_label = [fromCharCode (65 + i), CHR '':''],
         btn_text = renderMath kx kxd (answer_text opt), btn_caption = None,
         btn_image = svgImage (pictureField q (''picture_'' @ js_lower (answer_id opt))),
         btn_colour = lernColour (selectedAnswer s (number q)) opt,
         btn_disabled = False\<rparr>)"

subsection \<open>The simulation card\<close>

text \<open>\<open>minutes.toString().padStart(2, "0")\<close>:\<open>seconds.toString().padStart(2, "0")\<close>.\<close>

definition clockText :: "nat \<Rightarrow> string" where
  "clockText t =
     padStart 2 CHR ''0'' (js_digits (t div 60)) @ '':'' @ padStart 2 CHR ''0'' (js_digits (t mod 60))"

text \<open>
  Below the buttons: the Aufloesen button, disabled while \<open>!selected\<close>, or the verdict
  \<open>answers.find((a) => a.id === selected)?.isCorrect\<close> and the Weiter button.
\<close>

datatype SimFooter = ResolveButton (resolve_disabled: bool) | Verdict string

definition simVerdict :: "string option \<Rightarrow> ShuffledQuestion \<Rightarrow> string" where
  "simVerdict sel q =
     (if (case sel of None \<Rightarrow> False | Some a \<Rightarrow> answerCorrect a q) then ''Richtig!'' else ''Leider falsch.'')"

record SimCard =
  sim_title :: string
  sim_clock :: string
  sim_progress :: string
  sim_text :: string
  sim_image :: "string option"
  sim_buttons :: "AnswerButton list"
  sim_footer :: SimFooter

definition simCard ::
  "(string \<Rightarrow> string) \<Rightarrow> (string \<Rightarrow> string) \<Rightarrow> AppState \<Rightarrow> ExamQuestion \<Rightarrow> SimCard" where
  "simCard kx kxd s eq =
     (let q = question eq in
      \<lparr>sim_title = number q @ '' - '' @ partLabel eq,
       sim_clock = clockText (timeLeft s),
       sim_progress = ''Frage '' @ js_digits (qIndex s + 1) @ '' / '' @
                      js_digits (length (simQuestions s ! partIndex s)),
       sim_text = renderMath kx kxd (Question.question q),
       sim_image = svgImage (picture_question q),
       sim_buttons = map (simButton kx kxd s q) (enumerate 0 (answers q)),
       sim_footer =
         (if \<not> showSolution s
          then ResolveButton (case selected s of None \<Rightarrow> True | Some a \<Rightarrow> a = [])
          else Verdict (simVerdict (selected s) q))\<rparr>)"

subsection \<open>The practice card\<close>

record LernCard =
  lern_title :: string
  lern_text :: string
  lern_image :: "string option"
  lern_buttons :: "AnswerButton list"
  lern_verdict :: "string option"

text \<open>
  \<open>{selectedAnswer[q.number] && <p>{... ?.isCorrect ? "Richtig!" : "Leider falsch."}</p>}\<close>.
\<close>

definition lernCard ::
  "(string \<Rightarrow> string) \<Rightarrow> (string \<Rightarrow> string) \<Rightarrow> AppState \<Rightarrow> ShuffledQuestion \<Rightarrow> LernCard" where
  "lernCard kx kxd s q =
     \<lparr>lern_title = number q @ '':'',
      lern_text = renderMath kx kxd (Question.question q),
      lern_image = svgImage (picture_question q),
      lern_buttons = map (lernButton kx kxd s q) (enumerate 0 (answers q)),
      lern_verdict =
        (case selectedAnswer s (number q) of
           None \<Rightarrow> None
         | Some a \<Rightarrow> if a = [] then None
                     else Some (if answerCorrect a q then ''Richtig!'' else ''Leider falsch.''))\<rparr>"


subsection \<open>Invariants and readings\<close>

text \<open>
  Once the solution is shown in simulation mode, a non-empty answer is selected, the current
  question is defined and the last verdict recorded for the part is that of the selected
  answer on the current question.
\<close>

definition verdict_inv :: "AppState \<Rightarrow> bool" where
  "verdict_inv s \<longleftrightarrow>
     (mode s = Simulation \<and> showSolution s \<longrightarrow>
        (\<exists>sel eq r. selected s = Some sel \<and> current s = Some eq \<and>
                    js_nth (results s) (partIndex s) = Some r \<and> r \<noteq> [] \<and>
                    last r = answerCorrect sel (question eq)))"

text \<open>Every answer recorded in \<open>selectedAnswer\<close> is one of the ids \<open>A\<close> to \<open>D\<close>.\<close>

definition lern_answers_inv :: "AppState \<Rightarrow> bool" where
  "lern_answers_inv s \<longleftrightarrow> (\<forall>n a. selectedAnswer s n = Some a \<longrightarrow> a \<in> {''A'', ''B'', ''C'', ''D''})"

text \<open>The value of a clock text \<open>MM:SS\<close> in seconds, reading its four digits.\<close>

definition digit_val :: "char \<Rightarrow> nat" where
  "digit_val c = of_char c - 48"

definition readClock :: "string \<Rightarrow> nat" where
  "readClock s = (10 * digit_val (s ! 0) + digit_val (s ! 1)) * 60 + 10 * digit_val (s ! 3) + digit_val (s ! 4)"

subsection \<open>The verdict of a resolved question\<close>

lemma current_cong:
  "mode t = mode s \<Longrightarrow> simQuestions t = simQuestions s \<Longrightarrow> partIndex t = partIndex s \<Longrightarrow>
   qIndex t = qIndex s \<Longrightarrow> current t = current s"
  by (simp add: current_def cong: option.case_cong)

lemma verdict_inv_off: "\<not> (mode t = Simulation \<and> showSolution t) \<Longrightarrow> verdict_inv t"
  unfolding verdict_inv_def by blast

lemma verdict_inv_same:
  assumes "verdict_inv s" "mode t = mode s" "showSolution t = showSolution s" "selected t = selected s"
    "simQuestions t = simQuestions s" "partIndex t = partIndex s" "qIndex t = qIndex s"
    "results t = results s"
  shows "verdict_inv t"
proof -
  have "current t = current s" using assms(2,5-7) by (rule current_cong)
  with assms show ?thesis by (simp add: verdict_inv_def)
qed

lemma verdict_inv_resolve:
  assumes en: "enabled s ClickResolve" and h: "handleResolve s = Inr t"
  shows "verdict_inv t"
proof -
  from en obtain eq sel where cur: "current s = Some eq" and sel: "selected s = Some sel" "sel \<noteq> []"
    by (auto split: option.splits)
  then have m: "mode s = Simulation" and p: "js_nth (simQuestions s) (partIndex s) = Some (simQuestions s ! partIndex s)"
    and q: "js_nth (simQuestions s ! partIndex s) (qIndex s) = Some eq"
    by (auto simp: current_Some_iff js_simps)
  obtain r where r: "js_nth (results s) (partIndex s) = Some r"
    and t: "t = s\<lparr>results := (results s)[partIndex s := r @ [answerCorrect sel (question eq)]],
                  showSolution := True\<rparr>"
    using h sel p q by (auto simp: handleResolve_def split: option.splits)
  have "current t = current s" unfolding t by (rule current_cong) simp_all
  with cur have "current t = Some eq" by simp
  moreover have "js_nth (results t) (partIndex s) = Some (r @ [answerCorrect sel (question eq)])"
    using r unfolding t by (simp add: js_simps)
  ultimately show ?thesis using sel unfolding verdict_inv_def by (simp add: t)
qed

lemma verdict_inv_handle:
  assumes inv: "verdict_inv s" and en: "enabled s e" and h: "handle s e = Inr t"
  shows "verdict_inv t"
proof (cases e)
  case ClickResolve
  with en h show ?thesis by (simp add: verdict_inv_resolve)
next
  case ClickNext
  with h have "handleNext_in (partIndex s) (qIndex s) (simQuestions s) s = Inr t" by (simp add: handleNext_def)
  then have "\<not> showSolution t \<or> mode t = PartSummary" by (auto dest!: handleNext_in_Inr)
  then show ?thesis by (auto intro: verdict_inv_off)
next
  case Tick
  with h have "timerTick s = Inr t" by simp
  then consider "t = s" | "t = s\<lparr>timeLeft := timeLeft s - 1\<rparr>" | "\<not> showSolution t" | "mode t = PartSummary"
    by (auto dest!: timerTick_Inr)
  then show ?thesis
  proof cases
    case 2
    show ?thesis by (rule verdict_inv_same[OF inv]) (simp_all add: 2)
  qed (use inv in \<open>simp_all add: verdict_inv_off\<close>)
next
  case ClickContinue
  with h have "handleContinue s = Inr t" by simp
  then have "\<not> showSolution t \<or> mode t = Result" by (auto dest!: handleContinue_Inr)
  then show ?thesis by (auto intro: verdict_inv_off)
next
  case (ClickStart bs)
  with h have "startSimulation bs s = Inr t" by simp
  then have "\<not> showSolution t"
    by (auto simp: startSimulation_def Let_def split: option.splits list.splits)
  then show ?thesis by (simp add: verdict_inv_off)
next
  case (ChooseAnswer a)
  with en h have "\<not> showSolution t" by (auto split: option.splits)
  then show ?thesis by (simp add: verdict_inv_off)
next
  case (LernAnswer a)
  with h obtain q where t: "t = handleAnswerCheck q a s" by (auto split: option.splits)
  show ?thesis by (rule verdict_inv_same[OF inv]) (simp_all add: t handleAnswerCheck_def)
next
  case (FetchDone secs bs)
  with h have t: "t = fetchDone secs bs s" by simp
  show ?thesis by (rule verdict_inv_same[OF inv]) (simp_all add: t fetchDone_def)
next
  case (ChooseExamType k)
  with en h have "mode t = Setup" by auto
  then show ?thesis by (simp add: verdict_inv_off)
next
  case ClickLernmodus
  with h have "mode t = Lernmodus" by (auto simp: enterLernmodus_def)
  then show ?thesis by (simp add: verdict_inv_off)
next
  case ClickPruefung
  with h have "mode t = Setup" by (auto simp: enterSetup_def)
  then show ?thesis by (simp add: verdict_inv_off)
next
  case (ChooseCategory c)
  with en h have "mode t = Lernmodus" by (auto simp: chooseCategory_def)
  then show ?thesis by (simp add: verdict_inv_off)
next
  case (ChooseClass c)
  with en h have "mode t = Lernmodus" by (auto simp: chooseClass_def)
  then show ?thesis by (simp add: verdict_inv_off)
next
  case LernNext
  with en h have "mode t = Lernmodus" by (auto simp: lernNext_def)
  then show ?thesis by (simp add: verdict_inv_off)
qed

lemma verdict_inv_commit [simp]: "verdict_inv (commitEffects t) = verdict_inv t"
proof -
  have "current (commitEffects t) = current t" by (rule current_cong) simp_all
  then show ?thesis by (simp add: verdict_inv_def)
qed

lemma reachable_verdict_inv: "reachable s \<Longrightarrow> verdict_inv s"
proof (induction rule: reachable.induct)
  case init
  show ?case by (simp add: verdict_inv_def initState_def)
next
  case (step s e t)
  from step.hyps(2) show ?case
  proof (cases rule: app_step_cases)
    case disabled
    with step.IH show ?thesis by simp
  next
    case (handled u)
    with verdict_inv_handle[OF step.IH] show ?thesis by simp
  qed
qed

subsection \<open>Buttons\<close>

lemma simButton_fields [simp]:
  "btn_key (simButton kx kxd s q io) = answer_id (snd io)"
  "btn_label (simButton kx kxd s q io) = [fromCharCode (65 + fst io), CHR '':'']"
  "btn_colour (simButton kx kxd s q io) = simColour (showSolution s) (selected s) (snd io)"
  "btn_disabled (simButton kx kxd s q io) = showSolution s"
  by (simp_all add: simButton_def Let_def split: prod.splits)

lemma lernButton_fields [simp]:
  "btn_key (lernButton kx kxd s q io) = answer_id (snd io)"
  "btn_label (lernButton kx kxd s q io) = [fromCharCode (65 + fst io), CHR '':'']"
  "btn_colour (lernButton kx kxd s q io) = lernColour (selectedAnswer s (number q)) (snd io)"
  "btn_disabled (lernButton kx kxd s q io) = False"
  by (simp_all add: lernButton_def split: prod.splits)

lemma map_enumerate_snd [simp]: "map (\<lambda>p. f (snd p)) (enumerate n xs) = map f xs"
  by (induction xs arbitrary: n) simp_all

lemma length_filter_enumerate_snd [simp]:
  "length (filter (\<lambda>p. P (snd p)) (enumerate n xs)) = length (filter P xs)"
  by (induction xs arbitrary: n) simp_all

lemma in_set_enumerate_snd: "p \<in> set (enumerate n xs) \<Longrightarrow> snd p \<in> set xs"
  by (metis enumerate_eq_zip set_zip_rightD surjective_pairing)

lemma count_mset_map: "count (mset (map f xs)) a = length (filter (\<lambda>x. f x = a) xs)"
  by (induction xs) auto

lemma find_unique_key: "distinct (map f xs) \<Longrightarrow> x \<in> set xs \<Longrightarrow> find (\<lambda>a. f a = f x) xs = Some x"
  by (induction xs) (auto simp: image_iff)

lemma wf_question_key_once:
  assumes "wf_question q" "a \<in> {''A'', ''B'', ''C'', ''D''}"
  shows "length (filter (\<lambda>x. answer_id x = a) (answers q)) = 1"
proof -
  have "length (filter (\<lambda>x. answer_id x = a) (answers q)) = count (mset (map answer_id (answers q))) a"
    by (rule count_mset_map[symmetric])
  also have "\<dots> = 1" using assms by (auto simp: wf_question_def)
  finally show ?thesis .
qed

lemma wf_question_one_correct:
  assumes "wf_question q"
  shows "length (filter isCorrect (answers q)) = 1"
proof -
  have "filter isCorrect (answers q) = filter (\<lambda>x. answer_id x = ''A'') (answers q)"
    using assms by (auto simp: wf_question_def list_all_iff intro!: filter_cong)
  with wf_question_key_once[OF assms] show ?thesis by simp
qed

lemma answerCorrect_member:
  "wf_question q \<Longrightarrow> opt \<in> set (answers q) \<Longrightarrow> answerCorrect (answer_id opt) q = isCorrect opt"
  by (simp add: answerCorrect_def find_unique_key wf_question_ids(1))

lemma current_wf:
  assumes "reachable s" "current s = Some eq"
  shows "wf_question (question eq)"
proof -
  have "eq \<in> set (simQuestions s ! partIndex s)" "simQuestions s ! partIndex s \<in> set (simQuestions s)"
    using assms(2) by (auto simp: current_Some_iff)
  with reachable_bank_inv[OF assms(1)] show ?thesis by (auto simp: bank_inv_def list_all_iff)
qed

lemma simCard_keys: "map btn_key (sim_buttons (simCard kx kxd s eq)) = answerIds eq"
  by (simp add: simCard_def Let_def answerIds_def comp_def)

lemma map_enumerate_fst: "map (\<lambda>p. f (fst p)) (enumerate n xs) = map f [n..<n + length xs]"
proof (induction xs arbitrary: n)
  case (Cons x xs)
  have "[n..<n + length (x # xs)] = n # [Suc n..<Suc n + length xs]" by (simp add: upt_conv_Cons del: upt_Suc)
  with Cons.IH show ?case by simp
qed simp



lemma labels_four: "map (\<lambda>i. [fromCharCode (65 + i), CHR '':'']) [0..<4] = [''A:'', ''B:'', ''C:'', ''D:'']"
  by code_simp

lemma simCard_labels:
  "map btn_label (sim_buttons (simCard kx kxd s eq)) =
   map (\<lambda>i. [fromCharCode (65 + i), CHR '':'']) [0..<length (answers (question eq))]"
  by (simp add: simCard_def Let_def comp_def
      map_enumerate_fst[where f = "\<lambda>i. [fromCharCode (65 + i), CHR '':'']"])




lemma simCard_footer:
  "sim_footer (simCard kx kxd s eq) =
     (if \<not> showSolution s then ResolveButton (case selected s of None \<Rightarrow> True | Some a \<Rightarrow> a = [])
      else Verdict (simVerdict (selected s) (question eq)))"
  by (simp add: simCard_def Let_def)

lemma simCard_green_resolved:
  "showSolution s \<Longrightarrow>
   length (filter (\<lambda>b. btn_colour b = ''#38a169'') (sim_buttons (simCard kx kxd s eq))) =
   length (filter isCorrect (answers (question eq)))"
  by (simp add: simCard_def Let_def filter_map comp_def simColour_def)

text \<open>
  C12: once a question of the simulation is resolved, in every reachable state the card
  shows the verdict that was recorded for it (Richtig! exactly when the last result of the
  part is true) and exactly one answer button is green.
\<close>

theorem resolved_card_verdict:
  assumes "reachable s" "current s = Some eq" "showSolution s"
  shows "sim_footer (simCard kx kxd s eq) =
           Verdict (if last (results s ! partIndex s) then ''Richtig!'' else ''Leider falsch.'') \<and>
         length (filter (\<lambda>b. btn_colour b = ''#38a169'') (sim_buttons (simCard kx kxd s eq))) = 1"
proof
  have m: "mode s = Simulation" using assms(2) by (simp add: current_Some_iff)
  from reachable_verdict_inv[OF assms(1)] m assms(3) obtain sel r where
    sel: "selected s = Some sel" and r: "js_nth (results s) (partIndex s) = Some r"
    and last: "last r = answerCorrect sel (question eq)"
    using assms(2) by (auto simp: verdict_inv_def)
  have "results s ! partIndex s = r" using r by (simp add: js_simps)
  with sel last assms(3) show "sim_footer (simCard kx kxd s eq) =
           Verdict (if last (results s ! partIndex s) then ''Richtig!'' else ''Leider falsch.'')"
    by (simp add: simCard_footer simVerdict_def)
next
  show "length (filter (\<lambda>b. btn_colour b = ''#38a169'') (sim_buttons (simCard kx kxd s eq))) = 1"
    using simCard_green_resolved[OF assms(3)] wf_question_one_correct[OF current_wf[OF assms(1,2)]]
    by simp
qed

subsection \<open>The clock\<close>

lemma char_zero: "CHR ''0'' = char_of 48"
  by (simp add: char_of_def)

lemma js_digits_small: "n < 10 \<Longrightarrow> js_digits n = [char_of (48 + n)]"
  by (simp add: js_digits.simps)

lemma two_digits:
  assumes "n < 100"
  shows "padStart 2 CHR ''0'' (js_digits n) = [char_of (48 + n div 10), char_of (48 + n mod 10)]"
proof (cases "n < 10")
  case True
  then show ?thesis by (simp add: js_digits_small padStart_def char_zero)
next
  case False
  with assms show ?thesis by (simp add: js_digits.simps[of n] js_digits_small padStart_def)
qed

lemma clockText_eq:
  assumes "t < 6000"
  shows "clockText t = [char_of (48 + t div 60 div 10), char_of (48 + t div 60 mod 10), CHR '':'',
                        char_of (48 + t mod 60 div 10), char_of (48 + t mod 60 mod 10)]"
  using assms by (simp add: clockText_def two_digits)

lemma digit_val_char [simp]: "d < 10 \<Longrightarrow> digit_val (char_of (48 + d)) = d"
  by (simp add: digit_val_def of_char_of)

lemma clockText_read: "t < 6000 \<Longrightarrow> length (clockText t) = 5 \<and> readClock (clockText t) = t"
  by (simp add: clockText_eq readClock_def)

text \<open>
  C28: in every reachable state with a question on screen the clock reads \<open>MM:SS\<close>, five
  characters whose digits give back \<open>timeLeft\<close>: \<open>padStart(2, "0")\<close> never has to print
  more than two minute digits, since the clock never exceeds 60 minutes.
\<close>

theorem clock_text_roundtrip:
  assumes "reachable s" "current s = Some eq"
  shows "length (sim_clock (simCard kx kxd s eq)) = 5 \<and> readClock (sim_clock (simCard kx kxd s eq)) = timeLeft s"
proof -
  have "mode s = Simulation" using assms(2) by (simp add: current_Some_iff)
  then obtain parts where "timeLeft s \<le> 3600" using clock_part_bound[OF assms(1)] by blast
  then have "timeLeft s < 6000" by simp
  then show ?thesis by (simp add: simCard_def Let_def clockText_read)
qed

subsection \<open>The answers recorded in practice mode\<close>

lemma handle_selectedAnswer:
  "handle s e = Inr t \<Longrightarrow>
   selectedAnswer t = selectedAnswer s \<or> selectedAnswer t = Map.empty \<or>
   (\<exists>q a. e = LernAnswer a \<and> lernCurrent s = Some q \<and> selectedAnswer t = (selectedAnswer s)(number q \<mapsto> a))"
  by (cases e) (auto simp: handler_defs Let_def split: option.splits if_splits list.splits sum.splits)

lemma lernCurrent_wf: "bank_inv s \<Longrightarrow> lernCurrent s = Some q \<Longrightarrow> wf_question q"
  using filteredQuestions_subset[of s]
  by (auto simp: bank_inv_def lernCurrent_def js_simps list_all_iff dest!: nth_mem)

lemma lern_answers_inv_handle:
  assumes inv: "lern_answers_inv s" and b: "bank_inv s" and en: "enabled s e" and h: "handle s e = Inr t"
  shows "lern_answers_inv t"
  using handle_selectedAnswer[OF h]
proof (elim disjE exE conjE)
  fix q a
  assume e: "e = LernAnswer a" and q: "lernCurrent s = Some q"
    and t: "selectedAnswer t = (selectedAnswer s)(number q \<mapsto> a)"
  have "a \<in> set (map answer_id (answers q))" using en e q by simp
  with wf_question_ids(2)[OF lernCurrent_wf[OF b q]] have "a \<in> {''A'', ''B'', ''C'', ''D''}" by blast
  with inv t show ?thesis by (simp add: lern_answers_inv_def)
qed (use inv in \<open>simp_all add: lern_answers_inv_def\<close>)

lemma reachable_lern_answers_inv: "reachable s \<Longrightarrow> lern_answers_inv s"
proof (induction rule: reachable.induct)
  case init
  show ?case by (simp add: lern_answers_inv_def initState_def)
next
  case (step s e t)
  from step.hyps(2) show ?case
  proof (cases rule: app_step_cases)
    case disabled
    with step.IH show ?thesis by simp
  next
    case (handled u)
    with lern_answers_inv_handle[OF step.IH reachable_bank_inv[OF step.hyps(1)]] show ?thesis
      by (simp add: lern_answers_inv_def)
  qed
qed

lemma lernColour_marked: "lernColour c opt \<noteq> ''#3182ce'' \<longleftrightarrow> c = Some (answer_id opt)"
  by (simp add: lernColour_def)

lemma lernColour_green: "c = Some (answer_id opt) \<Longrightarrow> lernColour c opt = ''#38a169'' \<longleftrightarrow> isCorrect opt"
  by (simp add: lernColour_def)

lemma lernCard_marked:
  "length (filter (\<lambda>b. btn_colour b \<noteq> ''#3182ce'') (lern_buttons (lernCard kx kxd s q))) =
   length (filter (\<lambda>x. selectedAnswer s (number q) = Some (answer_id x)) (answers q))"
  unfolding lernCard_def
  by (simp add: filter_map comp_def lernColour_marked
      length_filter_enumerate_snd[where P = "\<lambda>x. selectedAnswer s (number q) = Some (answer_id x)"])

lemma lernCard_button:
  "b \<in> set (lern_buttons (lernCard kx kxd s q)) \<Longrightarrow>
   \<exists>opt\<in>set (answers q). btn_colour b = lernColour (selectedAnswer s (number q)) opt"
  by (fastforce simp: lernCard_def dest: in_set_enumerate_snd)

text \<open>
  C29: in every reachable state of the practice mode, the card of the current question
  colours no button before an answer is recorded for it and exactly one after; the verdict
  is shown exactly when an answer is recorded, and it is Richtig! exactly when the coloured
  button is green.
\<close>

theorem practice_card_marks:
  assumes "reachable s" "mode s = Lernmodus" "lernCurrent s = Some q"
  shows "length (filter (\<lambda>b. btn_colour b \<noteq> ''#3182ce'') (lern_buttons (lernCard kx kxd s q))) =
           (if selectedAnswer s (number q) = None then 0 else 1) \<and>
         (\<forall>b\<in>set (lern_buttons (lernCard kx kxd s q)). btn_colour b \<noteq> ''#3182ce'' \<longrightarrow>
            lern_verdict (lernCard kx kxd s q) =
              Some (if btn_colour b = ''#38a169'' then ''Richtig!'' else ''Leider falsch.'')) \<and>
         (lern_verdict (lernCard kx kxd s q) = None \<longleftrightarrow> selectedAnswer s (number q) = None)"
proof (intro conjI ballI impI)
  have wf: "wf_question q" using lernCurrent_wf[OF reachable_bank_inv[OF assms(1)] assms(3)] .
  have valid: "selectedAnswer s (number q) = Some a \<Longrightarrow> a \<in> {''A'', ''B'', ''C'', ''D''}" for a
    using reachable_lern_answers_inv[OF assms(1)] by (auto simp: lern_answers_inv_def)
  show "length (filter (\<lambda>b. btn_colour b \<noteq> ''#3182ce'') (lern_buttons (lernCard kx kxd s q))) =
          (if selectedAnswer s (number q) = None then 0 else 1)"
  proof (cases "selectedAnswer s (number q)")
    case (Some a)
    then have "filter (\<lambda>x. selectedAnswer s (number q) = Some (answer_id x)) (answers q) =
               filter (\<lambda>x. answer_id x = a) (answers q)"
      by (auto intro: filter_cong)
    with Some wf_question_key_once[OF wf valid[OF Some]] show ?thesis
      by (simp only: lernCard_marked) simp
  qed (simp add: lernCard_marked)
  show "lern_verdict (lernCard kx kxd s q) = None \<longleftrightarrow> selectedAnswer s (number q) = None"
    using valid by (auto simp: lernCard_def split: option.splits)
  fix b
  assume "b \<in> set (lern_buttons (lernCard kx kxd s q))" and m: "btn_colour b \<noteq> ''#3182ce''"
  then obtain opt where opt: "opt \<in> set (answers q)"
    and c: "btn_colour b = lernColour (selectedAnswer s (number q)) opt"
    by (blast dest: lernCard_button)
  have sel: "selectedAnswer s (number q) = Some (answer_id opt)" using m c by (simp add: lernColour_marked)
  have "answer_id opt \<noteq> []" using valid[OF sel] by auto
  with sel c show "lern_verdict (lernCard kx kxd s q) =
              Some (if btn_colour b = ''#38a169'' then ''Richtig!'' else ''Leider falsch.'')"
    by (simp add: lernCard_def lernColour_green answerCorrect_member[OF wf opt])
qed

subsection \<open>The controls the cards offer\<close>


text \<open>
  C18: in every reachable state, the answer buttons of a question on screen are labelled
  \<open>A:\<close> to \<open>D:\<close> by position and carry the four shuffled ids as pairwise distinct React
  keys.
\<close>

theorem answer_buttons_labelled:
  assumes "reachable s" "current s = Some eq"
  shows "map btn_label (sim_buttons (simCard kx kxd s eq)) = [''A:'', ''B:'', ''C:'', ''D:''] \<and>
         distinct (map btn_key (sim_buttons (simCard kx kxd s eq)))"
proof
  have wf: "wf_question (question eq)" by (rule current_wf[OF assms])
  then have "length (map answer_id (answers (question eq))) = length [''A'', ''B'', ''C'', ''D'']"
    unfolding wf_question_def by (blast intro: mset_eq_length)
  then have len: "length (answers (question eq)) = 4" by simp
  show "map btn_label (sim_buttons (simCard kx kxd s eq)) = [''A:'', ''B:'', ''C:'', ''D:'']"
    by (simp only: simCard_labels len labels_four)
  show "distinct (map btn_key (sim_buttons (simCard kx kxd s eq)))"
    using wf_question_ids(1)[OF wf] by (simp add: simCard_keys answerIds_def)
qed

end
