(* ===== verification/PageText.thy ===== *)
theory PageText
  imports Cards Categories
begin

text \<open>
  The texts of the other cards of \<open>src/src/App.tsx\<close>, as the JSX assembles them from its
  text children (JSX drops the whitespace-only lines around an expression): the settings
  card (lines 397-459) with the exam-type selector or label, the Start button and one row
  per part; the part summary (lines 547-554); the rows of the final result (lines 563-576);
  the options of the two practice selectors (lines 584-622) and the text shown when the
  filter leaves no question (line 696).  Numbers are printed by \<open>js_digits\<close> (Cards);
  \<open>Math.round\<close> of \<open>0 / 0\<close> prints \<open>NaN\<close>.
\<close>

text \<open>\<open>Number.prototype.toString()\<close> of an integer.\<close>

definition js_int_text :: "int \<Rightarrow> string" where
  "js_int_text i = (if i < 0 then ''-'' @ js_digits (nat (- i)) else js_digits (nat i))"

subsection \<open>The settings card\<close>

text \<open>\<open>{part.label}: {part.count} Fragen ({part.durationMin} Min.)\<close>.\<close>

definition settingsRowText :: "PartConfig \<Rightarrow> string" where
  "settingsRowText part =
     label part @ '': '' @ js_digits (count_p part) @ '' Fragen ('' @ js_digits (durationMin part) @ '' Min.)''"

text \<open>\<open>{res.length === part.count && <div>{passed ? "Bestanden" : "Nicht bestanden"}</div>}\<close>.\<close>

definition statusText :: "bool option \<Rightarrow> string option" where
  "statusText st = map_option (\<lambda>p. if p then ''Bestanden'' else ''Nicht bestanden'') st"

text \<open>
  The exam type: a selector over \<open>Object.keys(examConfig)\<close> (key, value and text the key)
  in setup mode, the bare \<open>examType\<close> otherwise.
\<close>

datatype ExamTypeControl = ExamTypeSelect "string list" | ExamTypeLabel string

record SettingsText =
  examTypeControl :: ExamTypeControl
  startButton :: bool
  partRows :: "(string \<times> string option) list"

definition settingsText :: "AppState \<Rightarrow> js_error + SettingsText" where
  "settingsText s =
     js_bind (js_get (examConfigOf (examType s))) (\<lambda>parts.
       Inr \<lparr>examTypeControl = (if mode s = Setup then ExamTypeSelect examTypes else ExamTypeLabel (examType s)),
            startButton = (mode s = Setup),
            partRows = map2 (\<lambda>part st. (settingsRowText part, statusText st)) parts
                         (statusView parts (results s))\<rparr>)"

subsection \<open>Part summary and result\<close>

text \<open>\<open>Auswertung {label}\<close> and \<open>Richtig: {corr} / {length}\<close>.\<close>

definition summaryText :: "string \<times> nat \<times> nat \<Rightarrow> string \<times> string" where
  "summaryText v =
     (case v of (lbl, c, n) \<Rightarrow> (''Auswertung '' @ lbl, ''Richtig: '' @ js_digits c @ '' / '' @ js_digits n))"

text \<open>\<open>{label}: {corr} / {_.length} ({Math.round((corr / _.length) * 100)}%)\<close>.\<close>

definition resultRowText :: "resultRow \<Rightarrow> string" where
  "resultRowText r =
     (case r of (lbl, c, n, p) \<Rightarrow>
        lbl @ '': '' @ js_digits c @ '' / '' @ js_digits n @ '' ('' @
        (case p of None \<Rightarrow> ''NaN'' | Some i \<Rightarrow> js_int_text i) @ ''%)'')"

subsection \<open>The practice selectors\<close>

text \<open>An \<open><option>\<close>: its React key (none for the first), its value and its text.\<close>

record SelectOption =
  so_key :: "string option"
  so_value :: string
  so_text :: string

text \<open>\<open>{"\u00A0".repeat(category.depth * 4) + category.value}\<close>, keyed by the label.\<close>

definition categorySelect :: "AppState \<Rightarrow> SelectOption list" where
  "categorySelect s =
     \<lparr>so_key = None, so_value = [], so_text = ''Alle Kategorien''\<rparr> #
     map (\<lambda>c. \<lparr>so_key = Some (opt_label c), so_value = opt_value c,
               so_text = replicate (opt_depth c * 4) (char_of (160::nat)) @ opt_value c\<rparr>)
         (getIndentedCategories s)"

definition classSelect :: "AppState \<Rightarrow> SelectOption list" where
  "classSelect s =
     \<lparr>so_key = None, so_value = [], so_text = ''Alle Klassen''\<rparr> #
     map (\<lambda>c. \<lparr>so_key = Some c, so_value = c, so_text = c\<rparr>) (classOptions s)"

text \<open>Below the selectors: the card of the current question, or Keine Fragen gefunden.\<close>

definition lernText :: "AppState \<Rightarrow> string option" where
  "lernText s = (if filteredQuestions s = [] then Some ''Keine Fragen gefunden.'' else None)"

subsection \<open>Printed numbers read back\<close>

text \<open>The value of a string of decimal digits.\<close>

definition digits_value :: "string \<Rightarrow> nat" where
  "digits_value cs = foldl (\<lambda>n c. 10 * n + digit_val c) 0 cs"

lemma digits_value_snoc [simp]: "digits_value (cs @ [c]) = 10 * digits_value cs + digit_val c"
  by (simp add: digits_value_def)

lemma js_digits_value: "digits_value (js_digits n) = n"
proof (induction n rule: js_digits.induct)
  case (1 n)
  show ?case
  proof (cases "n < 10")
    case True
    then show ?thesis by (simp add: js_digits_small digits_value_def)
  next
    case False
    then have "js_digits n = js_digits (n div 10) @ [char_of (48 + n mod 10)]"
      by (simp add: js_digits.simps[of n])
    with 1 False show ?thesis by simp
  qed
qed

lemma js_digits_inj: "js_digits m = js_digits n \<Longrightarrow> m = n"
  by (metis js_digits_value)

lemma js_digits_zero: "js_digits 0 = ''0''"
  using char_zero[where 'a = nat] by (simp add: js_digits_small)

subsection \<open>Texts and values\<close>

text \<open>The settings card prints the rows of \<open>settingsView\<close> (Views).\<close>

lemma settingsText_rows:
  "settingsText s = Inr t \<Longrightarrow>
   \<exists>rows. settingsView s = Inr rows \<and>
     partRows t = map (\<lambda>(lbl, c, d, st). (lbl @ '': '' @ js_digits c @ '' Fragen ('' @ js_digits d @ '' Min.)'',
                                         statusText st)) rows"
  by (auto simp: settingsText_def settingsView_def settingsRowText_def js_bind_Inr_iff
      split: option.splits intro!: nth_equalityI)

text \<open>An empty part prints \<open>NaN%\<close>.\<close>

lemma resultRowText_empty: "resultRowText (l, c, 0, percent c 0) = l @ '': '' @ js_digits c @ '' / 0 (NaN%)''"
  by (simp add: resultRowText_def percent_def js_digits_zero)

text \<open>The React keys of the two practice selectors are pairwise distinct.\<close>

lemma select_keys_distinct:
  "distinct (map so_key (tl (categorySelect s))) \<and> distinct (map so_key (tl (classSelect s)))"
proof
  have "map so_key (tl (categorySelect s)) = map (Some \<circ> opt_label) (getIndentedCategories s)"
    by (simp add: categorySelect_def)
  then show "distinct (map so_key (tl (categorySelect s)))"
    using category_labels_distinct[of s] by (simp add: distinct_map inj_on_def)
  have "map so_key (tl (classSelect s)) = map Some (classOptions s)"
    by (simp add: classSelect_def)
  then show "distinct (map so_key (tl (classSelect s)))"
    by (simp add: distinct_map inj_on_def classOptions_def js_set_from_remdups)
qed

end
