(* ===== verification/Layout.thy ===== *)
theory Layout
  imports Cards Categories
begin

text \<open>
  The layout components of \<open>src/src/App.tsx\<close> (lines 41-73): \<open>Card\<close>, a \<open>div\<close> with a fixed
  style around its children, and \<open>Button\<close>, a \<open>button\<close> whose style is its default style
  with \<open>cursor\<close> chosen by \<open>disabled\<close>, spread with the caller's \<open>style\<close>
  (\<open>{...defaults, ...(props.style || {})}\<close>).  A style object is an association list in
  property order; the object spread sets each property of the right operand in turn
  (\<open>map_set\<close> of Categories: an existing key keeps its place, a new one is appended).
\<close>

datatype css = Num nat | Str string

type_synonym style = "(string \<times> css) list"

text \<open>\<open>{...a, ...b}\<close>.\<close>

definition js_spread :: "style \<Rightarrow> style \<Rightarrow> style" where
  "js_spread a b = foldl (\<lambda>acc (k, v). map_set k v acc) a b"

text \<open>\<open>Card\<close> reads only \<open>children\<close>: a \<open>style\<close> passed to it is dropped.\<close>

definition cardStyle :: style where
  "cardStyle =
     [(''background'', Str ''white''), (''borderRadius'', Num 8), (''boxShadow'', Str ''0 2px 4px rgba(0,0,0,0.1)''),
      (''padding'', Num 16), (''marginBottom'', Num 16)]"

definition buttonStyle :: "bool \<Rightarrow> style option \<Rightarrow> style" where
  "buttonStyle disabled st =
     js_spread
       [(''display'', Str ''block''), (''width'', Str ''100%''), (''padding'', Str ''8px 16px''),
        (''marginBottom'', Num 8), (''borderRadius'', Num 4), (''textAlign'', Str ''left''),
        (''border'', Str ''none''), (''cursor'', Str (if disabled then ''default'' else ''pointer''))]
       (case st of None \<Rightarrow> [] | Some s \<Rightarrow> s)"

text \<open>The style of an answer button of the simulation card (lines 489-504).\<close>

definition simButtonStyle :: "AppState \<Rightarrow> Answer \<Rightarrow> style" where
  "simButtonStyle s opt =
     buttonStyle (showSolution s)
       (Some [(''backgroundColor'', Str (simColour (showSolution s) (selected s) opt)), (''color'', Str ''white'')])"

text \<open>The style of an answer button of the practice card (lines 643-662), never disabled.\<close>

definition lernButtonStyle :: "AppState \<Rightarrow> ShuffledQuestion \<Rightarrow> Answer \<Rightarrow> style" where
  "lernButtonStyle s q opt =
     buttonStyle False
       (Some [(''backgroundColor'', Str (lernColour (selectedAnswer s (number q)) opt)), (''color'', Str ''white''),
              (''whiteSpace'', Str ''normal''), (''lineHeight'', Str ''1.2''), (''display'', Str ''flex''),
              (''flexDirection'', Str ''row''), (''alignItems'', Str ''center''), (''gap'', Str ''8px''),
              (''justifyContent'', Str ''flex-start'')])"

lemma map_of_replace:
  "map_of (map (\<lambda>p. if fst p = k then (k, v) else p) m) x =
   (if x = k \<and> k \<in> fst ` set m then Some v else map_of m x)"
  by (induction m) (fastforce simp: image_iff)+

lemma replace_fst: "map (\<lambda>(k', v'). if k' = k then (k, v) else (k', v')) m = map (\<lambda>p. if fst p = k then (k, v) else p) m"
  by (simp add: split_def)

lemma map_of_map_set [simp]: "map_of (map_set k v m) = (map_of m)(k \<mapsto> v)"
proof
  fix x
  show "map_of (map_set k v m) x = ((map_of m)(k \<mapsto> v)) x"
  proof (cases "k \<in> fst ` set m")
    case True
    then show ?thesis by (simp add: map_set_def replace_fst map_of_replace)
  next
    case False
    then have "map_of m k = None" by (simp add: map_of_eq_None_iff)
    with False show ?thesis by (simp add: map_set_def map_add_def split: option.splits)
  qed
qed

lemma js_spread_lookup: "distinct (map fst b) \<Longrightarrow> map_of (js_spread a b) = map_of a ++ map_of b"
proof (induction b arbitrary: a)
  case Nil
  then show ?case by (simp add: js_spread_def)
next
  case (Cons kv b)
  obtain k v where kv: "kv = (k, v)" by fastforce
  with Cons.prems have k: "map_of b k = None" by (simp add: map_of_eq_None_iff)
  have "map_of (js_spread a (kv # b)) = map_of (js_spread (map_set k v a) b)"
    by (simp add: js_spread_def kv)
  also have "\<dots> = (map_of a)(k \<mapsto> v) ++ map_of b" using Cons kv by simp
  also have "\<dots> = map_of a ++ map_of (kv # b)" using k kv by (auto simp: fun_eq_iff map_add_def split: option.splits)
  finally show ?case .
qed

text \<open>
  A simulation answer button shows its colour and the default cursor once the solution is
  shown (it is then disabled), the pointer before; the practice buttons override the
  default \<open>display: block\<close> with \<open>flex\<close> and always show the pointer.
\<close>

lemma simButtonStyle_lookup:
  "map_of (simButtonStyle s opt) ''backgroundColor'' = Some (Str (simColour (showSolution s) (selected s) opt)) \<and>
   map_of (simButtonStyle s opt) ''cursor'' = Some (Str (if showSolution s then ''default'' else ''pointer''))"
  by (simp add: simButtonStyle_def buttonStyle_def js_spread_lookup)

lemma lernButtonStyle_lookup:
  "map_of (lernButtonStyle s q opt) ''backgroundColor'' = Some (Str (lernColour (selectedAnswer s (number q)) opt)) \<and>
   map_of (lernButtonStyle s q opt) ''display'' = Some (Str ''flex'') \<and>
   map_of (lernButtonStyle s q opt) ''cursor'' = Some (Str ''pointer'')"
  by (simp add: lernButtonStyle_def buttonStyle_def js_spread_lookup)

end
