(* ===== verification/Spec2Isabelle.thy ===== *)
theory Spec2Isabelle
  imports ExamFlow SpecMachine Categories Errors MathText PadLoop PageText Layout
begin

text \<open>
  A verification development for the exam-preparation app of this repository, a single
  React component in \<open>src/src/App.tsx\<close> (mcules/afu_pruefung): a practice mode
  (Lernmodus) over a multiple-choice question bank and a timed, multi-part exam simulation
  with per-part pass marks and a final percentage per part.

  \<^bold>\<open>Parts of the program and how they interact.\<close>  The question bank is fetched once and
  flattened (\<open>extract\<close>) into questions tagged with their category path; each question's
  four answers are shuffled (\<open>shuffleAnswers\<close>, \<open>shuffleArray\<close>).  The exam-scheme registry
  (\<open>examConfig\<close>) maps six exam types to ordered parts.  \<open>startSimulation\<close> builds every
  part (filter, shuffle, take, pad by repetition) and enters the simulation; the handlers
  \<open>handleResolve\<close>, \<open>handleNext\<close>, \<open>handleContinue\<close> and the interval armed by a
  \<open>useEffect\<close> on \<open>[mode, partIndex]\<close> drive it; the settings card, the part summary and
  the result view score the parts.  All state lives in \<open>useState\<close> hooks of \<open>App\<close>.

  \<^bold>\<open>Theories.\<close>
  \<^item> \<open>Prelude\<close>: \<open>js_nth\<close> (array reads, \<open>undefined\<close> as \<open>None\<close>), \<open>js_includes\<close>
    (\<open>String.prototype.includes\<close>, proved equal to \<open>sublist\<close>), \<open>js_error\<close>, the random
    stream type \<open>rnd\<close>, permutation lemmas shared by the components.
  \<^item> \<open>Questions\<close>: records \<open>Question\<close>, \<open>CategorizedQuestion\<close>, \<open>ShuffledQuestion\<close>
    (object spreads as record extensions), \<open>Answer\<close>, the datatype \<open>Section\<close>;
    \<open>extract_sections\<close> (\<open>extract\<close>), the engine's sort (\<open>cmp\<close>, \<open>run_ext\<close>, \<open>make_run\<close>, \<open>bsearch\<close>,
    \<open>bin_insert_sort\<close>, \<open>timsort\<close>) under \<open>shuffleArray\<close>,
    \<open>options\<close>, \<open>shuffleAnswers\<close>, \<open>shuffleAll\<close>/\<open>loadQuestions\<close> (lines 75-89, 134-150),
    \<open>answerCorrect\<close> (\<open>answers.find(...)?.isCorrect || false\<close>).
  \<^item> \<open>ExamConfig\<close>: record \<open>PartConfig\<close> (\<open>ExamPartConfig\<close>), \<open>inCategory\<close>, the five part
    literals \<open>partV\<close> .. \<open>partA\<close>, \<open>examConfig\<close> as an association list in key order,
    \<open>examConfigOf\<close>, \<open>examTypes\<close> (lines 30-35, 167-276).
  \<^item> \<open>PartBuilder\<close>: record \<open>ExamQuestion\<close>, the loop \<open>pad\<close> (a \<open>function\<close> with the
    measure \<open>count - length sel\<close>), \<open>buildPart\<close>, \<open>buildParts\<close> (lines 284-290).
  \<^item> \<open>PadLoop\<close>: the padding \<open>while\<close> loop of line 288 as \<open>while_option\<close>, proved to
    terminate with the result of \<open>pad\<close>.
  \<^item> \<open>Scorer\<close>: \<open>correctCount\<close>, \<open>passed\<close>, \<open>partStatus\<close>/\<open>statusView\<close> (lines 428-459),
    \<open>percent\<close> and \<open>resultView\<close> (lines 563-576).
  \<^item> \<open>AppState\<close>: the state record (lines 115-132 plus the armed interval and the effect's
    last dependencies), the datatypes \<open>Mode\<close> and \<open>Event\<close>, \<open>initState\<close>, \<open>current\<close>.
  \<^item> \<open>Lernmodus\<close>: \<open>filteredQuestions\<close>, \<open>handleAnswerCheck\<close>, the selectors and the next
    button of the practice mode (lines 152-165, 589-693).
  \<^item> \<open>Simulation\<close>: the handlers \<open>enterSetup\<close>, \<open>enterLernmodus\<close>, \<open>startSimulation\<close>,
    \<open>handleResolve\<close>, \<open>handleNext_in\<close>/\<open>handleNext\<close>, \<open>handleContinue\<close>, \<open>timerTick\<close>,
    the effect \<open>commitEffects\<close>, \<open>fetchDone\<close>; \<open>enabled\<close> (which buttons the rendered page
    offers), \<open>handle\<close>, \<open>app_step\<close>, \<open>run\<close> and the inductive \<open>reachable\<close>.
  \<^item> \<open>Invariants\<close>: \<open>timer_inv\<close>, \<open>shape_inv\<close>, \<open>progress_inv\<close>, one preservation lemma
    per handler, and \<open>reachable_app_inv\<close> by rule induction.
  \<^item> \<open>Behaviour\<close>: ticks before and after expiry, runs of ticks, error freedom, and the
    question bank read once (\<open>bank_read_once\<close>).
  \<^item> \<open>Walkthrough\<close>: the user's path through a part (\<open>answerEvents\<close>: choose an answer,
    Aufloesen, Weiter for every question), computed click by click and by induction over the
    answers.
  \<^item> \<open>LernSafety\<close>: \<open>lern_inv\<close> (the practice index is \<open>0\<close> or in range) and render
    safety of the practice card.
  \<^item> \<open>SpecMachine\<close>: the specification's abstract machine (\<open>SpecState\<close>, the inductive
    \<open>spec_step\<close> with the transitions of section 4.4, the return from Result clearing the
    parts), the abstraction \<open>absState\<close>, and the refinement lemmas.
  \<^item> \<open>Views\<close>: the rendered page as values (\<open>Page\<close>, \<open>render\<close>): the \<open>current\<close>
    read of line 344, the settings card, the question card's header and clock, the part
    summary, the result and the practice card, evaluated in the order of the source, with
    \<open>js_get\<close>/\<open>js_bind\<close> (Prelude) for the reads that may throw.
  \<^item> \<open>Categories\<close>: the selectors' option lists: \<open>js_join\<close>, \<open>js_split\<close> (a scan
    with a measure), the JavaScript \<open>Map\<close> as an association list in insertion order
    (\<open>map_set\<close>), \<open>getIndentedCategories\<close>, \<open>classOptions\<close> (lines 348-363, 617).
  \<^item> \<open>Errors\<close>: exactly when \<open>handleResolve\<close>, \<open>startSimulation\<close>, \<open>handleNext\<close>
    and \<open>handleContinue\<close> throw.
  \<^item> \<open>Wellformed\<close>: the clock bound \<open>clock_inv\<close> and the well-formedness of every
    question held in the state (\<open>wf_question\<close>, \<open>bank_inv\<close>).
  \<^item> \<open>ExamRun\<close>: \<open>size_inv\<close> (every built part has the scheme's count of questions
    or none) and the settings card's pass mark after a part has been answered.
  \<^item> \<open>MathText\<close>: \<open>renderMath\<close> (lines 91-112) as its two global regular-expression
    replacements (\<open>replace_inline\<close>, \<open>replace_block\<close>, lazy groups \<open>inline_body\<close>,
    \<open>block_body\<close>), with the callbacks as parameters; \<open>katexCallback\<close> is the
    \<open>try\<close>/\<open>catch\<close> callback around KaTeX, itself a parameter.
  \<^item> \<open>Cards\<close>: the content of the simulation card (lines 463-560) and the practice card
    (lines 626-683): \<open>js_digits\<close> (\<open>toString\<close>), \<open>padStart\<close>, \<open>fromCharCode\<close>,
    \<open>js_lower\<close>, the dynamic picture field \<open>pictureField\<close> and \<open>svgImage\<close>
    (\<open>/svgs/<id>.svg\<close>), the answer buttons (\<open>simButton\<close>, \<open>lernButton\<close> with their
    colours \<open>simColour\<close>, \<open>lernColour\<close>), \<open>clockText\<close>, the footer with the
    Aufloesen button or the verdict (\<open>simVerdict\<close>), \<open>simCard\<close>, \<open>lernCard\<close> and
    \<open>cards\<close>; the invariants \<open>verdict_inv\<close> and \<open>lern_answers_inv\<close>.
  \<^item> \<open>PageText\<close>: the texts of the settings card (\<open>settingsText\<close>: the exam-type
    selector or label, the Start button, \<open>settingsRowText\<close>, \<open>statusText\<close>), of the part
    summary (\<open>summaryText\<close>) and of the result rows (\<open>resultRowText\<close>, \<open>NaN\<close> for an
    empty part), the options of the practice selectors (\<open>categorySelect\<close> with its
    non-breaking-space indentation, \<open>classSelect\<close>) and \<open>lernText\<close>; printed numbers read
    back (\<open>js_digits_value\<close>).
  \<^item> \<open>Layout\<close>: \<open>Card\<close> and \<open>Button\<close> (lines 41-73) as style objects: the
    object spread \<open>js_spread\<close>, \<open>cardStyle\<close>, \<open>buttonStyle\<close> with its cursor, and the
    merged styles of the two kinds of answer button.
  \<^item> \<open>ExamFlow\<close>: a whole exam as a sequence of events (\<open>examEvents\<close>: every part answered
    question by question, each summary left with Weiter), run by induction over the parts.
  \<^item> this theory: properties across components, with the example data of the witnesses.

  \<^bold>\<open>Modelling choices.\<close>  Randomness is an input: \<open>Math.random() - 0.5\<close> matters only
  through its sign as a comparator answer, so the random source is a list of booleans carried
  by the events that draw on it (\<open>FetchDone\<close>, \<open>ClickStart\<close>) and threaded through the
  shuffles in the order the code draws.  The engine's sort is V8's TimSort on arrays of fewer than
  64 elements (one run made by \<open>CountAndMakeRun\<close>, then binary insertion); the merges
  of longer arrays are not modelled.  The permutation theorems hold for every comparator
  answer, which is all ECMAScript promises, while the bias theorem is about this sort on the
  four answer options.  React's batching is
  modelled by running each handler to completion and then the effects (\<open>commitEffects\<close>);
  the interval's callback keeps the closure of the render in which the effect ran
  (\<open>TimerClosure\<close>).  Each handler that can throw returns \<open>js_error + AppState\<close>.
  Counts are \<open>nat\<close>, divisions are exact (\<open>rat\<close>); \<open>Scorer\<close> explains why the
  floating-point comparisons of the source agree.  Loops: \<open>pad\<close>, the string scans \<open>split_scan\<close>,
  \<open>replace_inline\<close> and \<open>replace_block\<close> terminate by a length measure, the sort's
  binary search \<open>bsearch\<close> by the width \<open>right - left\<close>; all other recursion is
  structural.  No fuel is needed.

  \<^bold>\<open>What the lemmas show.\<close>  The shuffle permutes, reaches every order, keeps exactly one
  correct answer (the original slot A, which is what \<open>handleResolve\<close> rewards) but is
  biased toward the original order (\<open>3/16\<close> for the original order, \<open>23/64\<close> for the
  correct answer first).  A built part has exactly \<open>count\<close> questions when its pool is non-empty, none otherwise, and
  is the cyclic repetition of the shuffled pool.  The pass rule is the inclusive
  three-quarter threshold and the percentage is round-half-up integer division.  In every
  reachable state the timer is armed exactly in simulation mode and belongs to the current
  part, no offered event throws, and results never outrun the questions; the bank is
  loaded at most once and never replaced; the result view is total with percentages in 0..100, undefined (\<open>NaN%\<close>) exactly for empty parts.  The
  interval's stale closure makes every tick after expiry advance one question, past the end
  of the part, without ever reaching the part summary.  Answering every question of a part
  records the verdicts in order and shows the summary.  The practice card always reads a
  question that exists.  A user event refines the state machine of section 4.4 of the
  specification exactly unless it is a mode button that abandons an exam or leaves Setup
  for practice mode, or the Pruefungssimulation button on the result view, whose
  \<open>enterSetup\<close> keeps the parts the specification clears; a tick refines it exactly
  unless it fires at or past the last question of a part of two or more questions.  A part of at most one question, the empty part included, is always ended by the
  clock.  The page renders without a \<open>TypeError\<close> in every reachable state, the clock
  never exceeds the current part's duration, and every question held has the answer ids
  \<open>A\<close> to \<open>D\<close> with only \<open>A\<close> correct.  Every category the practice selector offers
  selects a question, unless a section title contains the separator \<open>" > "\<close>; the
  selector's labels are distinct; \<open>split\<close> undoes \<open>join\<close>.  The error lemmas give
  each handler's exact throwing condition.  Once a part has been answered, the settings
  card marks it Bestanden exactly when three quarters of the answers were correct.
  \<open>renderMath\<close> renders an inline formula with KaTeX but never renders a display formula:
  the inline pattern, applied first, consumes every \<open>$$\<close>.  On the cards: a resolved
  question shows the verdict that was recorded for it and exactly one green button; the
  clock text is always \<open>MM:SS\<close> and reads back as \<open>timeLeft\<close>; the practice card
  colours exactly one button once an answer is recorded and its verdict agrees with the
  colour; the buttons are labelled \<open>A:\<close> to \<open>D:\<close> by position with distinct keys; and
  the answer events \<open>enabled\<close> offers are exactly the controls the cards render enabled.
  A whole exam taken question by question ends in the result view with the verdicts of the
  answers and one row per part; the result page shows no pass marks.

  \<^bold>\<open>Not modelled.\<close>  The markup itself (the DOM tree, the inline styles of the other
  elements, the \<open>alt\<close> texts, the fixed headings) and KaTeX itself (a parameter of
  \<open>katexCallback\<close>): presentation and a library that read only values proved defined
  here; the fetch and
  JSON parsing (the parsed document is the input of \<open>FetchDone\<close>); interleavings of a tick
  between a render and its effect (React runs the effect before the browser delivers the
  next timer callback).

  \<^bold>\<open>Further work.\<close>  Whole exam runs in which interval ticks interleave with the
  answers, and runs that leave a part through the clock.
\<close>

subsection \<open>Example data\<close>

definition exampleTechE :: Question where
  "exampleTechE =
     \<lparr>number = ''TE101'', qclass = ''2'', question = ''Welche Einheit hat die Kapazitaet?'',
      answer_a = ''Farad'', answer_b = ''Henry'', answer_c = ''Ohm'', answer_d = ''Siemens'',
      picture_question = None, picture_a = None, picture_b = None, picture_c = None, picture_d = None\<rparr>"

definition exampleRule :: Question where
  "exampleRule =
     \<lparr>number = ''VA101'', qclass = ''1'', question = ''Wer erteilt das Rufzeichen?'',
      answer_a = ''Die Bundesnetzagentur'', answer_b = ''Der Ortsverband'', answer_c = ''Die Polizei'',
      answer_d = ''Niemand'', picture_question = None, picture_a = None, picture_b = None,
      picture_c = None, picture_d = None\<rparr>"

definition exampleBank :: "Section list" where
  "exampleBank =
     [Section ''Pruefungsfragen'' None
        (Some [Section ''Technische Kenntnisse (Klasse E)'' (Some [exampleTechE]) None,
               Section ''Vorschriften'' (Some [exampleRule]) None])]"

definition exampleRulesOnly :: "Section list" where
  "exampleRulesOnly = [Section ''Vorschriften'' (Some [exampleRule]) None]"

definition startEvents :: "Section list \<Rightarrow> Event list" where
  "startEvents bank = [FetchDone bank [], ClickPruefung, ChooseExamType ''N->E'', ClickStart []]"

definition exampleStarted :: AppState where
  "exampleStarted = projr (run initState (startEvents exampleBank))"

definition exampleEmpty :: AppState where
  "exampleEmpty = projr (run initState (startEvents exampleRulesOnly))"

definition exampleEmptyResult :: AppState where
  "exampleEmptyResult =
     exampleEmpty\<lparr>mode := Result, timeLeft := 0, timer := None, effectDeps := (Result, 0)\<rparr>"

definition onePart :: PartConfig where
  "onePart = \<lparr>label = ''X'', count_p = 1, filter_p = (\<lambda>q. True), durationMin = 1\<rparr>"

definition exampleTechEShuffled :: ShuffledQuestion where
  "exampleTechEShuffled =
     fst (shuffleAnswers [] (categorize [''Pruefungsfragen'', ''Technische Kenntnisse (Klasse E)''] exampleTechE))"

definition examplePractice :: AppState where
  "examplePractice = projr (run initState [FetchDone exampleBank [], LernNext])"

definition exampleLast :: AppState where
  "exampleLast = exampleStarted\<lparr>qIndex := 24, selected := None, showSolution := False, timeLeft := 0\<rparr>"

definition exampleLoaded :: AppState where
  "exampleLoaded = fetchDone exampleBank [] initState"

definition exampleEq :: ExamQuestion where
  "exampleEq = \<lparr>partLabel = ''Technik E (E)'', question = exampleTechEShuffled\<rparr>"

definition exampleResolved :: AppState where
  "exampleResolved = exampleStarted\<lparr>selected := Some ''A'', results := [[True]], showSolution := True\<rparr>"

definition exampleRuleShuffled :: ShuffledQuestion where
  "exampleRuleShuffled =
     fst (shuffleAnswers [] (categorize [''Pruefungsfragen'', ''Vorschriften''] exampleRule))"

definition exampleAnswered :: AppState where
  "exampleAnswered = examplePractice\<lparr>selectedAnswer := [''VA101'' \<mapsto> ''B'']\<rparr>"

definition exampleArrowBank :: "Section list" where
  "exampleArrowBank = [Section ''Teil > 1'' (Some [exampleRule]) None]"

subsection \<open>Properties across components\<close>

text \<open>
  C7: starting the upgrade exam \<open>N->E\<close> gives exactly one part, labelled Technik E (E),
  with a 45-minute clock; its questions are class-2 questions of the bank whose category path
  contains Technische Kenntnisse; it has 25 of them when the bank has at least one such
  question, and none otherwise.  No Vorschriften part appears.
\<close>

theorem start_upgrade_N_to_E:
  assumes "examType s = ''N->E''"
  shows "\<exists>t. startSimulation bs s = Inr t \<and> mode t = Simulation \<and> timeLeft t = 2700 \<and>
           length (simQuestions t) = 1 \<and>
           (\<forall>eq\<in>set (simQuestions t ! 0).
              partLabel eq = ''Technik E (E)'' \<and> question eq \<in> set (questions s) \<and>
              qclass (question eq) = ''2'' \<and> inCategory ''Technische Kenntnisse'' (question eq)) \<and>
           length (simQuestions t ! 0) =
             (if \<exists>q\<in>set (questions s). inCategory ''Technische Kenntnisse'' q \<and> qclass q = ''2''
              then 25 else 0)"
proof -
  have cfg: "examConfigOf (examType s) = Some [partE]" using assms by simp
  let ?sel = "fst (buildPart (questions s) bs partE)"
  have "startSimulation bs s =
     Inr (s\<lparr>simQuestions := [?sel], results := [[]], partIndex := 0, qIndex := 0, selected := None,
            showSolution := False, mode := Simulation, timeLeft := 2700\<rparr>)"
    using startSimulation_eq[OF cfg] by (simp add: partE_def)
  moreover have "\<forall>eq\<in>set ?sel. partLabel eq = ''Technik E (E)'' \<and> question eq \<in> set (questions s) \<and>
              qclass (question eq) = ''2'' \<and> inCategory ''Technische Kenntnisse'' (question eq)"
    using set_buildPart[of _ "questions s" bs partE] by (simp add: partE_def)
  moreover have "length ?sel =
      (if \<exists>q\<in>set (questions s). inCategory ''Technische Kenntnisse'' q \<and> qclass q = ''2'' then 25 else 0)"
    using buildPart_length_eq[of "questions s" bs partE] by (simp add: partE_def)
  ultimately show ?thesis by simp
qed

text \<open>
  For a two-part exam where part 1 scores 20 of 25 and part 2 scores 25 of 25, the result
  view reports 80% and 100%, and the settings card marks both parts passed.
\<close>

theorem aggregate_result:
  assumes "count_p p1 = 25" "count_p p2 = 25" "length r1 = 25" "correctCount r1 = 20"
    "length r2 = 25" "correctCount r2 = 25" "length q1 = 25" "length q2 = 25"
  shows "resultView [p1, p2] [q1, q2] [r1, r2] =
           Some [(label p1, 20, 25, Some 80), (label p2, 25, 25, Some 100)] \<and>
         statusView [p1, p2] [r1, r2] = [Some True, Some True]"
proof -
  have "resultView [p1, p2] [q1, q2] [r1, r2] =
      Some [(label p1, correctCount r1, length q1, percent (correctCount r1) (length q1)),
            (label p2, correctCount r2, length q2, percent (correctCount r2) (length q2))]"
    using resultView_eq[of "[r1, r2]" "[q1, q2]" "[p1, p2]"] by (simp add: upt_conv_Cons)
  then have "resultView [p1, p2] [q1, q2] [r1, r2] =
      Some [(label p1, 20, 25, Some 80), (label p2, 25, 25, Some 100)]"
    using assms by (simp add: percent_div)
  moreover have "statusView [p1, p2] [r1, r2] = [Some True, Some True]"
    using assms by (simp add: statusView_def partStatus_def passed_iff_count)
  ultimately show ?thesis by simp
qed

text \<open>
  C13: in every reachable result state the result view renders without error; each row has
  no more correct answers than questions, and its percentage lies in 0..100, or is undefined
  (shown as \<open>NaN%\<close>) exactly when the part has no questions.
\<close>

theorem result_view_bounded:
  assumes "reachable s" "mode s = Result" "examConfigOf (examType s) = Some parts"
  shows "\<exists>rows. resultView parts (simQuestions s) (results s) = Some rows \<and>
     (\<forall>(l, c, n, p) \<in> set rows. c \<le> n \<and> (case p of None \<Rightarrow> n = 0 | Some v \<Rightarrow> 0 \<le> v \<and> v \<le> 100))"
proof -
  have inv: "app_inv s" using assms(1) by (rule reachable_app_inv)
  then have len: "length (results s) = length (simQuestions s)" "length parts = length (simQuestions s)"
    and bound: "\<forall>i < length (results s). length (results s ! i) \<le> length (simQuestions s ! i)"
    using assms(2,3) by (auto simp: app_inv_def shape_inv_def progress_inv_def)
  have "c \<le> n \<and> (case p of None \<Rightarrow> n = 0 | Some v \<Rightarrow> 0 \<le> v \<and> v \<le> 100)"
    if "(l, c, n, p) \<in> set (map (\<lambda>i. (label (parts ! i), correctCount (results s ! i),
                     length (simQuestions s ! i),
                     percent (correctCount (results s ! i)) (length (simQuestions s ! i))))
                   [0..<length (simQuestions s)])"
    for l c n p
  proof -
    from that obtain i where i: "i < length (simQuestions s)" and c: "c = correctCount (results s ! i)"
      and n: "n = length (simQuestions s ! i)" and p: "p = percent c n"
      by auto
    have "length (results s ! i) \<le> length (simQuestions s ! i)" using bound len i by simp
    then have "c \<le> n" unfolding c n using correctCount_le[of "results s ! i"] by linarith
    show ?thesis
    proof (cases p)
      case None
      then show ?thesis using p \<open>c \<le> n\<close> by (simp add: percent_div split: if_splits)
    next
      case (Some v)
      then show ?thesis using p \<open>c \<le> n\<close> percent_le_100[of c n v] by simp
    qed
  qed
  with resultView_eq[OF len] show ?thesis by blast
qed

subsection \<open>The example runs\<close>

lemmas eval_defs = app_step_def initState_def fetchDone_def loadQuestions_def shuffleAnswers_def
  options_def categorize_def enterSetup_def examTypes_eq startSimulation_def
  buildPart_cyclic partPool_def partE_def inCategory_def commitEffects_def Let_def
  CategorizedQuestion.defs ShuffledQuestion.defs Question.defs

lemma exampleStarted_run: "run initState (startEvents exampleBank) = Inr exampleStarted"
  by (simp add: exampleStarted_def startEvents_def exampleBank_def exampleTechE_def exampleRule_def
      eval_defs)

lemma exampleStarted_fields:
  "mode exampleStarted = Simulation \<and> timeLeft exampleStarted = 2700 \<and> partIndex exampleStarted = 0 \<and>
   qIndex exampleStarted = 0 \<and> length (simQuestions exampleStarted ! 0) = 25"
  by (simp add: exampleStarted_def startEvents_def exampleBank_def exampleTechE_def exampleRule_def
      eval_defs)

lemma exampleStarted_reachable: "reachable exampleStarted"
  by (rule run_reachable[OF reachable.init exampleStarted_run])

lemma exampleStarted_part:
  "simQuestions exampleStarted ! 0 =
     replicate 25 \<lparr>partLabel = ''Technik E (E)'', question = exampleTechEShuffled\<rparr>"
  by (simp add: exampleStarted_def exampleTechEShuffled_def startEvents_def exampleBank_def
      exampleTechE_def exampleRule_def eval_defs o_def map_replicate_const)

lemma exampleStarted_state:
  "showSolution exampleStarted = False \<and> results exampleStarted = [[]] \<and>
   simQuestions exampleStarted = [simQuestions exampleStarted ! 0] \<and> examType exampleStarted = ''N->E''"
  by (simp add: exampleStarted_def startEvents_def exampleBank_def exampleTechE_def exampleRule_def
      eval_defs)

lemma exampleTechEShuffled_A:
  "''A'' \<in> set (map answer_id (answers exampleTechEShuffled)) \<and> answerCorrect ''A'' exampleTechEShuffled"
  by (simp add: exampleTechEShuffled_def exampleTechE_def eval_defs answerCorrect_def)

lemma examplePractice_run: "run initState [FetchDone exampleBank [], LernNext] = Inr examplePractice"
  by (simp add: examplePractice_def exampleBank_def exampleTechE_def exampleRule_def eval_defs
      lernNext_def filteredQuestions_def)

lemma examplePractice_reachable: "reachable examplePractice"
  by (rule run_reachable[OF reachable.init examplePractice_run])

lemma exampleLast_reachable: "reachable exampleLast"
proof -
  have inv: "app_inv exampleStarted" using exampleStarted_reachable by (rule reachable_app_inv)
  have f: "mode exampleStarted = Simulation" "timeLeft exampleStarted = 2700" "partIndex exampleStarted = 0"
    "qIndex exampleStarted = 0" "length (simQuestions exampleStarted ! 0) = 25"
    using exampleStarted_fields by simp_all
  let ?s1 = "exampleStarted\<lparr>timeLeft := 1\<rparr>"
  have r1: "run exampleStarted (replicate 2699 Tick) = Inr ?s1"
    using ticks_countdown[OF inv f(1), of 2699] f(2) by simp
  have "run ?s1 (replicate (Suc 23) Tick) =
      Inr (?s1\<lparr>qIndex := qIndex ?s1 + Suc 23, selected := None, showSolution := False, timeLeft := 0\<rparr>)"
    using inv f by (intro ticks_overrun) simp_all
  then have r2: "run ?s1 (replicate 24 Tick) = Inr exampleLast"
    using f(4) by (simp add: exampleLast_def numeral_eq_Suc)
  have "run exampleStarted (replicate 2699 Tick @ replicate 24 Tick) = Inr exampleLast"
    using r1 r2 by (simp add: run_append)
  then show ?thesis by (rule run_reachable[OF exampleStarted_reachable])
qed

lemma exampleStarted_current: "current exampleStarted = Some exampleEq"
proof -
  have "simQuestions exampleStarted = [replicate 25 exampleEq]"
    using exampleStarted_state exampleStarted_part by (metis exampleEq_def)
  then show ?thesis using exampleStarted_fields by (simp add: current_Some_iff)
qed

lemma exampleResolved_reachable: "reachable exampleResolved"
proof -
  have inv: "app_inv exampleStarted" using exampleStarted_reachable by (rule reachable_app_inv)
  have ns: "\<not> showSolution exampleStarted" using exampleStarted_state by simp
  have a: "''A'' \<in> set (answerIds exampleEq)" and c: "answerCorrect ''A'' (question exampleEq)"
    using exampleTechEShuffled_A by (simp_all add: answerIds_def exampleEq_def)
  let ?s1 = "exampleStarted\<lparr>selected := Some ''A''\<rparr>"
  have r1: "app_step exampleStarted (ChooseAnswer ''A'') = Inr ?s1"
    by (rule step_choose[OF inv exampleStarted_current ns a])
  have inv1: "app_inv ?s1" using app_inv_step[OF inv r1] .
  have "app_step ?s1 ClickResolve =
     Inr (?s1\<lparr>results := (results ?s1)[partIndex ?s1 := results ?s1 ! partIndex ?s1 @ [answerCorrect ''A'' (question exampleEq)]],
           showSolution := True\<rparr>)"
    using exampleStarted_current ns by (intro step_resolve[OF inv1]) simp_all
  then have r2: "app_step ?s1 ClickResolve = Inr exampleResolved"
    using exampleStarted_state exampleStarted_fields c by (simp add: exampleResolved_def)
  show ?thesis by (rule reachable.step[OF reachable.step[OF exampleStarted_reachable r1] r2])
qed

lemma examplePractice_fields:
  "mode examplePractice = Lernmodus \<and> lernCurrent examplePractice = Some exampleRuleShuffled \<and>
   effectDeps examplePractice = (Lernmodus, 0) \<and> partIndex examplePractice = 0 \<and>
   selectedAnswer examplePractice = Map.empty"
  by (simp add: examplePractice_def exampleRuleShuffled_def exampleBank_def exampleTechE_def
      exampleRule_def eval_defs lernNext_def lernCurrent_def filteredQuestions_def)

lemma exampleAnswered_reachable: "reachable exampleAnswered"
proof -
  have ids: "''B'' \<in> set (map answer_id (answers exampleRuleShuffled))" and n: "number exampleRuleShuffled = ''VA101''"
    by (simp_all add: exampleRuleShuffled_def exampleRule_def eval_defs)
  have "app_step examplePractice (LernAnswer ''B'') = Inr exampleAnswered"
    using examplePractice_fields ids n
    by (simp add: app_step_def handleAnswerCheck_def commitEffects_def exampleAnswered_def)
  then show ?thesis by (rule reachable.step[OF examplePractice_reachable])
qed

lemma exampleLoaded_options:
  "getIndentedCategories exampleLoaded =
     [\<lparr>opt_value = ''Pruefungsfragen'', opt_label = ''Pruefungsfragen'', opt_depth = 0\<rparr>,
      \<lparr>opt_value = ''Technische Kenntnisse (Klasse E)'',
       opt_label = ''Pruefungsfragen > Technische Kenntnisse (Klasse E)'', opt_depth = 1\<rparr>,
      \<lparr>opt_value = ''Vorschriften'', opt_label = ''Pruefungsfragen > Vorschriften'', opt_depth = 1\<rparr>]"
  by (simp add: exampleLoaded_def getIndentedCategories_def categoriesMap_def addPath_def map_set_def
      js_split_def exampleBank_def exampleTechE_def exampleRule_def eval_defs upt_conv_Cons)

lemma category_separator_in_title:
  "getIndentedCategories (fetchDone exampleArrowBank [] initState) =
     [\<lparr>opt_value = ''1'', opt_label = ''Teil > 1'', opt_depth = 0\<rparr>] \<and>
   filteredQuestions (chooseCategory ''1'' (fetchDone exampleArrowBank [] initState)) = []"
  by (simp add: getIndentedCategories_def categoriesMap_def addPath_def map_set_def js_split_def
      exampleArrowBank_def exampleRule_def eval_defs filteredQuestions_def chooseCategory_def)

lemma exampleEmpty_run: "run initState (startEvents exampleRulesOnly) = Inr exampleEmpty"
  by (simp add: exampleEmpty_def startEvents_def exampleRulesOnly_def exampleRule_def eval_defs)

lemma exampleEmpty_fields:
  "mode exampleEmpty = Simulation \<and> timeLeft exampleEmpty = 2700 \<and> partIndex exampleEmpty = 0 \<and>
   simQuestions exampleEmpty = [[]] \<and> results exampleEmpty = [[]] \<and> examType exampleEmpty = ''N->E''"
  by (simp add: exampleEmpty_def startEvents_def exampleRulesOnly_def exampleRule_def eval_defs)

lemma exampleEmpty_reachable: "reachable exampleEmpty"
  by (rule run_reachable[OF reachable.init exampleEmpty_run])

text \<open>
  The empty part can only be left by the clock: 2699 ticks count down, the next one runs the
  captured \<open>handleNext\<close>, which finds no question and shows the summary; Weiter then shows
  the result.
\<close>

lemma exampleEmptyResult_reachable: "reachable exampleEmptyResult"
proof -
  have inv: "app_inv exampleEmpty" using exampleEmpty_reachable by (rule reachable_app_inv)
  have f: "mode exampleEmpty = Simulation" "timeLeft exampleEmpty = 2700" "partIndex exampleEmpty = 0"
    "simQuestions exampleEmpty = [[]]"
    using exampleEmpty_fields by simp_all
  let ?s2 = "exampleEmpty\<lparr>mode := PartSummary, timeLeft := 0, timer := None,
                          effectDeps := (PartSummary, 0)\<rparr>"
  have "run exampleEmpty (replicate 2700 Tick) = Inr ?s2"
    using ticks_to_summary[OF inv f(1)] f by simp
  then have r2: "reachable ?s2" by (rule run_reachable[OF exampleEmpty_reachable])
  have "app_step ?s2 ClickContinue = Inr exampleEmptyResult"
    using f by (simp add: app_step_def handleContinue_def commitEffects_def exampleEmptyResult_def)
  with r2 show ?thesis by (rule reachable.step)
qed

subsection \<open>Witnesses\<close>

theorem timer_expiry_runs_past_part_witness:
  "qIndex exampleStarted = 0 \<and> length (simQuestions exampleStarted ! 0) = 25 \<and>
   run exampleStarted (replicate (timeLeft exampleStarted + 30) Tick) =
     Inr (exampleStarted\<lparr>qIndex := qIndex exampleStarted + Suc 30, selected := None,
                         showSolution := False, timeLeft := 0\<rparr>)"
proof -
  have f: "mode exampleStarted = Simulation" "0 < timeLeft exampleStarted"
    "1 < length (simQuestions exampleStarted ! partIndex exampleStarted)"
    using exampleStarted_fields by simp_all
  show ?thesis
    using exampleStarted_fields
      Behaviour.timer_expiry_runs_past_part[OF exampleStarted_reachable f, of 30]
    by simp
qed

theorem timer_armed_iff_simulation_witness:
  "timer exampleStarted \<noteq> None \<and> map_option cap_partIndex (timer exampleStarted) = Some 0"
  using Behaviour.timer_armed_iff_simulation[OF exampleStarted_reachable] exampleStarted_fields
  by (cases "timer exampleStarted") simp_all

theorem enabled_events_never_throw_witness:
  "enabled exampleStarted Tick \<and> (\<exists>t. app_step exampleStarted Tick = Inr t)"
proof -
  have en: "enabled exampleStarted Tick"
    using Behaviour.timer_armed_iff_simulation[OF exampleStarted_reachable] exampleStarted_fields
    by simp
  show ?thesis
    using en Behaviour.enabled_events_never_throw[OF exampleStarted_reachable en] by simp
qed

theorem buildPart_size_witness:
  "(\<exists>q\<in>set (loadQuestions [] exampleBank). filter_p partE q) \<and>
   length (fst (buildPart (loadQuestions [] exampleBank) [] partE)) = 25"
proof -
  have ex: "\<exists>q\<in>set (loadQuestions [] exampleBank). filter_p partE q"
    by (simp add: exampleBank_def exampleTechE_def exampleRule_def eval_defs)
  show ?thesis using ex PartBuilder.buildPart_size[of "loadQuestions [] exampleBank" "[]" partE]
    by (simp add: partE_def)
qed

theorem buildPart_sound_witness:
  "fst (buildPart (loadQuestions [] exampleBank) [] partE) \<noteq> [] \<and>
   list_all (\<lambda>eq. partLabel eq = label partE \<and> question eq \<in> set (loadQuestions [] exampleBank) \<and>
                   filter_p partE (question eq))
     (fst (buildPart (loadQuestions [] exampleBank) [] partE))"
proof -
  have "fst (buildPart (loadQuestions [] exampleBank) [] partE) \<noteq> []"
    by (simp add: exampleBank_def exampleTechE_def exampleRule_def eval_defs)
  then show ?thesis
    using PartBuilder.buildPart_sound[of "loadQuestions [] exampleBank" "[]" partE]
    by (simp add: list_all_iff)
qed

theorem start_upgrade_N_to_E_witness:
  "examType (initState\<lparr>examType := ''N->E'', questions := loadQuestions [] exampleBank\<rparr>) = ''N->E'' \<and>
   (\<exists>t. startSimulation [] (initState\<lparr>examType := ''N->E'', questions := loadQuestions [] exampleBank\<rparr>) = Inr t \<and>
        length (simQuestions t) = 1 \<and> length (simQuestions t ! 0) = 25)"
proof -
  have h: "examType (initState\<lparr>examType := ''N->E'', questions := loadQuestions [] exampleBank\<rparr>) = ''N->E''"
    by simp
  have ex: "\<exists>q\<in>set (loadQuestions [] exampleBank). inCategory ''Technische Kenntnisse'' q \<and> qclass q = ''2''"
    by (simp add: exampleBank_def exampleTechE_def exampleRule_def eval_defs)
  show ?thesis using h ex start_upgrade_N_to_E[OF h, of "[]"] by auto
qed

theorem aggregate_result_witness:
  "resultView [partV, partB] [replicate 25 (hd (fst (buildPart (loadQuestions [] exampleBank) [] partE))),
                               replicate 25 (hd (fst (buildPart (loadQuestions [] exampleBank) [] partE)))]
              [replicate 20 True @ replicate 5 False, replicate 25 True] =
     Some [(''Vorschriften (V)'', 20, 25, Some 80), (''Betriebliche Kenntnisse (B)'', 25, 25, Some 100)] \<and>
   statusView [partV, partB] [replicate 20 True @ replicate 5 False, replicate 25 True] = [Some True, Some True]"
  using aggregate_result[of partV partB "replicate 20 True @ replicate 5 False" "replicate 25 True"
      "replicate 25 (hd (fst (buildPart (loadQuestions [] exampleBank) [] partE)))"
      "replicate 25 (hd (fst (buildPart (loadQuestions [] exampleBank) [] partE)))"]
  by (simp add: partV_def partB_def correctCount_def)

theorem result_view_bounded_witness:
  "resultView [partE] (simQuestions exampleEmptyResult) (results exampleEmptyResult) =
     Some [(''Technik E (E)'', 0, 0, None)] \<and>
   list_all (\<lambda>(l, c, n, p). c \<le> n \<and> (case p of None \<Rightarrow> n = 0 | Some v \<Rightarrow> 0 \<le> v \<and> v \<le> 100))
     (the (resultView [partE] (simQuestions exampleEmptyResult) (results exampleEmptyResult)))"
proof -
  have f: "mode exampleEmptyResult = Result" "examConfigOf (examType exampleEmptyResult) = Some [partE]"
    using exampleEmpty_fields by (simp_all add: exampleEmptyResult_def)
  have v: "resultView [partE] (simQuestions exampleEmptyResult) (results exampleEmptyResult) =
     Some [(''Technik E (E)'', 0, 0, None)]"
    using exampleEmpty_fields
    by (simp add: exampleEmptyResult_def resultView_def partE_def correctCount_def percent_def)
  from result_view_bounded[OF exampleEmptyResult_reachable f] v show ?thesis
    by (auto simp: list_all_iff)
qed

theorem shuffleArray_reaches_every_permutation_witness:
  "mset [3, 1, 2 :: nat] = mset [1, 2, 3] \<and> (\<exists>bs. fst (shuffleArray bs [1, 2, 3 :: nat]) = [3, 1, 2])"
  using Questions.shuffleArray_reaches_every_permutation[of "[3, 1, 2 :: nat]" "[1, 2, 3]"] by simp

theorem buildPart_distinct_witness:
  "distinct (loadQuestions [] exampleBank) \<and>
   count_p onePart \<le> length (filter (filter_p onePart) (loadQuestions [] exampleBank)) \<and>
   distinct (map question (fst (buildPart (loadQuestions [] exampleBank) [] onePart)))"
proof -
  have h: "distinct (loadQuestions [] exampleBank)"
    "count_p onePart \<le> length (filter (filter_p onePart) (loadQuestions [] exampleBank))"
    by (simp_all add: exampleBank_def exampleTechE_def exampleRule_def onePart_def eval_defs)
  then show ?thesis using PartBuilder.buildPart_distinct[OF h] by simp
qed

theorem extract_sections_path_witness:
  "categorize [''Pruefungsfragen'', ''Technische Kenntnisse (Klasse E)''] exampleTechE
     \<in> set (extract_sections exampleBank []) \<and>
   (\<exists>t ts. categoryPath (categorize [''Pruefungsfragen'', ''Technische Kenntnisse (Klasse E)''] exampleTechE)
           = [] @ t # ts)"
proof -
  have h: "categorize [''Pruefungsfragen'', ''Technische Kenntnisse (Klasse E)''] exampleTechE
     \<in> set (extract_sections exampleBank [])"
    by (simp add: exampleBank_def)
  show ?thesis using h Questions.extract_sections_path[OF h] by simp
qed

theorem answer_whole_part_witness:
  "run exampleStarted (answerEvents (replicate 25 ''A'')) =
     Inr (exampleStarted\<lparr>results := [replicate 25 True], qIndex := 24, selected := Some ''A'',
            showSolution := True, mode := PartSummary, timer := None, effectDeps := (PartSummary, 0)\<rparr>)"
proof -
  have f: "mode exampleStarted = Simulation" "qIndex exampleStarted = 0" "\<not> showSolution exampleStarted"
    "replicate 25 ''A'' \<noteq> []"
    using exampleStarted_fields exampleStarted_state by simp_all
  have l: "list_all2 (\<lambda>a eq. a \<noteq> [] \<and> a \<in> set (answerIds eq)) (replicate 25 ''A'')
             (simQuestions exampleStarted ! partIndex exampleStarted)"
    using exampleStarted_fields exampleTechEShuffled_A
    by (simp add: exampleStarted_part answerIds_def list_all2_conv_all_nth)
  show ?thesis
    using Walkthrough.answer_whole_part[OF exampleStarted_reachable f(1-4) l]
      exampleStarted_fields exampleStarted_state exampleTechEShuffled_A
    by (simp add: exampleStarted_part)
qed

theorem lernCurrent_defined_witness:
  "filteredQuestions examplePractice \<noteq> [] \<and> lernIndex examplePractice = 1 \<and>
   (\<exists>q. lernCurrent examplePractice = Some q)"
proof -
  have f: "filteredQuestions examplePractice \<noteq> []" "lernIndex examplePractice = 1"
    by (simp_all add: examplePractice_def exampleBank_def exampleTechE_def exampleRule_def eval_defs
        lernNext_def filteredQuestions_def)
  then show ?thesis using LernSafety.lernCurrent_defined[OF examplePractice_reachable f(1)] by simp
qed


theorem answer_buttons_labelled_witness:
  "current exampleStarted = Some exampleEq \<and>
   map btn_label (sim_buttons (simCard (\<lambda>x. x) (\<lambda>x. x) exampleStarted exampleEq)) = [''A:'', ''B:'', ''C:'', ''D:''] \<and>
   distinct (map btn_key (sim_buttons (simCard (\<lambda>x. x) (\<lambda>x. x) exampleStarted exampleEq)))"
  using Cards.answer_buttons_labelled[OF exampleStarted_reachable exampleStarted_current] exampleStarted_current
  by simp

theorem bank_read_once_witness:
  "run initState (startEvents exampleBank) = Inr exampleStarted \<and>
   (questions exampleStarted = questions initState \<and> fetchPending exampleStarted = fetchPending initState \<or>
    fetchPending initState \<and> \<not> fetchPending exampleStarted \<and>
    (\<exists>secs bs. FetchDone secs bs \<in> set (startEvents exampleBank) \<and> questions exampleStarted = loadQuestions bs secs))"
  using Behaviour.bank_read_once[OF exampleStarted_run] exampleStarted_run by simp

theorem user_events_refine_spec_iff_witness:
  "app_step exampleEmptyResult ClickPruefung =
     Inr (exampleEmptyResult\<lparr>mode := Setup, results := [], effectDeps := (Setup, 0)\<rparr>) \<and>
   absState exampleEmptyResult = (ResultS, [0]) \<and>
   absState (exampleEmptyResult\<lparr>mode := Setup, results := [], effectDeps := (Setup, 0)\<rparr>) = (SetupS, [0]) \<and>
   \<not> spec_step (ResultS, [0]) (SetupS, [0])"
proof -
  have f: "mode exampleEmpty = Simulation" "partIndex exampleEmpty = 0" "simQuestions exampleEmpty = [[]]"
    using exampleEmpty_fields by simp_all
  have st: "app_step exampleEmptyResult ClickPruefung =
     Inr (exampleEmptyResult\<lparr>mode := Setup, results := [], effectDeps := (Setup, 0)\<rparr>)"
    using f by (simp add: app_step_def enterSetup_def commitEffects_def exampleEmptyResult_def)
  have a: "absState exampleEmptyResult = (ResultS, [0])"
    "absState (exampleEmptyResult\<lparr>mode := Setup, results := [], effectDeps := (Setup, 0)\<rparr>) = (SetupS, [0])"
    using f by (simp_all add: absState_def exampleEmptyResult_def)
  have m: "mode exampleEmptyResult = Result" by (simp add: exampleEmptyResult_def)
  have "ClickPruefung \<noteq> Tick" by simp
  from SpecMachine.user_events_refine_spec_iff[OF exampleEmptyResult_reachable st this] st a m
  show ?thesis by simp
qed

theorem tick_refines_spec_iff_witness:
  "app_step exampleLast Tick =
     Inr (exampleLast\<lparr>qIndex := 25, selected := None, showSolution := False, timeLeft := 0\<rparr>) \<and>
   \<not> spec_step (absState exampleLast)
       (absState (exampleLast\<lparr>qIndex := 25, selected := None, showSolution := False, timeLeft := 0\<rparr>))"
proof -
  have inv: "app_inv exampleLast" using exampleLast_reachable by (rule reachable_app_inv)
  have f: "mode exampleLast = Simulation" "timeLeft exampleLast \<le> 1" "partIndex exampleLast = 0"
    "qIndex exampleLast = 24" "length (simQuestions exampleLast ! partIndex exampleLast) = 25"
    using exampleStarted_fields by (simp_all add: exampleLast_def)
  have st: "app_step exampleLast Tick =
     Inr (exampleLast\<lparr>qIndex := 25, selected := None, showSolution := False, timeLeft := 0\<rparr>)"
    using tick_expired[OF inv f(1,2)] f by simp
  from SpecMachine.tick_refines_spec_iff[OF exampleLast_reachable st] f st show ?thesis
    by simp
qed

theorem render_total_witness:
  "reachable exampleEmptyResult \<and> (\<exists>page. render exampleEmptyResult = Inr page)"
  using Views.render_total[OF exampleEmptyResult_reachable] exampleEmptyResult_reachable by simp

theorem summary_after_part_witness:
  "\<exists>t. run exampleStarted (answerEvents (replicate 25 ''A'')) = Inr t \<and>
       summaryView t = Inr (''Technik E (E)'', 25, 25)"
proof -
  have f: "mode exampleStarted = Simulation" "qIndex exampleStarted = 0" "\<not> showSolution exampleStarted"
    "replicate 25 ''A'' \<noteq> []" "examType exampleStarted = ''N->E''" "partIndex exampleStarted = 0"
    using exampleStarted_fields exampleStarted_state by simp_all
  have l: "list_all2 (\<lambda>a eq. a \<noteq> [] \<and> a \<in> set (answerIds eq)) (replicate 25 ''A'')
             (simQuestions exampleStarted ! partIndex exampleStarted)"
    using exampleStarted_fields exampleTechEShuffled_A
    by (simp add: exampleStarted_part answerIds_def list_all2_conv_all_nth)
  show ?thesis
    using Views.summary_after_part[OF exampleStarted_reachable f(1-4) l] f exampleTechEShuffled_A
    by (simp add: exampleStarted_part correctCount_def partE_def)
qed

theorem category_option_selects_witness:
  "filteredQuestions (chooseCategory ''Vorschriften'' exampleLoaded) \<noteq> []"
proof -
  have h: "\<forall>q\<in>set (questions exampleLoaded). \<forall>t\<in>set (categoryPath q). CHR ''>'' \<notin> set t"
    "\<lparr>opt_value = ''Vorschriften'', opt_label = ''Pruefungsfragen > Vorschriften'', opt_depth = 1\<rparr>
       \<in> set (getIndentedCategories exampleLoaded)"
    "selectedClass exampleLoaded = []"
    by (simp_all add: exampleLoaded_options)
       (simp_all add: exampleLoaded_def fetchDone_def initState_def exampleBank_def exampleTechE_def
         exampleRule_def eval_defs)
  from Categories.category_option_selects[OF h] show ?thesis by simp
qed

theorem whole_exam_result_witness:
  "\<exists>t page. run exampleStarted (examEvents [replicate 25 ''A'']) = Inr t \<and> mode t = Result \<and>
     render t = Inr page \<and> settingsCard page = None \<and>
     resultCard page = Some [(''Technik E (E)'', 25, 25, Some 100)]"
proof -
  have sims: "simQuestions exampleStarted = [replicate 25 exampleEq]"
    using exampleStarted_state exampleStarted_part by (metis exampleEq_def)
  have f: "mode exampleStarted = Simulation" "partIndex exampleStarted = 0" "qIndex exampleStarted = 0"
    "\<not> showSolution exampleStarted"
    using exampleStarted_fields exampleStarted_state by simp_all
  have a: "''A'' \<in> set (answerIds exampleEq)" "answerCorrect ''A'' (question exampleEq)"
    using exampleTechEShuffled_A by (simp_all add: answerIds_def exampleEq_def)
  have off: "list_all2 offered [replicate 25 ''A''] (simQuestions exampleStarted)"
    using a(1) by (simp add: sims offered_def list_all2_conv_all_nth)
  have cfg: "examConfigOf (examType exampleStarted) = Some [partE]"
    using exampleStarted_state by simp
  have v: "map2 partVerdicts [replicate 25 ''A''] (simQuestions exampleStarted) = [replicate 25 True]"
    using a(2) by (simp add: sims partVerdicts_def zip_replicate)
  have row: "map2 (\<lambda>part v. (label part, correctCount v, length v, percent (correctCount v) (length v)))
               [partE] [replicate 25 True] = [(''Technik E (E)'', 25, 25, Some 100)]"
    by (simp add: partE_def correctCount_def percent_div)
  show ?thesis
    using ExamFlow.whole_exam_result[OF exampleStarted_reachable f off] cfg v row by auto
qed

theorem resolved_card_verdict_witness:
  "current exampleResolved = Some exampleEq \<and> showSolution exampleResolved \<and>
   sim_footer (simCard (\<lambda>x. x) (\<lambda>x. x) exampleResolved exampleEq) = Verdict ''Richtig!'' \<and>
   length (filter (\<lambda>b. btn_colour b = ''#38a169'')
     (sim_buttons (simCard (\<lambda>x. x) (\<lambda>x. x) exampleResolved exampleEq))) = 1"
proof -
  have c: "current exampleResolved = Some exampleEq"
    using exampleStarted_current by (simp add: exampleResolved_def)
  have sh: "showSolution exampleResolved" by (simp add: exampleResolved_def)
  have "results exampleResolved ! partIndex exampleResolved = [True]"
    using exampleStarted_fields by (simp add: exampleResolved_def)
  then show ?thesis
    using Cards.resolved_card_verdict[OF exampleResolved_reachable c sh, of "\<lambda>x. x" "\<lambda>x. x"] c sh by simp
qed

theorem clock_text_roundtrip_witness:
  "current exampleStarted = Some exampleEq \<and>
   length (sim_clock (simCard (\<lambda>x. x) (\<lambda>x. x) exampleStarted exampleEq)) = 5 \<and>
   readClock (sim_clock (simCard (\<lambda>x. x) (\<lambda>x. x) exampleStarted exampleEq)) = 2700"
  using Cards.clock_text_roundtrip[OF exampleStarted_reachable exampleStarted_current, of "\<lambda>x. x" "\<lambda>x. x"]
    exampleStarted_current exampleStarted_fields by simp

theorem practice_card_marks_witness:
  "mode exampleAnswered = Lernmodus \<and> lernCurrent exampleAnswered = Some exampleRuleShuffled \<and>
   length (filter (\<lambda>b. btn_colour b \<noteq> ''#3182ce'')
     (lern_buttons (lernCard (\<lambda>x. x) (\<lambda>x. x) exampleAnswered exampleRuleShuffled))) = 1 \<and>
   lern_verdict (lernCard (\<lambda>x. x) (\<lambda>x. x) exampleAnswered exampleRuleShuffled) \<noteq> None"
proof -
  have m: "mode exampleAnswered = Lernmodus" and c: "lernCurrent exampleAnswered = Some exampleRuleShuffled"
    using examplePractice_fields by (simp_all add: exampleAnswered_def lernCurrent_def)
  have n: "selectedAnswer exampleAnswered (number exampleRuleShuffled) = Some ''B''"
    by (simp add: exampleAnswered_def exampleRuleShuffled_def exampleRule_def eval_defs)
  show ?thesis
    using Cards.practice_card_marks[OF exampleAnswered_reachable m c, of "\<lambda>x. x" "\<lambda>x. x"] m c n by simp
qed

theorem short_part_ends_by_clock_witness:
  "length (simQuestions exampleEmpty ! partIndex exampleEmpty) = 0 \<and>
   run exampleEmpty (replicate 2700 Tick) =
     Inr (exampleEmpty\<lparr>mode := PartSummary, timeLeft := 0, timer := None, effectDeps := (PartSummary, 0)\<rparr>)"
proof -
  have f: "mode exampleEmpty = Simulation" "length (simQuestions exampleEmpty ! partIndex exampleEmpty) \<le> 1"
    using exampleEmpty_fields by simp_all
  show ?thesis
    using Behaviour.short_part_ends_by_clock[OF exampleEmpty_reachable f] exampleEmpty_fields by simp
qed

theorem clock_bounded_witness:
  "mode exampleStarted = Simulation \<and> timeLeft exampleStarted = 2700 \<and>
   (\<exists>parts. examConfigOf (examType exampleStarted) = Some parts \<and>
      timeLeft exampleStarted \<le> durationMin (parts ! partIndex exampleStarted) * 60 \<and>
      timeLeft exampleStarted \<le> 3600)"
proof -
  have m: "mode exampleStarted = Simulation" using exampleStarted_fields by simp
  show ?thesis using Wellformed.clock_bounded[OF exampleStarted_reachable m] exampleStarted_fields by simp
qed

theorem questions_wellformed_witness:
  "questions exampleStarted \<noteq> [] \<and> list_all wf_question (questions exampleStarted) \<and>
   list_all (list_all (\<lambda>eq. wf_question (question eq))) (simQuestions exampleStarted)"
proof -
  have "questions exampleStarted \<noteq> []"
    by (simp add: exampleStarted_def startEvents_def exampleBank_def exampleTechE_def exampleRule_def
        eval_defs)
  then show ?thesis using Wellformed.questions_wellformed[OF exampleStarted_reachable] by simp
qed

theorem class_option_selects_witness:
  "classOptions exampleLoaded = [''2'', ''1''] \<and> filteredQuestions (chooseClass ''2'' exampleLoaded) \<noteq> []"
proof -
  have o: "classOptions exampleLoaded = [''2'', ''1'']"
    by (simp add: classOptions_def js_set_from_def exampleLoaded_def fetchDone_def initState_def
        exampleBank_def exampleTechE_def exampleRule_def eval_defs)
  have c: "selectedCategory exampleLoaded = []" by (simp add: exampleLoaded_def fetchDone_def initState_def)
  have "''2'' \<in> set (classOptions exampleLoaded)" using o by simp
  from Categories.class_option_selects[OF this c] o show ?thesis by simp
qed

theorem renderMath_inline_witness:
  "renderMath (\<lambda>t. ''<i>'' @ t @ ''</i>'') (\<lambda>t. ''<b>'' @ t @ ''</b>'') ''$C = Q/U$'' = ''<i>C = Q/U</i>''"
proof -
  have "list_all (\<lambda>c. c \<noteq> CHR ''$'' \<and> \<not> line_terminator c) ''C = Q/U''"
    by (simp add: line_terminator_def)
  moreover have "\<And>t. CHR ''$'' \<notin> set t \<Longrightarrow> CHR ''$'' \<notin> set (''<i>'' @ t @ ''</i>'')"
    by simp
  ultimately show ?thesis
    using MathText.renderMath_inline[of "''C = Q/U''" "\<lambda>t. ''<i>'' @ t @ ''</i>''"] by simp
qed

theorem renderMath_display_dead_witness:
  "renderMath (\<lambda>t. ''<i>'' @ t @ ''</i>'') (\<lambda>t. ''<b>'' @ t @ ''</b>'') ''$$U = R I$$'' = ''<i></i>U = R I<i></i>''"
proof -
  have "\<And>t. CHR ''$'' \<notin> set t \<Longrightarrow> CHR ''$'' \<notin> set (''<i>'' @ t @ ''</i>'')"
    by simp
  from MathText.renderMath_display_dead[OF this] show ?thesis
    by (simp add: line_terminator_def)
qed
theorem pass_mark_after_part_witness:
  "\<exists>t rows. run exampleStarted (answerEvents (replicate 25 ''A'')) = Inr t \<and> settingsView t = Inr rows \<and>
     rows ! 0 = (''Technik E (E)'', 25, 45, Some True)"
proof -
  have f: "mode exampleStarted = Simulation" "qIndex exampleStarted = 0" "\<not> showSolution exampleStarted"
    "replicate 25 ''A'' \<noteq> []" "examType exampleStarted = ''N->E''" "partIndex exampleStarted = 0"
    using exampleStarted_fields exampleStarted_state by simp_all
  have l: "list_all2 (\<lambda>a eq. a \<noteq> [] \<and> a \<in> set (answerIds eq)) (replicate 25 ''A'')
             (simQuestions exampleStarted ! partIndex exampleStarted)"
    using exampleStarted_fields exampleTechEShuffled_A
    by (simp add: exampleStarted_part answerIds_def list_all2_conv_all_nth)
  show ?thesis
    using ExamRun.pass_mark_after_part[OF exampleStarted_reachable f(1-4) l] f exampleTechEShuffled_A
    by (simp add: exampleStarted_part correctCount_def partE_def)
qed

end
